(* ===== verification/Prelude.thy ===== *)
theory Prelude
  imports Main "HOL-Library.Word"
begin

text \<open>
  Shared vocabulary of the development.

  \<^item> Go integers keep their width: \<open>uint16\<close>, \<open>uint32\<close>, \<open>uint64\<close> and
    \<open>int64\<close> are words; \<open>int64\<close> values are compared as two's complement numbers.
  \<^item> A Go string is a sequence of bytes, here a \<open>char list\<close>; a byte slice is a list of
    8-bit words.
  \<^item> A call that returns \<^verbatim>\<open>(T, error)\<close> is a \<open>result\<close>: \<open>Ok\<close> of the value,
    \<open>Err\<close> of the text of the error (\<^verbatim>\<open>err.Error()\<close>), or \<open>Panic\<close> when the call
    panics and never returns to its caller.
  \<^item> A call with effects is an \<open>act\<close>: it takes the state and returns a result and the
    state at the time of the return or of the panic.

  The lemmas of this theory say how results compose. The collection \<open>act_simps\<close> unfolds
  the combinators, \<open>keeps_intros\<close> proves that an action preserves a predicate on states,
  \<open>no_panic_intros\<close> that it never panics.
\<close>

section \<open>Machine types\<close>

type_synonym byte = "8 word"
type_synonym bytes = "byte list"
type_synonym uint16 = "16 word"
type_synonym uint32 = "32 word"
type_synonym uint64 = "64 word"
type_synonym int64 = "64 word"

definition MaxUint16 :: nat where
  "MaxUint16 = 65535"

definition int64_lt :: "int64 \<Rightarrow> int64 \<Rightarrow> bool" where
  "int64_lt a b \<longleftrightarrow> sint a < sint b"

section \<open>Results\<close>

type_synonym error = string

datatype 'a result = Ok 'a | Err error | Panic string

definition nil_deref :: string where
  "nil_deref = ''runtime error: invalid memory address or nil pointer dereference''"

definition index_out_of_range :: string where
  "index_out_of_range = ''runtime error: index out of range''"

named_theorems act_simps \<open>unfolding of the result and action combinators\<close>
named_theorems no_panic_intros \<open>rules that show that an action never panics\<close>
named_theorems keeps_intros \<open>rules that show that an action preserves a predicate\<close>

primrec is_ok :: "'a result \<Rightarrow> bool" where
  "is_ok (Ok a) = True"
| "is_ok (Err e) = False"
| "is_ok (Panic p) = False"

primrec is_panic :: "'a result \<Rightarrow> bool" where
  "is_panic (Ok a) = False"
| "is_panic (Err e) = False"
| "is_panic (Panic p) = True"

primrec bindR :: "'a result \<Rightarrow> ('a \<Rightarrow> 'b result) \<Rightarrow> 'b result" where
  "bindR (Ok a) f = f a"
| "bindR (Err e) f = Err e"
| "bindR (Panic p) f = Panic p"

primrec mapErr :: "(error \<Rightarrow> error) \<Rightarrow> 'a result \<Rightarrow> 'a result" where
  "mapErr g (Ok a) = Ok a"
| "mapErr g (Err e) = Err (g e)"
| "mapErr g (Panic p) = Panic p"

text \<open>\<^verbatim>\<open>fmt.Errorf("msg: %w", err)\<close> around a fallible call.\<close>

definition wrapErr :: "string \<Rightarrow> 'a result \<Rightarrow> 'a result" where
  "wrapErr msg = mapErr (\<lambda>e. msg @ '': '' @ e)"

text \<open>A range loop that appends one value per element and returns at the first error.\<close>

fun mapR :: "('a \<Rightarrow> 'b result) \<Rightarrow> 'a list \<Rightarrow> 'b list result" where
  "mapR f [] = Ok []"
| "mapR f (x # xs) = bindR (f x) (\<lambda>y. bindR (mapR f xs) (\<lambda>ys. Ok (y # ys)))"

text \<open>Indexing a slice: out of range is a panic.\<close>

definition indexR :: "'a list \<Rightarrow> nat \<Rightarrow> 'a result" where
  "indexR xs i = (if i < length xs then Ok (xs ! i) else Panic index_out_of_range)"

text \<open>Following a pointer: nil is a panic.\<close>

definition derefR :: "'a option \<Rightarrow> 'a result" where
  "derefR p = (case p of Some a \<Rightarrow> Ok a | None \<Rightarrow> Panic nil_deref)"

lemma bindR_Ok_iff [act_simps]: "bindR m f = Ok b \<longleftrightarrow> (\<exists>a. m = Ok a \<and> f a = Ok b)"
  by (cases m) auto

lemma bindR_Err_iff [act_simps]:
  "bindR m f = Err e \<longleftrightarrow> m = Err e \<or> (\<exists>a. m = Ok a \<and> f a = Err e)"
  by (cases m) auto

lemma bindR_Panic_iff [act_simps]:
  "bindR m f = Panic p \<longleftrightarrow> m = Panic p \<or> (\<exists>a. m = Ok a \<and> f a = Panic p)"
  by (cases m) auto

lemma bindR_assoc: "bindR (bindR m f) g = bindR m (\<lambda>a. bindR (f a) g)"
  by (cases m) simp_all

lemma bindR_cong [fundef_cong]:
  "m = m' \<Longrightarrow> (\<And>a. m' = Ok a \<Longrightarrow> f a = f' a) \<Longrightarrow> bindR m f = bindR m' f'"
  by (cases m') auto

lemma mapErr_Ok_iff [act_simps]: "mapErr g m = Ok a \<longleftrightarrow> m = Ok a"
  by (cases m) auto

lemma mapErr_Err_iff [act_simps]: "mapErr g m = Err e \<longleftrightarrow> (\<exists>e'. m = Err e' \<and> e = g e')"
  by (cases m) auto

lemma mapErr_Panic_iff [act_simps]: "mapErr g m = Panic p \<longleftrightarrow> m = Panic p"
  by (cases m) auto

lemma wrapErr_Ok_iff [act_simps]: "wrapErr msg m = Ok a \<longleftrightarrow> m = Ok a"
  by (simp add: wrapErr_def act_simps)

lemma wrapErr_Panic_iff [act_simps]: "wrapErr msg m = Panic p \<longleftrightarrow> m = Panic p"
  by (simp add: wrapErr_def act_simps)

lemma wrapErr_simps [simp]:
  "wrapErr msg (Ok a) = Ok a"
  "wrapErr msg (Err e) = Err (msg @ '': '' @ e)"
  "wrapErr msg (Panic p) = Panic p"
  by (simp_all add: wrapErr_def)

lemma indexR_Ok_iff [act_simps]: "indexR xs i = Ok x \<longleftrightarrow> i < length xs \<and> x = xs ! i"
  by (auto simp: indexR_def)

lemma indexR_Err [simp]: "indexR xs i \<noteq> Err e"
  by (simp add: indexR_def)

lemma indexR_Panic_iff [act_simps]:
  "indexR xs i = Panic p \<longleftrightarrow> length xs \<le> i \<and> p = index_out_of_range"
  by (auto simp: indexR_def)

lemma derefR_simps [simp]: "derefR (Some a) = Ok a" "derefR None = Panic nil_deref"
  by (simp_all add: derefR_def)

lemma derefR_Ok_iff [act_simps]: "derefR p = Ok a \<longleftrightarrow> p = Some a"
  by (cases p) auto

lemma mapR_Ok_iff: "mapR f xs = Ok ys \<longleftrightarrow> list_all2 (\<lambda>x y. f x = Ok y) xs ys"
  by (induction xs arbitrary: ys) (auto simp: act_simps list_all2_Cons1)

lemma mapR_Ok_length: "mapR f xs = Ok ys \<Longrightarrow> length ys = length xs"
  by (auto simp: mapR_Ok_iff dest: list_all2_lengthD)

lemma mapR_Ok_map: "(\<And>x. x \<in> set xs \<Longrightarrow> f x = Ok (g x)) \<Longrightarrow> mapR f xs = Ok (map g xs)"
  by (induction xs) auto

lemma mapR_Err_D: "mapR f xs = Err e \<Longrightarrow> \<exists>x \<in> set xs. f x = Err e"
  by (induction xs) (auto simp: act_simps)

lemma mapR_Panic_D: "mapR f xs = Panic p \<Longrightarrow> \<exists>x \<in> set xs. f x = Panic p"
  by (induction xs) (auto simp: act_simps)

section \<open>Actions\<close>

type_synonym ('s, 'a) act = "'s \<Rightarrow> 'a result \<times> 's"

definition returnS :: "'a \<Rightarrow> ('s, 'a) act" where
  "returnS a = (\<lambda>s. (Ok a, s))"

definition failS :: "error \<Rightarrow> ('s, 'a) act" where
  "failS e = (\<lambda>s. (Err e, s))"

definition liftR :: "'a result \<Rightarrow> ('s, 'a) act" where
  "liftR r = (\<lambda>s. (r, s))"

text \<open>
  \<^verbatim>\<open>v, err := m; if err != nil { handler } ; rest\<close>: a panic passes through both.
\<close>

definition catchS :: "('s, 'a) act \<Rightarrow> (error \<Rightarrow> ('s, 'b) act) \<Rightarrow> ('a \<Rightarrow> ('s, 'b) act) \<Rightarrow> ('s, 'b) act" where
  "catchS m handler rest = (\<lambda>s. case m s of
      (Ok a, s') \<Rightarrow> rest a s'
    | (Err e, s') \<Rightarrow> handler e s'
    | (Panic p, s') \<Rightarrow> (Panic p, s'))"

definition bindS :: "('s, 'a) act \<Rightarrow> ('a \<Rightarrow> ('s, 'b) act) \<Rightarrow> ('s, 'b) act" where
  "bindS m f = catchS m failS f"

definition mapErrS :: "(error \<Rightarrow> error) \<Rightarrow> ('s, 'a) act \<Rightarrow> ('s, 'a) act" where
  "mapErrS g m = (\<lambda>s. case m s of (r, s') \<Rightarrow> (mapErr g r, s'))"

definition modifyS :: "('s \<Rightarrow> 's) \<Rightarrow> ('s, unit) act" where
  "modifyS f = (\<lambda>s. (Ok (), f s))"

text \<open>A range loop whose body has effects: one value per element, in order, up to the first error.\<close>

fun mapS :: "('a \<Rightarrow> ('s, 'b) act) \<Rightarrow> 'a list \<Rightarrow> ('s, 'b list) act" where
  "mapS f [] = returnS []"
| "mapS f (x # xs) = bindS (f x) (\<lambda>y. bindS (mapS f xs) (\<lambda>ys. returnS (y # ys)))"

lemma returnS_eq [act_simps]: "returnS a s = (r, s') \<longleftrightarrow> r = Ok a \<and> s' = s"
  by (auto simp: returnS_def)

lemma failS_eq [act_simps]: "failS e s = (r, s') \<longleftrightarrow> r = Err e \<and> s' = s"
  by (auto simp: failS_def)

lemma liftR_eq [act_simps]: "liftR r0 s = (r, s') \<longleftrightarrow> r = r0 \<and> s' = s"
  by (auto simp: liftR_def)

lemma modifyS_eq [act_simps]: "modifyS f s = (r, s') \<longleftrightarrow> r = Ok () \<and> s' = f s"
  by (auto simp: modifyS_def)

lemma act_apply [simp]:
  "returnS a s = (Ok a, s)"
  "failS e s = (Err e, s)"
  "liftR r s = (r, s)"
  "modifyS f s = (Ok (), f s)"
  by (simp_all add: returnS_def failS_def liftR_def modifyS_def)

lemma catchS_apply:
  "catchS m h f s = (case m s of (Ok a, s') \<Rightarrow> f a s' | (Err e, s') \<Rightarrow> h e s'
     | (Panic p, s') \<Rightarrow> (Panic p, s'))"
  by (simp add: catchS_def)

lemma catchS_simps [simp]:
  "m s = (Ok a, s') \<Longrightarrow> catchS m h f s = f a s'"
  "m s = (Err e, s') \<Longrightarrow> catchS m h f s = h e s'"
  "m s = (Panic p, s') \<Longrightarrow> catchS m h f s = (Panic p, s')"
  by (simp_all add: catchS_def)

lemma bindS_simps [simp]:
  "m s = (Ok a, s') \<Longrightarrow> bindS m f s = f a s'"
  "m s = (Err e, s') \<Longrightarrow> bindS m f s = (Err e, s')"
  "m s = (Panic p, s') \<Longrightarrow> bindS m f s = (Panic p, s')"
  by (simp_all add: bindS_def)

lemma mapErrS_apply: "mapErrS g m s = (mapErr g (fst (m s)), snd (m s))"
  by (simp add: mapErrS_def split: prod.splits)

lemma mapErrS_simps [simp]:
  "m s = (Ok a, s') \<Longrightarrow> mapErrS g m s = (Ok a, s')"
  "m s = (Err e, s') \<Longrightarrow> mapErrS g m s = (Err (g e), s')"
  "m s = (Panic p, s') \<Longrightarrow> mapErrS g m s = (Panic p, s')"
  by (simp_all add: mapErrS_def)

lemma mapErrS_iff [act_simps]:
  "mapErrS g m s = (Ok a, s') \<longleftrightarrow> m s = (Ok a, s')"
  "mapErrS g m s = (Err e, s') \<longleftrightarrow> (\<exists>e'. m s = (Err e', s') \<and> e = g e')"
  "mapErrS g m s = (Panic p, s') \<longleftrightarrow> m s = (Panic p, s')"
  by (auto simp: mapErrS_def act_simps split: prod.splits)

lemma catchS_Ok_E [consumes 1, case_names ok err]:
  assumes "catchS m h f s = (Ok b, s')"
  obtains (ok) a t where "m s = (Ok a, t)" and "f a t = (Ok b, s')"
    | (err) e t where "m s = (Err e, t)" and "h e t = (Ok b, s')"
  using assms by (auto simp: catchS_def split: prod.splits result.splits)

lemma bindS_Ok_E:
  assumes "bindS m f s = (Ok b, s')"
  obtains a t where "m s = (Ok a, t)" and "f a t = (Ok b, s')"
  using assms unfolding bindS_def by (auto elim!: catchS_Ok_E)

lemma bindS_Ok_iff [act_simps]:
  "bindS m f s = (Ok b, s') \<longleftrightarrow> (\<exists>a t. m s = (Ok a, t) \<and> f a t = (Ok b, s'))"
  by (auto elim!: bindS_Ok_E)

lemma catchS_Panic_iff [act_simps]:
  "catchS m h f s = (Panic p, s') \<longleftrightarrow> m s = (Panic p, s')
     \<or> (\<exists>a t. m s = (Ok a, t) \<and> f a t = (Panic p, s'))
     \<or> (\<exists>e t. m s = (Err e, t) \<and> h e t = (Panic p, s'))"
  by (auto simp: catchS_def split: prod.splits result.splits)

lemma bindS_Panic_iff [act_simps]:
  "bindS m f s = (Panic p, s') \<longleftrightarrow>
     m s = (Panic p, s') \<or> (\<exists>a t. m s = (Ok a, t) \<and> f a t = (Panic p, s'))"
  by (auto simp: bindS_def act_simps)

lemma bindS_Err_iff [act_simps]:
  "bindS m f s = (Err e, s') \<longleftrightarrow>
     m s = (Err e, s') \<or> (\<exists>a t. m s = (Ok a, t) \<and> f a t = (Err e, s'))"
  by (auto simp: bindS_def catchS_def split: prod.splits result.splits)

section \<open>Actions that preserve a predicate\<close>

definition keeps :: "('s \<Rightarrow> bool) \<Rightarrow> ('s, 'a) act \<Rightarrow> bool" where
  "keeps I m \<longleftrightarrow> (\<forall>s. I s \<longrightarrow> I (snd (m s)))"

lemma keepsI: "(\<And>s r s'. I s \<Longrightarrow> m s = (r, s') \<Longrightarrow> I s') \<Longrightarrow> keeps I m"
  unfolding keeps_def by (metis prod.collapse)

lemma keepsD: "keeps I m \<Longrightarrow> I s \<Longrightarrow> m s = (r, s') \<Longrightarrow> I s'"
  by (fastforce simp: keeps_def)

lemma keeps_returnS [keeps_intros]: "keeps I (returnS a)"
  by (simp add: keeps_def)

lemma keeps_failS [keeps_intros]: "keeps I (failS e)"
  by (simp add: keeps_def)

lemma keeps_liftR [keeps_intros]: "keeps I (liftR r)"
  by (simp add: keeps_def)

text \<open>The simplifier turns the three actions above into partial applications of \<open>Pair\<close>.\<close>

lemma keeps_Pair [keeps_intros]: "keeps I (Pair r)"
  by (simp add: keeps_def)

lemma keeps_modifyS: "(\<And>s. I s \<Longrightarrow> I (f s)) \<Longrightarrow> keeps I (modifyS f)"
  by (simp add: keeps_def)

lemma keeps_mapErrS [keeps_intros]: "keeps I m \<Longrightarrow> keeps I (mapErrS g m)"
  by (simp add: keeps_def mapErrS_apply)

lemma keeps_catchS [keeps_intros]:
  assumes "keeps I m" and "\<And>e. keeps I (h e)" and "\<And>a. keeps I (f a)"
  shows "keeps I (catchS m h f)"
proof (rule keepsI)
  fix s r s'
  assume "I s" and eq: "catchS m h f s = (r, s')"
  obtain q t where q: "m s = (q, t)" by (cases "m s")
  with assms(1) \<open>I s\<close> have "I t" by (auto dest: keepsD)
  with q eq assms(2,3) show "I s'"
    by (cases q) (auto dest: keepsD)
qed

lemma keeps_bindS [keeps_intros]:
  "keeps I m \<Longrightarrow> (\<And>a. keeps I (f a)) \<Longrightarrow> keeps I (bindS m f)"
  unfolding bindS_def by (intro keeps_intros)

lemma keeps_if [keeps_intros]:
  "keeps I m \<Longrightarrow> keeps I m' \<Longrightarrow> keeps I (if b then m else m')"
  by simp

lemma keeps_case_option [keeps_intros]:
  "keeps I m \<Longrightarrow> (\<And>a. keeps I (f a)) \<Longrightarrow> keeps I (case x of None \<Rightarrow> m | Some a \<Rightarrow> f a)"
  by (cases x) auto

lemma keeps_case_prod [keeps_intros]:
  "(\<And>a b. keeps I (f a b)) \<Longrightarrow> keeps I (case x of (a, b) \<Rightarrow> f a b)"
  by (cases x) auto

lemma keeps_Let [keeps_intros]: "(\<And>a. keeps I (f a)) \<Longrightarrow> keeps I (Let x f)"
  by simp

lemma keeps_mapS [keeps_intros]: "(\<And>x. x \<in> set xs \<Longrightarrow> keeps I (f x)) \<Longrightarrow> keeps I (mapS f xs)"
  by (induction xs) (auto intro!: keeps_intros)

lemma mapS_Ok_map:
  "(\<And>x. x \<in> set xs \<Longrightarrow> f x s = (Ok (g x), s)) \<Longrightarrow> mapS f xs s = (Ok (map g xs), s)"
  by (induction xs) auto

section \<open>Actions that never panic\<close>

definition no_panic :: "('s, 'a) act \<Rightarrow> bool" where
  "no_panic m \<longleftrightarrow> (\<forall>s p s'. m s \<noteq> (Panic p, s'))"

lemma no_panicD: "no_panic m \<Longrightarrow> m s \<noteq> (Panic p, s')"
  by (simp add: no_panic_def)

lemma no_panic_basic [no_panic_intros]:
  "no_panic (returnS a)" "no_panic (failS e)" "no_panic (modifyS f)"
  by (simp_all add: no_panic_def)

lemma no_panic_liftR [no_panic_intros]: "(\<And>p. r \<noteq> Panic p) \<Longrightarrow> no_panic (liftR r)"
  by (simp add: no_panic_def)

lemma no_panic_mapErrS [no_panic_intros]: "no_panic m \<Longrightarrow> no_panic (mapErrS g m)"
  by (simp add: no_panic_def act_simps)

text \<open>The continuation only has to be safe for the values the first action can return.\<close>

lemma no_panic_catchS:
  assumes "no_panic m" "\<And>e. no_panic (h e)"
    and "\<And>s a s'. m s = (Ok a, s') \<Longrightarrow> no_panic (f a)"
  shows "no_panic (catchS m h f)"
proof -
  have "catchS m h f s \<noteq> (Panic p, s')" for s p s'
    using assms(1,2) assms(3) [THEN no_panicD] by (auto simp: act_simps dest: no_panicD)
  then show ?thesis by (simp add: no_panic_def)
qed

lemma no_panic_bindS:
  "no_panic m \<Longrightarrow> (\<And>s a s'. m s = (Ok a, s') \<Longrightarrow> no_panic (f a)) \<Longrightarrow> no_panic (bindS m f)"
  unfolding bindS_def by (rule no_panic_catchS) (auto intro: no_panic_intros)

lemma no_panic_if [no_panic_intros]:
  "(b \<Longrightarrow> no_panic m) \<Longrightarrow> (\<not> b \<Longrightarrow> no_panic m') \<Longrightarrow> no_panic (if b then m else m')"
  by simp

lemma no_panic_case_option [no_panic_intros]:
  "(x = None \<Longrightarrow> no_panic m) \<Longrightarrow> (\<And>a. x = Some a \<Longrightarrow> no_panic (f a)) \<Longrightarrow>
   no_panic (case x of None \<Rightarrow> m | Some a \<Rightarrow> f a)"
  by (cases x) auto

lemma no_panic_case_prod [no_panic_intros]:
  "(\<And>a b. x = (a, b) \<Longrightarrow> no_panic (f a b)) \<Longrightarrow> no_panic (case x of (a, b) \<Rightarrow> f a b)"
  by (cases x) auto

section \<open>Words and lists\<close>

lemma unat_uint64_less: "unat (x :: uint64) < 18446744073709551616"
  using unsigned_less [of x] by simp

lemma unat_uint16_less: "unat (x :: uint16) < 65536"
  using unsigned_less [of x] by simp

lemma unat_uint32_less: "unat (x :: uint32) < 4294967296"
  using unsigned_less [of x] by simp

lemma sint_of_small_uint64:
  assumes "uint (x :: uint64) \<le> 2 ^ 63 - 1"
  shows "sint x = uint x"
proof -
  have "signed_take_bit 63 (uint x) = uint x"
    using assms uint_ge_0 [of x] by (intro signed_take_bit_int_eq_self) linarith+
  then show ?thesis by (simp add: sint_uint)
qed

lemma unat_word_of_nat64: "n < 2 ^ 64 \<Longrightarrow> unat (word_of_nat n :: uint64) = n"
  by (simp add: unat_of_nat)

lemma word_of_nat_Suc_eq_iff:
  assumes "n < unat (m :: uint64)"
  shows "word_of_nat n + 1 = m \<longleftrightarrow> Suc n = unat m"
proof -
  have "Suc n < 2 ^ 64" using assms unat_uint64_less [of m] by simp
  then have "unat (word_of_nat (Suc n) :: uint64) = Suc n" by (rule unat_word_of_nat64)
  then show ?thesis by (simp add: word_unat_eq_iff add.commute)
qed

lemma list_all2_map_eq: "list_all2 (\<lambda>x y. y = f x) xs ys \<longleftrightarrow> ys = map f xs"
  by (auto simp: list_all2_conv_all_nth list_eq_iff_nth_eq)

section \<open>Invariants of step relations\<close>

text \<open>
  A predicate that every step of a relation keeps. The components with a step relation interpret the
  locale once per invariant.
\<close>

locale step_invariant =
  fixes step :: "'s \<Rightarrow> 's \<Rightarrow> bool" and inv :: "'s \<Rightarrow> bool"
  assumes kept: "step s s' \<Longrightarrow> inv s \<Longrightarrow> inv s'"
begin

lemma reach: "step\<^sup>*\<^sup>* s s' \<Longrightarrow> inv s \<Longrightarrow> inv s'"
  by (induction rule: rtranclp_induct) (auto intro: kept)

text \<open>A property that the steps keep where the invariant holds.\<close>

lemma reach_with:
  assumes "step\<^sup>*\<^sup>* s s'" "inv s" "P s"
    and "\<And>t u. step t u \<Longrightarrow> inv t \<Longrightarrow> P t \<Longrightarrow> P u"
  shows "P s'"
  using assms(1)
proof (induction rule: rtranclp_induct)
  case base
  then show ?case by (rule assms(3))
next
  case (step t u)
  then show ?case using reach [OF step(1) assms(2)] assms(4) by blast
qed

end

end
