(* ===== verification/GoStd.thy ===== *)
theory GoStd
  imports Prelude
begin

text \<open>
  The routines of the Go standard library that the program uses, written out as the library
  defines them: \<^verbatim>\<open>encoding/hex\<close>, the \<^verbatim>\<open>strings\<close> functions, \<^verbatim>\<open>strconv.ParseUint\<close> and
  \<^verbatim>\<open>strconv.Atoi\<close>, \<^verbatim>\<open>errors.Join\<close>, and the decimal and \<open>%#U\<close> verbs of \<^verbatim>\<open>fmt\<close>.
  The lemmas are their round trips: decoding inverts encoding on bytes, encoding inverts
  decoding up to the case of the letters, and the decimal parsers invert the decimal printer.
\<close>

section \<open>Decimal numbers\<close>

definition digit_char :: "nat \<Rightarrow> char" where
  "digit_char d = char_of (48 + d)"

definition is_digit :: "char \<Rightarrow> bool" where
  "is_digit c \<longleftrightarrow> 48 \<le> (of_char c :: nat) \<and> (of_char c :: nat) \<le> 57"

definition digit_val :: "char \<Rightarrow> nat" where
  "digit_val c = of_char c - 48"

text \<open>The \<open>%d\<close> verb on a non-negative number.\<close>

fun show_nat :: "nat \<Rightarrow> string" where
  "show_nat n = (if n < 10 then [digit_char n] else show_nat (n div 10) @ [digit_char (n mod 10)])"

declare show_nat.simps [simp del]

definition show_int :: "int \<Rightarrow> string" where
  "show_int i = (if i < 0 then CHR ''-'' # show_nat (nat (- i)) else show_nat (nat i))"

text \<open>
  \<^verbatim>\<open>strconv.ParseUint(s, 10, bitSize)\<close> with the largest value given instead of the bit size:
  the loop over the characters stops at the first non-digit (a syntax error) or as soon as the
  value passes the largest one (a range error).
\<close>

datatype num_error = ErrSyntax | ErrRange

fun parse_digits :: "nat \<Rightarrow> nat \<Rightarrow> string \<Rightarrow> num_error + nat" where
  "parse_digits maxVal n [] = Inr n"
| "parse_digits maxVal n (c # cs) =
     (if \<not> is_digit c then Inl ErrSyntax
      else let n1 = 10 * n + digit_val c
           in if maxVal < n1 then Inl ErrRange else parse_digits maxVal n1 cs)"

definition ParseUint :: "nat \<Rightarrow> string \<Rightarrow> num_error + nat" where
  "ParseUint maxVal s = (if s = [] then Inl ErrSyntax else parse_digits maxVal 0 s)"

text \<open>
  \<^verbatim>\<open>strconv.Atoi\<close> on a platform with 64-bit \<^verbatim>\<open>int\<close>: an optional sign, then digits; a
  magnitude beyond the range of \<^verbatim>\<open>int64\<close> is an error.
\<close>

definition Atoi :: "string \<Rightarrow> num_error + int" where
  "Atoi s =
     (let neg = (case s of c # _ \<Rightarrow> c = CHR ''-'' | [] \<Rightarrow> False);
          signed = (case s of c # _ \<Rightarrow> c = CHR ''-'' \<or> c = CHR ''+'' | [] \<Rightarrow> False);
          body = (if signed then tl s else s)
      in case ParseUint (if neg then 2 ^ 63 else 2 ^ 63 - 1) body of
           Inl e \<Rightarrow> Inl e
         | Inr n \<Rightarrow> Inr (if neg then - int n else int n))"

lemma of_char_digit_char: "d < 10 \<Longrightarrow> (of_char (digit_char d) :: nat) = 48 + d"
  by (simp add: digit_char_def of_char_mod_256 take_bit_eq_mod)

lemma is_digit_digit_char [simp]: "d < 10 \<Longrightarrow> is_digit (digit_char d)"
  by (simp add: is_digit_def of_char_digit_char)

lemma digit_val_digit_char [simp]: "d < 10 \<Longrightarrow> digit_val (digit_char d) = d"
  by (simp add: digit_val_def of_char_digit_char)

lemma show_nat_not_Nil [simp]: "show_nat n \<noteq> []"
  by (subst show_nat.simps) simp

lemma show_nat_digits: "\<forall>c \<in> set (show_nat n). is_digit c"
proof (induction n rule: show_nat.induct)
  case (1 n)
  then show ?case
    by (cases "n < 10") (auto simp: show_nat.simps [of n])
qed

text \<open>Parsing a printed number after some digits already read: a positional value.\<close>

lemma parse_digits_show_nat:
  assumes "n \<le> maxVal"
  shows "parse_digits maxVal 0 (show_nat n @ rest) = parse_digits maxVal n rest"
  using assms
proof (induction n arbitrary: rest rule: show_nat.induct)
  case (1 n)
  show ?case
  proof (cases "n < 10")
    case True
    with "1.prems" show ?thesis by (simp add: show_nat.simps [of n] Let_def)
  next
    case False
    then have "n div 10 \<le> maxVal" using "1.prems" by arith
    with False "1.IH" have "parse_digits maxVal 0 (show_nat n @ rest)
        = parse_digits maxVal (n div 10) (digit_char (n mod 10) # rest)"
      by (simp add: show_nat.simps [of n])
    moreover have "10 * (n div 10) + n mod 10 = n" by simp
    ultimately show ?thesis using "1.prems" by (simp add: Let_def)
  qed
qed

lemma ParseUint_show_nat: "n \<le> maxVal \<Longrightarrow> ParseUint maxVal (show_nat n) = Inr n"
  using parse_digits_show_nat [of n maxVal "[]"] by (simp add: ParseUint_def)

lemma parse_digits_le: "parse_digits maxVal n s = Inr r \<Longrightarrow> n \<le> maxVal \<Longrightarrow> r \<le> maxVal"
  by (induction s arbitrary: n) (auto simp: Let_def split: if_splits)

lemma parse_digits_digits: "parse_digits maxVal n s = Inr r \<Longrightarrow> \<forall>c \<in> set s. is_digit c"
  by (induction s arbitrary: n) (auto simp: Let_def split: if_splits)

lemma ParseUint_le: "ParseUint maxVal s = Inr r \<Longrightarrow> r \<le> maxVal"
  by (auto simp: ParseUint_def parse_digits_le split: if_splits)

lemma ParseUint_digits: "ParseUint maxVal s = Inr r \<Longrightarrow> s \<noteq> [] \<and> (\<forall>c \<in> set s. is_digit c)"
  by (auto simp: ParseUint_def dest: parse_digits_digits split: if_splits)

lemma show_nat_hd: "\<exists>c cs. show_nat n = c # cs \<and> is_digit c"
  by (metis list.exhaust list.set_intros(1) show_nat_digits show_nat_not_Nil)

lemma Atoi_show_nat:
  assumes "n < 2 ^ 63"
  shows "Atoi (show_nat n) = Inr (int n)"
proof -
  obtain c cs where c: "show_nat n = c # cs" "is_digit c"
    using show_nat_hd by blast
  then have "c \<noteq> CHR ''-''" "c \<noteq> CHR ''+''"
    by (auto simp: is_digit_def)
  moreover have "ParseUint (2 ^ 63 - 1) (c # cs) = Inr n"
    using assms c(1) ParseUint_show_nat [of n "2 ^ 63 - 1"] by simp
  ultimately show ?thesis
    by (simp add: Atoi_def c(1) Let_def)
qed

section \<open>Hexadecimal strings\<close>

definition hextable :: string where
  "hextable = ''0123456789abcdef''"

definition hex_byte :: "byte \<Rightarrow> string" where
  "hex_byte b = [hextable ! (unat b div 16), hextable ! (unat b mod 16)]"

definition EncodeToString :: "bytes \<Rightarrow> string" where
  "EncodeToString bs = concat (map hex_byte bs)"

text \<open>The reverse table: the value of a hexadecimal digit of either case.\<close>

definition hex_val :: "char \<Rightarrow> nat option" where
  "hex_val c = (let n = (of_char c :: nat) in
     if 48 \<le> n \<and> n \<le> 57 then Some (n - 48)
     else if 97 \<le> n \<and> n \<le> 102 then Some (n - 87)
     else if 65 \<le> n \<and> n \<le> 70 then Some (n - 55)
     else None)"

text \<open>The \<open>%#U\<close> verb on a byte, the form of \<^verbatim>\<open>hex.InvalidByteError\<close>.\<close>

definition is_print_latin1 :: "nat \<Rightarrow> bool" where
  "is_print_latin1 n \<longleftrightarrow> (32 \<le> n \<and> n < 127) \<or> (161 \<le> n \<and> n \<noteq> 173)"

definition utf8_latin1 :: "nat \<Rightarrow> string" where
  "utf8_latin1 n = (if n < 128 then [char_of n] else [char_of (192 + n div 64), char_of (128 + n mod 64)])"

definition upper_hex :: "nat \<Rightarrow> char" where
  "upper_hex d = ''0123456789ABCDEF'' ! d"

definition fmt_sharp_U :: "char \<Rightarrow> string" where
  "fmt_sharp_U c = (let n = (of_char c :: nat) in
     ''U+00'' @ [upper_hex (n div 16), upper_hex (n mod 16)]
       @ (if is_print_latin1 n then '' '' @ [char_of (39::nat)] @ utf8_latin1 n @ [char_of (39::nat)] else []))"

definition InvalidByteError :: "char \<Rightarrow> error" where
  "InvalidByteError c = ''encoding/hex: invalid byte: '' @ fmt_sharp_U c"

definition ErrLength :: error where
  "ErrLength = ''encoding/hex: odd length hex string''"

fun DecodeString :: "string \<Rightarrow> bytes result" where
  "DecodeString [] = Ok []"
| "DecodeString [p] = (case hex_val p of None \<Rightarrow> Err (InvalidByteError p) | Some a \<Rightarrow> Err ErrLength)"
| "DecodeString (p # q # s) =
     (case hex_val p of None \<Rightarrow> Err (InvalidByteError p)
      | Some a \<Rightarrow> (case hex_val q of None \<Rightarrow> Err (InvalidByteError q)
         | Some b \<Rightarrow> bindR (DecodeString s) (\<lambda>bs. Ok (word_of_nat (16 * a + b) # bs))))"

definition to_lower_char :: "char \<Rightarrow> char" where
  "to_lower_char c = (let n = (of_char c :: nat) in if 65 \<le> n \<and> n \<le> 90 then char_of (n + 32) else c)"

lemma hextable_digits: "list_all (\<lambda>n. hex_val (hextable ! n) = Some n) [0..<16]"
  by (simp add: hextable_def hex_val_def upt_rec)

lemma hex_val_hextable [simp]: "n < 16 \<Longrightarrow> hex_val (hextable ! n) = Some n"
  using hextable_digits by (simp add: list_all_iff)

lemma EncodeToString_simps [simp]:
  "EncodeToString [] = []"
  "EncodeToString (b # bs) = hex_byte b @ EncodeToString bs"
  by (simp_all add: EncodeToString_def)

lemma length_EncodeToString: "length (EncodeToString bs) = 2 * length bs"
  by (induction bs) (simp_all add: hex_byte_def)

lemma EncodeToString_Nil_iff [simp]: "EncodeToString bs = [] \<longleftrightarrow> bs = []"
  by (cases bs) (simp_all add: hex_byte_def)

lemma unat_byte_div_16: "unat (b :: byte) div 16 < 16"
proof -
  have "unat b < 2 ^ LENGTH(8)" by (rule unsigned_less)
  then show ?thesis by simp
qed

lemma DecodeString_EncodeToString [simp]: "DecodeString (EncodeToString bs) = Ok bs"
proof (induction bs)
  case Nil
  show ?case by simp
next
  case (Cons b bs)
  then show ?case
    by (simp add: hex_byte_def unat_byte_div_16)
qed

lemma EncodeToString_inj: "EncodeToString a = EncodeToString b \<longleftrightarrow> a = b"
  by (metis DecodeString_EncodeToString result.inject(1))

lemma hex_val_less: "hex_val c = Some a \<Longrightarrow> a < 16"
  by (auto simp: hex_val_def Let_def split: if_splits)

lemma char_eq_char_of: "c = char_of (n::nat) \<longleftrightarrow> (of_char c :: nat) = n mod 256"
  by (metis char_of_char of_char_of)

lemma hextable_hex_val: "hex_val c = Some a \<Longrightarrow> hextable ! a = to_lower_char c"
proof -
  assume a: "hex_val c = Some a"
  define n where "n = (of_char c :: nat)"
  have c: "c = char_of n" by (simp add: n_def)
  have "48 \<le> n \<and> n < 58 \<or> 97 \<le> n \<and> n < 103 \<or> 65 \<le> n \<and> n < 71"
    using a unfolding hex_val_def Let_def n_def [symmetric] by (simp split: if_splits)
  then have "n \<in> set ([48..<58] @ [97..<103] @ [65..<71])"
    by (simp only: set_append set_upt Un_iff atLeastLessThan_iff)
  moreover have "\<forall>n \<in> set ([48..<58] @ [97..<103] @ [65..<71]).
      hextable ! the (hex_val (char_of n)) = to_lower_char (char_of n)"
    by (simp add: hex_val_def hextable_def to_lower_char_def upt_rec char_eq_char_of)
  ultimately show ?thesis using a c by (metis option.sel)
qed

lemma DecodeString_Ok_E:
  assumes "DecodeString (p # q # s) = Ok bs"
  obtains a b cs where "hex_val p = Some a" "hex_val q = Some b" "DecodeString s = Ok cs"
    "bs = word_of_nat (16 * a + b) # cs"
  using assms by (auto split: option.splits simp: act_simps)

lemma EncodeToString_DecodeString:
  "DecodeString s = Ok bs \<Longrightarrow> EncodeToString bs = map to_lower_char s"
proof (induction s arbitrary: bs rule: DecodeString.induct)
  case 1
  then show ?case by simp
next
  case (2 p)
  then show ?case by (auto split: option.splits)
next
  case (3 p q s)
  from "3.prems" obtain a b cs where *: "hex_val p = Some a" "hex_val q = Some b"
      "DecodeString s = Ok cs" "bs = word_of_nat (16 * a + b) # cs"
    by (rule DecodeString_Ok_E)
  then have "EncodeToString cs = map to_lower_char s" using "3.IH" by blast
  moreover have "a < 16" "b < 16" using *(1,2) by (auto dest: hex_val_less)
  moreover from this have "unat (word_of_nat (16 * a + b) :: byte) = 16 * a + b"
    by (simp only: unat_of_nat) simp
  ultimately show ?case using *
    by (simp add: hex_byte_def hextable_hex_val)
qed

lemma DecodeString_no_panic [simp]: "DecodeString s \<noteq> Panic p"
  by (induction s rule: DecodeString.induct) (auto simp: act_simps split: option.splits)

lemma DecodeString_even: "DecodeString s = Ok bs \<Longrightarrow> length s = 2 * length bs"
  by (metis EncodeToString_DecodeString length_EncodeToString length_map)

section \<open>Strings and errors\<close>

fun has_prefix :: "string \<Rightarrow> string \<Rightarrow> bool" where
  "has_prefix s [] = True"
| "has_prefix [] (p # ps) = False"
| "has_prefix (c # s) (p # ps) = (c = p \<and> has_prefix s ps)"

text \<open>\<^verbatim>\<open>strings.Contains\<close>.\<close>

fun str_contains :: "string \<Rightarrow> string \<Rightarrow> bool" where
  "str_contains [] sub = (sub = [])"
| "str_contains (c # s) sub = (has_prefix (c # s) sub \<or> str_contains s sub)"

text \<open>\<^verbatim>\<open>strings.Split\<close> with a separator of one character.\<close>

fun split_at_char :: "char \<Rightarrow> string \<Rightarrow> string list" where
  "split_at_char sep [] = [[]]"
| "split_at_char sep (c # s) =
     (if c = sep then [] # split_at_char sep s
      else case split_at_char sep s of [] \<Rightarrow> [[c]] | w # ws \<Rightarrow> (c # w) # ws)"

text \<open>\<^verbatim>\<open>strings.TrimSuffix\<close>.\<close>

definition TrimSuffix :: "string \<Rightarrow> string \<Rightarrow> string" where
  "TrimSuffix s suf =
     (if length suf \<le> length s \<and> drop (length s - length suf) s = suf
      then take (length s - length suf) s else s)"

text \<open>The text of \<^verbatim>\<open>errors.Join(acc, e)\<close>; \<open>None\<close> is the nil error.\<close>

definition errors_Join :: "error option \<Rightarrow> error \<Rightarrow> error" where
  "errors_Join acc e = (case acc of None \<Rightarrow> e | Some a \<Rightarrow> a @ [CHR 0x0A] @ e)"

lemma has_prefix_append: "has_prefix (p @ s) p"
  by (induction p) auto

lemma has_prefix_iff: "has_prefix s p \<longleftrightarrow> (\<exists>t. s = p @ t)"
  by (induction s p rule: has_prefix.induct) auto

lemma str_contains_iff: "str_contains s sub \<longleftrightarrow> (\<exists>a b. s = a @ sub @ b)"
proof (induction s)
  case Nil
  then show ?case by auto
next
  case (Cons c s)
  show ?case
  proof
    assume "str_contains (c # s) sub"
    then consider "has_prefix (c # s) sub" | "str_contains s sub" by auto
    then show "\<exists>a b. c # s = a @ sub @ b"
    proof cases
      case 1
      then show ?thesis by (metis append_Nil has_prefix_iff)
    next
      case 2
      with Cons.IH show ?thesis by (metis append_Cons)
    qed
  next
    assume "\<exists>a b. c # s = a @ sub @ b"
    then obtain a b where ab: "c # s = a @ sub @ b" by blast
    show "str_contains (c # s) sub"
    proof (cases a)
      case Nil
      with ab have "has_prefix (c # s) sub" by (auto simp: has_prefix_iff)
      then show ?thesis by simp
    next
      case (Cons d a')
      with ab Cons.IH show ?thesis by auto
    qed
  qed
qed

lemma str_contains_append_left: "str_contains s sub \<Longrightarrow> str_contains (s @ t) sub"
  unfolding str_contains_iff by (metis append.assoc)

lemma str_contains_append_right: "str_contains t sub \<Longrightarrow> str_contains (s @ t) sub"
  unfolding str_contains_iff by (metis append.assoc)

lemma errors_Join_contains:
  "str_contains e sub \<Longrightarrow> str_contains (errors_Join acc e) sub"
  by (cases acc) (simp_all add: errors_Join_def str_contains_append_right del: append.simps)

lemma errors_Join_contains_acc:
  "str_contains a sub \<Longrightarrow> str_contains (errors_Join (Some a) e) sub"
  by (simp add: errors_Join_def str_contains_append_left)

lemma split_at_char_not_Nil [simp]: "split_at_char sep s \<noteq> []"
  by (induction s) (auto split: list.splits)

lemma split_at_char_no_sep: "sep \<notin> set s \<Longrightarrow> split_at_char sep s = [s]"
  by (induction s) auto

lemma split_at_char_append:
  "sep \<notin> set w \<Longrightarrow> split_at_char sep (w @ sep # s) = w # split_at_char sep s"
  by (induction w) auto

end
