(* ===== verification/BtcTypes.thy ===== *)
theory BtcTypes
  imports GoStd
begin

text \<open>
  Values and functions of the packages the repository imports (btcd, babylon, cosmos-sdk).

  Values the program only passes around (keys, signatures, decimals, network parameters, script
  trees) are opaque: a wrapped byte string nothing here looks into. Values whose fields the
  program reads (\<^verbatim>\<open>wire.MsgTx\<close> and its inputs and outputs) are records with the fields of the
  Go structs.

  Functions of those packages are parameters. They are grouped in three records, passed to every
  definition that calls them: \<open>btclib\<close> (keys, hashes and serialisation), \<open>stakinglib\<close> (the
  staking scripts and transaction checks the emulator calls) and \<open>signlib\<close> (the signing
  routines the signer calls). What a theorem needs of a parameter is a hypothesis of that
  theorem; the predicates at the end name the documented laws several of them share.
\<close>

section \<open>Opaque values\<close>

datatype PublicKey = PublicKey bytes
datatype PrivateKey = PrivateKey bytes
datatype EncryptionKey = EncryptionKey bytes
datatype SchnorrSignature = SchnorrSignature bytes
datatype AdaptorSignature = AdaptorSignature bytes
datatype BIP340PubKey = BIP340PubKey bytes
datatype BIP340Signature = BIP340Signature bytes
datatype LegacyDec = LegacyDec int
datatype NetParams = NetParams string
datatype Hash = Hash bytes
datatype BTCSlashingTx = BTCSlashingTx bytes
datatype StakingInfo = StakingInfo bytes
datatype UnbondingInfo = UnbondingInfo bytes
datatype SpendInfo = SpendInfo bytes

section \<open>Transactions\<close>

record OutPoint =
  OutPoint_Hash :: Hash
  OutPoint_Index :: uint32

record TxInput =
  PreviousOutPoint :: OutPoint
  SignatureScript :: bytes
  Witness :: "bytes list"
  Sequence :: uint32

record TxOutput =
  Value :: int64
  PkScript :: bytes

record MsgTx =
  Version :: "32 word"
  TxIn :: "TxInput list"
  TxOut :: "TxOutput list"
  LockTime :: uint32

section \<open>Functions of the imported packages\<close>

record btclib =
  SerializePubKey :: "PublicKey \<Rightarrow> bytes"
  SerializeCompressed :: "PublicKey \<Rightarrow> bytes"
  ParsePubKey :: "bytes \<Rightarrow> PublicKey result"
  TxHash :: "MsgTx \<Rightarrow> Hash"
  Hash_String :: "Hash \<Rightarrow> string"
  NewHashFromStr :: "string \<Rightarrow> Hash result"
  Tx_Deserialize :: "bytes \<Rightarrow> MsgTx result"
  Tx_Serialize :: "MsgTx \<Rightarrow> bytes result"
  DeserializeTxOut :: "bytes \<Rightarrow> TxOutput result"
  SerializeTxOut :: "TxOutput \<Rightarrow> bytes result"
  NewEncryptionKeyFromBytes :: "bytes \<Rightarrow> EncryptionKey result"
  EncryptionKey_ToBytes :: "EncryptionKey \<Rightarrow> bytes"
  ParseSignature :: "bytes \<Rightarrow> SchnorrSignature result"
  Signature_Serialize :: "SchnorrSignature \<Rightarrow> bytes"

record stakinglib =
  BBN_NewBTCTxFromHex :: "string \<Rightarrow> MsgTx result"
  NewBTCSlashingTxFromHex :: "string \<Rightarrow> BTCSlashingTx result"
  SlashingTx_ToMsgTx :: "BTCSlashingTx \<Rightarrow> MsgTx result"
  CheckSlashingTxMatchFundingTx ::
    "MsgTx \<Rightarrow> MsgTx \<Rightarrow> uint32 \<Rightarrow> int64 \<Rightarrow> LegacyDec \<Rightarrow> bytes \<Rightarrow> PublicKey \<Rightarrow> uint16 \<Rightarrow> NetParams
      \<Rightarrow> unit result"
  NewEncryptionKeyFromBTCPK :: "PublicKey \<Rightarrow> EncryptionKey result"
  BIP340_MarshalHex :: "PublicKey \<Rightarrow> string"
  BuildStakingInfo ::
    "PublicKey \<Rightarrow> PublicKey list \<Rightarrow> PublicKey list \<Rightarrow> uint32 \<Rightarrow> uint16 \<Rightarrow> int64 \<Rightarrow> NetParams
      \<Rightarrow> StakingInfo result"
  Staking_SlashingPathSpendInfo :: "StakingInfo \<Rightarrow> SpendInfo result"
  Staking_UnbondingPathSpendInfo :: "StakingInfo \<Rightarrow> SpendInfo result"
  BuildUnbondingInfo ::
    "PublicKey \<Rightarrow> PublicKey list \<Rightarrow> PublicKey list \<Rightarrow> uint32 \<Rightarrow> uint16 \<Rightarrow> int64 \<Rightarrow> NetParams
      \<Rightarrow> UnbondingInfo result"
  Unbonding_SlashingPathSpendInfo :: "UnbondingInfo \<Rightarrow> SpendInfo result"
  GetPkScriptPath :: "SpendInfo \<Rightarrow> bytes"

record signlib =
  EncSignTxWithOneScriptSpendInputStrict ::
    "MsgTx \<Rightarrow> MsgTx \<Rightarrow> uint32 \<Rightarrow> bytes \<Rightarrow> PrivateKey \<Rightarrow> EncryptionKey \<Rightarrow> AdaptorSignature result"
  SignTxWithOneScriptSpendInputStrict ::
    "MsgTx \<Rightarrow> MsgTx \<Rightarrow> uint32 \<Rightarrow> bytes \<Rightarrow> PrivateKey \<Rightarrow> SchnorrSignature result"
  SignTxForFirstScriptSpendWithTwoInputsFromScript ::
    "MsgTx \<Rightarrow> TxOutput \<Rightarrow> TxOutput \<Rightarrow> PrivateKey \<Rightarrow> bytes \<Rightarrow> SchnorrSignature result"
  AdaptorSignature_MustMarshal :: "AdaptorSignature \<Rightarrow> bytes result"
  PrivKey_PubKey :: "PrivateKey \<Rightarrow> PublicKey"

section \<open>Documented laws of the parameters\<close>

text \<open>
  Serialising and parsing back gives the value: transactions, transaction outputs, encryption
  keys and Schnorr signatures, for the values a theorem is about. A serialised Schnorr signature
  has 64 bytes, so it is not empty.
\<close>

definition tx_codec_ok :: "btclib \<Rightarrow> MsgTx \<Rightarrow> bool" where
  "tx_codec_ok lib tx \<longleftrightarrow> (case Tx_Serialize lib tx of Ok bs \<Rightarrow> Tx_Deserialize lib bs = Ok tx | _ \<Rightarrow> False)"

definition txout_codec_ok :: "btclib \<Rightarrow> TxOutput \<Rightarrow> bool" where
  "txout_codec_ok lib o1 \<longleftrightarrow>
     (case SerializeTxOut lib o1 of Ok bs \<Rightarrow> DeserializeTxOut lib bs = Ok o1 | _ \<Rightarrow> False)"

definition enckey_codec_ok :: "btclib \<Rightarrow> EncryptionKey \<Rightarrow> bool" where
  "enckey_codec_ok lib k \<longleftrightarrow> NewEncryptionKeyFromBytes lib (EncryptionKey_ToBytes lib k) = Ok k"

definition sig_codec_ok :: "btclib \<Rightarrow> SchnorrSignature \<Rightarrow> bool" where
  "sig_codec_ok lib sig \<longleftrightarrow>
     length (Signature_Serialize lib sig) = 64
       \<and> ParseSignature lib (Signature_Serialize lib sig) = Ok sig"

lemma tx_codec_okE:
  assumes "tx_codec_ok lib tx"
  obtains bs where "Tx_Serialize lib tx = Ok bs" "Tx_Deserialize lib bs = Ok tx"
  using assms by (auto simp: tx_codec_ok_def split: result.splits)

lemma txout_codec_okE:
  assumes "txout_codec_ok lib o1"
  obtains bs where "SerializeTxOut lib o1 = Ok bs" "DeserializeTxOut lib bs = Ok o1"
  using assms by (auto simp: txout_codec_ok_def split: result.splits)

end
