(* ===== verification/CovTypes.thy ===== *)
theory CovTypes
  imports BtcTypes
begin

text \<open>
  The data the emulator works on (\<^verbatim>\<open>types/\<close>): delegations with their undelegation and stake
  expansion parts, staking parameters, and the signatures submitted to the chain. A Go pointer
  that can be nil is an option.

  The lemmas give the exact meaning of the quorum test (it counts the signatures on the slashing
  transaction of the delegation and the unbonding signatures, and never the signatures on the
  slashing transaction of the undelegation) and of the conversion of the staking time.
\<close>

section \<open>Data\<close>

record CovenantAdaptorSigInfo =
  Adaptor_Pk :: PublicKey
  Adaptor_Sigs :: "bytes list"

record CovenantSchnorrSigInfo =
  Schnorr_Pk :: PublicKey
  Schnorr_Sig :: SchnorrSignature

record DelegationStakeExpansion =
  PreviousStakingTxHashHex :: string
  OtherFundingTxOutHex :: string

record Undelegation =
  UnbondingTxHex :: string
  Undel_SlashingTxHex :: string
  CovenantSlashingSigs :: "CovenantAdaptorSigInfo list"
  CovenantUnbondingSigs :: "CovenantSchnorrSigInfo list"
  DelegatorUnbondingSig :: "BIP340Signature option"
  SpendStakeTxHex :: string

record Delegation =
  BtcPk :: PublicKey
  FpBtcPks :: "PublicKey list"
  StakingTime :: uint32
  StartHeight :: uint32
  EndHeight :: uint32
  TotalSat :: int64
  StakingTxHex :: string
  StakingOutputIdx :: uint32
  SlashingTxHex :: string
  UnbondingTime :: uint16
  Del_CovenantSigs :: "CovenantAdaptorSigInfo list"
  BtcUndelegation :: "Undelegation option"
  ParamsVersion :: uint32
  StakeExpansion :: "DelegationStakeExpansion option"

record StakingParams =
  ComfirmationTimeBlocks :: uint32
  FinalizationTimeoutBlocks :: uint32
  MinSlashingTxFeeSat :: int64
  CovenantPks :: "PublicKey list"
  SlashingPkScript :: bytes
  CovenantQuorum :: uint32
  SlashingRate :: LegacyDec
  MinComissionRate :: LegacyDec
  UnbondingTimeBlocks :: uint32
  UnbondingFee :: int64
  MinStakingTime :: uint16
  MaxStakingTime :: uint16
  MinStakingValue :: int64
  MaxStakingValue :: int64

record CovenantSigs =
  CS_PublicKey :: PublicKey
  CS_StakingTxHash :: Hash
  CS_SlashingSigs :: "bytes list"
  CS_UnbondingSig :: SchnorrSignature
  CS_SlashingUnbondingSigs :: "bytes list"
  CS_StkExpSig :: "SchnorrSignature option"

text \<open>Relayer events are passed through and never read.\<close>

record TxResponse =
  TxResponse_TxHash :: string
  TxResponse_Events :: "string list"

section \<open>Operations\<close>

definition OtherFundingTxOut :: "btclib \<Rightarrow> DelegationStakeExpansion \<Rightarrow> TxOutput result" where
  "OtherFundingTxOut lib d =
     bindR (DecodeString (OtherFundingTxOutHex d)) (\<lambda>otherFundingTxOut.
       DeserializeTxOut lib otherFundingTxOut)"

definition HasCovenantQuorumOnSlashing :: "Undelegation \<Rightarrow> uint32 \<Rightarrow> bool" where
  "HasCovenantQuorumOnSlashing ud quorum \<longleftrightarrow> length (CovenantUnbondingSigs ud) \<ge> unat quorum"

definition HasCovenantQuorumOnUnbonding :: "Undelegation \<Rightarrow> uint32 \<Rightarrow> bool" where
  "HasCovenantQuorumOnUnbonding ud quorum \<longleftrightarrow> length (CovenantUnbondingSigs ud) \<ge> unat quorum"

definition HasAllSignatures :: "Undelegation \<Rightarrow> uint32 \<Rightarrow> bool" where
  "HasAllSignatures ud covenantQuorum \<longleftrightarrow>
     HasCovenantQuorumOnUnbonding ud covenantQuorum \<and> HasCovenantQuorumOnSlashing ud covenantQuorum"

text \<open>The undelegation is only followed when the first test of the conjunction holds.\<close>

definition HasCovenantQuorum :: "Delegation \<Rightarrow> uint32 \<Rightarrow> bool result" where
  "HasCovenantQuorum d quorum =
     (if length (Del_CovenantSigs d) \<ge> unat quorum
      then bindR (derefR (BtcUndelegation d)) (\<lambda>ud. Ok (HasAllSignatures ud quorum))
      else Ok False)"

definition GetStakingTime :: "Delegation \<Rightarrow> uint16 result" where
  "GetStakingTime d =
     (if unat (StakingTime d) > MaxUint16 then Panic ''invalid delegation in database''
      else Ok (ucast (StakingTime d)))"

definition IsStakeExpansion :: "Delegation \<Rightarrow> bool" where
  "IsStakeExpansion d \<longleftrightarrow> StakeExpansion d \<noteq> None"

section \<open>Lemmas\<close>

lemma HasAllSignatures_iff:
  "HasAllSignatures ud q \<longleftrightarrow> unat q \<le> length (CovenantUnbondingSigs ud)"
  by (simp add: HasAllSignatures_def HasCovenantQuorumOnUnbonding_def HasCovenantQuorumOnSlashing_def)

lemma HasCovenantQuorum_no_err [simp]: "HasCovenantQuorum d q \<noteq> Err e"
  by (auto simp: HasCovenantQuorum_def derefR_def split: option.splits)

lemma HasCovenantQuorum_Some:
  "BtcUndelegation d = Some ud \<Longrightarrow>
   HasCovenantQuorum d q =
     Ok (unat q \<le> length (Del_CovenantSigs d) \<and> unat q \<le> length (CovenantUnbondingSigs ud))"
  by (simp add: HasCovenantQuorum_def HasAllSignatures_iff)

lemma GetStakingTime_cases:
  "GetStakingTime d = (if unat (StakingTime d) \<le> 65535 then Ok (ucast (StakingTime d))
     else Panic ''invalid delegation in database'')"
  by (simp add: GetStakingTime_def MaxUint16_def)

lemma GetStakingTime_no_err [simp]: "GetStakingTime d \<noteq> Err e"
  by (simp add: GetStakingTime_cases)

lemma unat_ucast_uint16:
  assumes "unat (x :: uint32) \<le> 65535"
  shows "unat (ucast x :: uint16) = unat x"
proof -
  have "unat (ucast x :: uint16) = unat x mod 2 ^ 16"
    by (simp add: unsigned_ucast_eq take_bit_eq_mod)
  with assms show ?thesis by simp
qed

lemma GetStakingTime_Ok_unat: "GetStakingTime d = Ok t \<Longrightarrow> unat t = unat (StakingTime d)"
  by (auto simp: GetStakingTime_cases unat_ucast_uint16 split: if_splits)

end
