(* ===== verification/Samples.thy ===== *)
theory Samples
  imports CovTypes
begin

text \<open>
  Concrete instances of the parameter records and small concrete data. The witnesses evaluate the
  model on them, which shows that the hypotheses of the theorems can hold together. Nothing else
  depends on them: they are not models of the imported packages.
\<close>

section \<open>Keys and transactions\<close>

definition key_a :: PublicKey where "key_a = PublicKey [1]"
definition key_b :: PublicKey where "key_b = PublicKey [2]"

definition out_of :: "int64 \<Rightarrow> TxOutput" where
  "out_of v = \<lparr>Value = v, PkScript = [7]\<rparr>"

text \<open>A transaction with one output of value 1000 minus its number, and two inputs.\<close>

definition tx_of :: "byte \<Rightarrow> MsgTx" where
  "tx_of n = \<lparr>Version = ucast n,
     TxIn = [\<lparr>PreviousOutPoint = \<lparr>OutPoint_Hash = Hash [9], OutPoint_Index = 0\<rparr>,
              SignatureScript = [], Witness = [], Sequence = 0\<rparr>,
             \<lparr>PreviousOutPoint = \<lparr>OutPoint_Hash = Hash [8], OutPoint_Index = 1\<rparr>,
              SignatureScript = [], Witness = [], Sequence = 0\<rparr>],
     TxOut = [out_of (1000 - ucast n)], LockTime = 0\<rparr>"

definition deserialize_sample :: "bytes \<Rightarrow> MsgTx result" where
  "deserialize_sample bs = (case bs of [n] \<Rightarrow> Ok (tx_of n) | _ \<Rightarrow> Err ''unexpected EOF'')"

definition sample_blib :: btclib where
  "sample_blib = \<lparr>
     SerializePubKey = (\<lambda>k. case k of PublicKey b \<Rightarrow> b),
     SerializeCompressed = (\<lambda>k. case k of PublicKey b \<Rightarrow> b),
     ParsePubKey = (\<lambda>b. Ok (PublicKey b)),
     TxHash = (\<lambda>tx. Hash [ucast (Version tx)]),
     Hash_String = (\<lambda>h. case h of Hash b \<Rightarrow> EncodeToString b),
     NewHashFromStr = (\<lambda>s. bindR (DecodeString s) (\<lambda>b. Ok (Hash b))),
     Tx_Deserialize = deserialize_sample,
     Tx_Serialize = (\<lambda>tx. Ok [ucast (Version tx)]),
     DeserializeTxOut = (\<lambda>b. case b of [v] \<Rightarrow> Ok (out_of (ucast v)) | _ \<Rightarrow> Err ''unexpected EOF''),
     SerializeTxOut = (\<lambda>o1. Ok [ucast (Value o1)]),
     NewEncryptionKeyFromBytes = (\<lambda>b. Ok (EncryptionKey b)),
     EncryptionKey_ToBytes = (\<lambda>k. case k of EncryptionKey b \<Rightarrow> b),
     ParseSignature = (\<lambda>b. Ok (SchnorrSignature b)),
     Signature_Serialize = (\<lambda>s. case s of SchnorrSignature b \<Rightarrow> b)\<rparr>"

definition sample_slib :: stakinglib where
  "sample_slib = \<lparr>
     BBN_NewBTCTxFromHex = (\<lambda>h. bindR (DecodeString h) deserialize_sample),
     NewBTCSlashingTxFromHex = (\<lambda>h. bindR (DecodeString h) (\<lambda>b. Ok (BTCSlashingTx b))),
     SlashingTx_ToMsgTx = (\<lambda>t. case t of BTCSlashingTx b \<Rightarrow> deserialize_sample b),
     CheckSlashingTxMatchFundingTx = (\<lambda>sl f i fee r sc k t n.
       if unat i < length (TxOut f) then Ok () else Err ''invalid funding output index''),
     NewEncryptionKeyFromBTCPK = (\<lambda>k. case k of PublicKey b \<Rightarrow> Ok (EncryptionKey b)),
     BIP340_MarshalHex = (\<lambda>k. case k of PublicKey b \<Rightarrow> EncodeToString b),
     BuildStakingInfo = (\<lambda>k ks cs q t v n. Ok (StakingInfo [1])),
     Staking_SlashingPathSpendInfo = (\<lambda>i. Ok (SpendInfo [1])),
     Staking_UnbondingPathSpendInfo = (\<lambda>i. Ok (SpendInfo [2])),
     BuildUnbondingInfo = (\<lambda>k ks cs q t v n. Ok (UnbondingInfo [1])),
     Unbonding_SlashingPathSpendInfo = (\<lambda>i. Ok (SpendInfo [3])),
     GetPkScriptPath = (\<lambda>i. case i of SpendInfo b \<Rightarrow> b)\<rparr>"

section \<open>A delegation and its parameters\<close>

definition sample_undel :: Undelegation where
  "sample_undel = \<lparr>UnbondingTxHex = ''05'', Undel_SlashingTxHex = ''06'', CovenantSlashingSigs = [],
     CovenantUnbondingSigs = [], DelegatorUnbondingSig = None, SpendStakeTxHex = []\<rparr>"

definition sample_del :: Delegation where
  "sample_del = \<lparr>BtcPk = key_b, FpBtcPks = [key_b], StakingTime = 100, StartHeight = 1, EndHeight = 101,
     TotalSat = 1000, StakingTxHex = ''00'', StakingOutputIdx = 0, SlashingTxHex = ''01'',
     UnbondingTime = 10, Del_CovenantSigs = [], BtcUndelegation = Some sample_undel,
     ParamsVersion = 0, StakeExpansion = None\<rparr>"

definition sample_params :: StakingParams where
  "sample_params = \<lparr>ComfirmationTimeBlocks = 1, FinalizationTimeoutBlocks = 1, MinSlashingTxFeeSat = 1,
     CovenantPks = [key_b, key_a], SlashingPkScript = [], CovenantQuorum = 1, SlashingRate = LegacyDec 0,
     MinComissionRate = LegacyDec 0, UnbondingTimeBlocks = 10, UnbondingFee = 5, MinStakingTime = 50,
     MaxStakingTime = 200, MinStakingValue = 500, MaxStakingValue = 2000\<rparr>"

end
