(* ===== verification/SigningChecks.thy ===== *)
theory SigningChecks
  imports Samples
begin

text \<open>
  The checks a delegation passes before it is signed and the signing request built from it
  (\<^verbatim>\<open>covenant/covenant.go\<close> and the interface types of \<^verbatim>\<open>covenant/expected_signer.go\<close>): decoding and
  verification of the four transactions, encryption keys of the finality providers, script paths,
  and the basic validation of a stake expansion. Everything here is pure: once the parameters are
  known, the checks depend on the delegation only.

  \<open>checkDelegation\<close> is the part of the loop body of \<^verbatim>\<open>AddCovenantSignatures\<close> between the
  parameter lookup and the stake expansion; its \<open>Err\<close> is the message logged before
  \<^verbatim>\<open>continue\<close>. It is proved equivalent to a list of declarative conditions.
\<close>

section \<open>Requests and responses\<close>

record SigningRequestStkExp =
  PreviousActiveStakeTx :: MsgTx
  OtherFundingOutput :: TxOutput
  PreviousStakingOutputIdx :: uint32
  PreviousActiveStakeUnbondingPkScriptPath :: bytes

record SigningRequest =
  Req_StakingTx :: MsgTx
  Req_SlashingTx :: MsgTx
  Req_UnbondingTx :: MsgTx
  Req_SlashUnbondingTx :: MsgTx
  Req_StakeExp :: "SigningRequestStkExp option"
  Req_StakingOutputIdx :: uint32
  SlashingPkScriptPath :: bytes
  StakingTxUnbondingPkScriptPath :: bytes
  UnbondingTxSlashingPkScriptPath :: bytes
  Req_FpEncKeys :: "EncryptionKey list"

record SignaturesResponse =
  SlashSigs :: "bytes list"
  UnbondingSig :: SchnorrSignature
  SlashUnbondingSigs :: "bytes list"
  StkExtSig :: "SchnorrSignature option"

section \<open>Operations\<close>

definition stakeExpValidateBasic :: "btclib \<Rightarrow> stakinglib \<Rightarrow> Delegation option \<Rightarrow> TxOutput result" where
  "stakeExpValidateBasic blib slib btcDel =
     (case btcDel of None \<Rightarrow> Err ''stake expansion is nil in the delegation'' | Some del \<Rightarrow>
     (case StakeExpansion del of None \<Rightarrow> Err ''stake expansion is nil in the delegation'' | Some stkExp \<Rightarrow>
     bindR (BBN_NewBTCTxFromHex slib (StakingTxHex del)) (\<lambda>stkExpandTx.
     if length (TxIn stkExpandTx) \<noteq> 2 then Err ''stake expansion must have 2 inputs (TxIn)''
     else
       bindR (NewHashFromStr blib (PreviousStakingTxHashHex stkExp)) (\<lambda>previousActiveStkTxHash.
       bindR (indexR (TxIn stkExpandTx) 0) (\<lambda>in0.
       if OutPoint_Hash (PreviousOutPoint in0) \<noteq> previousActiveStkTxHash
       then Err (''stake expansion first input must be the previous staking transaction hash ''
                  @ PreviousStakingTxHashHex stkExp)
       else
         bindR (OtherFundingTxOut blib stkExp) (\<lambda>otherOutput.
         if sint (Value otherOutput) \<le> 0
         then Err (''funding output has invalid value '' @ show_int (sint (Value otherOutput)))
         else Ok otherOutput))))))"

definition fpEncKeysFromDel :: "stakinglib \<Rightarrow> Delegation \<Rightarrow> EncryptionKey list result" where
  "fpEncKeysFromDel slib btcDel =
     mapR (\<lambda>fpPk. mapErr (\<lambda>e. ''failed to get encryption key from finality provider public key ''
                               @ BIP340_MarshalHex slib fpPk @ '': '' @ e)
                     (NewEncryptionKeyFromBTCPK slib fpPk)) (FpBtcPks btcDel)"

definition pkScriptPathUnbondingSlash ::
  "stakinglib \<Rightarrow> Delegation \<Rightarrow> MsgTx \<Rightarrow> StakingParams \<Rightarrow> NetParams \<Rightarrow> bytes result" where
  "pkScriptPathUnbondingSlash slib del unbondingTx params btcNet =
     bindR (indexR (TxOut unbondingTx) 0) (\<lambda>out0.
     bindR (BuildUnbondingInfo slib (BtcPk del) (FpBtcPks del) (CovenantPks params)
              (CovenantQuorum params) (UnbondingTime del) (Value out0) btcNet) (\<lambda>unbondingInfo.
     bindR (Unbonding_SlashingPathSpendInfo slib unbondingInfo) (\<lambda>unbondingTxSlashingPathInfo.
     Ok (GetPkScriptPath slib unbondingTxSlashingPathInfo))))"

definition pkScriptPathSlashAndUnbond ::
  "stakinglib \<Rightarrow> Delegation \<Rightarrow> StakingParams \<Rightarrow> NetParams \<Rightarrow> (bytes \<times> bytes) result" where
  "pkScriptPathSlashAndUnbond slib del params btcNet =
     bindR (GetStakingTime del) (\<lambda>stakingTime.
     bindR (wrapErr ''failed to build staking info''
              (BuildStakingInfo slib (BtcPk del) (FpBtcPks del) (CovenantPks params)
                 (CovenantQuorum params) stakingTime (TotalSat del) btcNet)) (\<lambda>stakingInfo.
     bindR (wrapErr ''failed to get slashing path info''
              (Staking_SlashingPathSpendInfo slib stakingInfo)) (\<lambda>slashingPathInfo.
     bindR (mapErr (\<lambda>_. ''failed to get unbonding path spend info'')
              (Staking_UnbondingPathSpendInfo slib stakingInfo)) (\<lambda>stakingTxUnbondingPathInfo.
     Ok (GetPkScriptPath slib slashingPathInfo, GetPkScriptPath slib stakingTxUnbondingPathInfo)))))"

definition pkScriptPaths ::
  "stakinglib \<Rightarrow> Delegation \<Rightarrow> StakingParams \<Rightarrow> NetParams \<Rightarrow> MsgTx \<Rightarrow> (bytes \<times> bytes \<times> bytes) result" where
  "pkScriptPaths slib del params btcNet unbondingTx =
     bindR (pkScriptPathSlashAndUnbond slib del params btcNet) (\<lambda>(slash, unbond).
     bindR (pkScriptPathUnbondingSlash slib del unbondingTx params btcNet) (\<lambda>unbondSlash.
     Ok (slash, unbond, unbondSlash)))"

definition decodeDelegationTransactions ::
  "stakinglib \<Rightarrow> Delegation \<Rightarrow> StakingParams \<Rightarrow> NetParams \<Rightarrow> (MsgTx \<times> MsgTx) result" where
  "decodeDelegationTransactions slib del params btcNet =
     bindR (mapErr (\<lambda>_. ''failed to decode staking tx from hex'')
              (BBN_NewBTCTxFromHex slib (StakingTxHex del))) (\<lambda>stakingMsgTx.
     bindR (mapErr (\<lambda>_. ''failed to decode slashing tx from hex'')
              (NewBTCSlashingTxFromHex slib (SlashingTxHex del))) (\<lambda>slashingTx.
     bindR (SlashingTx_ToMsgTx slib slashingTx) (\<lambda>slashingMsgTx.
     bindR (wrapErr ''invalid txs in the delegation''
              (CheckSlashingTxMatchFundingTx slib slashingMsgTx stakingMsgTx (StakingOutputIdx del)
                 (MinSlashingTxFeeSat params) (SlashingRate params) (SlashingPkScript params)
                 (BtcPk del) (UnbondingTime del) btcNet)) (\<lambda>_.
     Ok (stakingMsgTx, slashingMsgTx)))))"

definition decodeUndelegationTransactions ::
  "stakinglib \<Rightarrow> Delegation \<Rightarrow> StakingParams \<Rightarrow> NetParams \<Rightarrow> (MsgTx \<times> MsgTx) result" where
  "decodeUndelegationTransactions slib del params btcNet =
     bindR (derefR (BtcUndelegation del)) (\<lambda>undel.
     bindR (wrapErr ''failed to decode unbonding tx from hex''
              (BBN_NewBTCTxFromHex slib (UnbondingTxHex undel))) (\<lambda>unbondingMsgTx.
     bindR (wrapErr ''failed to decode unbonding slashing tx from hex''
              (BBN_NewBTCTxFromHex slib (Undel_SlashingTxHex undel))) (\<lambda>unbondingSlashingMsgTx.
     bindR (wrapErr ''invalid txs in the undelegation''
              (CheckSlashingTxMatchFundingTx slib unbondingSlashingMsgTx unbondingMsgTx 0
                 (MinSlashingTxFeeSat params) (SlashingRate params) (SlashingPkScript params)
                 (BtcPk del) (UnbondingTime del) btcNet)) (\<lambda>_.
     Ok (unbondingMsgTx, unbondingSlashingMsgTx)))))"

text \<open>
  Steps 5 to 8 of the loop body of \<^verbatim>\<open>AddCovenantSignatures\<close>: decode, verify, build the request.
  \<open>Err\<close> is the message logged before \<^verbatim>\<open>continue\<close>; reading an output that is not there is a panic.
\<close>

definition buildRequest ::
  "stakinglib \<Rightarrow> NetParams \<Rightarrow> StakingParams \<Rightarrow> Delegation \<Rightarrow> SigningRequest result" where
  "buildRequest slib btcNet params btcDel =
     bindR (mapErr (\<lambda>_. ''invalid delegation'')
              (decodeDelegationTransactions slib btcDel params btcNet)) (\<lambda>(stakingTx, slashingTx).
     bindR (mapErr (\<lambda>_. ''invalid undelegation'')
              (decodeUndelegationTransactions slib btcDel params btcNet))
       (\<lambda>(unbondingTx, slashUnbondingTx).
     bindR (indexR (TxOut stakingTx) (unat (StakingOutputIdx btcDel))) (\<lambda>stakingOut.
     bindR (indexR (TxOut unbondingTx) 0) (\<lambda>unbondingOut.
     if Value stakingOut - Value unbondingOut \<noteq> UnbondingFee params
     then Err ''invalid unbonding fee''
     else
       bindR (mapErr (\<lambda>_. ''failed to encript the finality provider keys of the btc delegation'')
                (fpEncKeysFromDel slib btcDel)) (\<lambda>fpsEncKeys.
       bindR (mapErr (\<lambda>_. ''failed to generate pk script path'')
                (pkScriptPaths slib btcDel params btcNet unbondingTx))
         (\<lambda>(slashingPath, stakingTxUnbondingPath, unbondingTxSlashingPath).
       Ok \<lparr>Req_StakingTx = stakingTx, Req_SlashingTx = slashingTx, Req_UnbondingTx = unbondingTx,
           Req_SlashUnbondingTx = slashUnbondingTx, Req_StakeExp = None,
           Req_StakingOutputIdx = StakingOutputIdx btcDel, SlashingPkScriptPath = slashingPath,
           StakingTxUnbondingPkScriptPath = stakingTxUnbondingPath,
           UnbondingTxSlashingPkScriptPath = unbondingTxSlashingPath,
           Req_FpEncKeys = fpsEncKeys\<rparr>))))))"

text \<open>Steps 2 to 4, the conditions on the delegation alone, then the rest.\<close>

definition checkDelegation ::
  "stakinglib \<Rightarrow> NetParams \<Rightarrow> StakingParams \<Rightarrow> Delegation \<Rightarrow> SigningRequest result" where
  "checkDelegation slib btcNet params btcDel =
     bindR (HasCovenantQuorum btcDel (CovenantQuorum params)) (\<lambda>quorum.
     if quorum then Err ''covenant signatures already fulfilled''
     else if ucast (UnbondingTime btcDel) \<noteq> UnbondingTimeBlocks params
     then Err ''invalid unbonding time''
     else
       bindR (GetStakingTime btcDel) (\<lambda>stakingTime.
       if stakingTime < MinStakingTime params \<or> stakingTime > MaxStakingTime params
       then Err ''invalid staking time''
       else if int64_lt (TotalSat btcDel) (MinStakingValue params)
               \<or> int64_lt (MaxStakingValue params) (TotalSat btcDel)
       then Err ''invalid staking value''
       else buildRequest slib btcNet params btcDel))"

section \<open>The checks as conditions\<close>

text \<open>The conditions on the delegation alone, as inequalities between numbers.\<close>

definition meetsParams :: "StakingParams \<Rightarrow> Delegation \<Rightarrow> Undelegation \<Rightarrow> bool" where
  "meetsParams params del undel \<longleftrightarrow>
     (length (Del_CovenantSigs del) < unat (CovenantQuorum params)
        \<or> length (CovenantUnbondingSigs undel) < unat (CovenantQuorum params))
     \<and> unat (UnbondingTime del) = unat (UnbondingTimeBlocks params)
     \<and> unat (MinStakingTime params) \<le> unat (StakingTime del)
     \<and> unat (StakingTime del) \<le> unat (MaxStakingTime params)
     \<and> sint (MinStakingValue params) \<le> sint (TotalSat del)
     \<and> sint (TotalSat del) \<le> sint (MaxStakingValue params)"

text \<open>
  The request holds the transactions of the delegation, which pass the checks of the staking
  library and pay exactly the unbonding fee, and the keys and scripts derived from them.
\<close>

definition slashingMatches ::
  "stakinglib \<Rightarrow> NetParams \<Rightarrow> StakingParams \<Rightarrow> Delegation \<Rightarrow> MsgTx \<Rightarrow> MsgTx \<Rightarrow> uint32 \<Rightarrow> bool" where
  "slashingMatches slib net params del slashing funding idx \<longleftrightarrow>
     CheckSlashingTxMatchFundingTx slib slashing funding idx (MinSlashingTxFeeSat params)
       (SlashingRate params) (SlashingPkScript params) (BtcPk del) (UnbondingTime del) net = Ok ()"

definition requestFor ::
  "stakinglib \<Rightarrow> NetParams \<Rightarrow> StakingParams \<Rightarrow> Delegation \<Rightarrow> Undelegation \<Rightarrow> SigningRequest \<Rightarrow> bool" where
  "requestFor slib net params del undel req \<longleftrightarrow>
     BBN_NewBTCTxFromHex slib (StakingTxHex del) = Ok (Req_StakingTx req)
     \<and> bindR (NewBTCSlashingTxFromHex slib (SlashingTxHex del)) (SlashingTx_ToMsgTx slib)
         = Ok (Req_SlashingTx req)
     \<and> BBN_NewBTCTxFromHex slib (UnbondingTxHex undel) = Ok (Req_UnbondingTx req)
     \<and> BBN_NewBTCTxFromHex slib (Undel_SlashingTxHex undel) = Ok (Req_SlashUnbondingTx req)
     \<and> slashingMatches slib net params del (Req_SlashingTx req) (Req_StakingTx req) (StakingOutputIdx del)
     \<and> slashingMatches slib net params del (Req_SlashUnbondingTx req) (Req_UnbondingTx req) 0
     \<and> unat (StakingOutputIdx del) < length (TxOut (Req_StakingTx req))
     \<and> TxOut (Req_UnbondingTx req) \<noteq> []
     \<and> Value (TxOut (Req_StakingTx req) ! unat (StakingOutputIdx del))
         - Value (TxOut (Req_UnbondingTx req) ! 0) = UnbondingFee params
     \<and> list_all2 (\<lambda>pk k. NewEncryptionKeyFromBTCPK slib pk = Ok k) (FpBtcPks del) (Req_FpEncKeys req)
     \<and> pkScriptPaths slib del params net (Req_UnbondingTx req)
         = Ok (SlashingPkScriptPath req, StakingTxUnbondingPkScriptPath req,
               UnbondingTxSlashingPkScriptPath req)
     \<and> Req_StakingOutputIdx req = StakingOutputIdx del
     \<and> Req_StakeExp req = None"

section \<open>Lemmas\<close>

lemma ucast_uint16_eq_iff:
  "(ucast (x :: uint16) :: uint32) = y \<longleftrightarrow> unat x = unat y"
proof -
  have "unat (ucast x :: uint32) = unat x mod 2 ^ 32"
    by (simp add: unsigned_ucast_eq take_bit_eq_mod)
  also have "\<dots> = unat x" using unat_uint16_less [of x] by simp
  finally show ?thesis by (metis word_unat_eq_iff)
qed

lemma fpEncKeysFromDel_Ok_iff:
  "fpEncKeysFromDel slib del = Ok ks \<longleftrightarrow>
     list_all2 (\<lambda>pk k. NewEncryptionKeyFromBTCPK slib pk = Ok k) (FpBtcPks del) ks"
  by (simp add: fpEncKeysFromDel_def mapR_Ok_iff act_simps)

lemma decodeDelegationTransactions_Ok_iff:
  "decodeDelegationTransactions slib del params net = Ok (stk, sl) \<longleftrightarrow>
     BBN_NewBTCTxFromHex slib (StakingTxHex del) = Ok stk
     \<and> bindR (NewBTCSlashingTxFromHex slib (SlashingTxHex del)) (SlashingTx_ToMsgTx slib) = Ok sl
     \<and> slashingMatches slib net params del sl stk (StakingOutputIdx del)"
  by (auto simp: decodeDelegationTransactions_def slashingMatches_def act_simps)

lemma decodeUndelegationTransactions_Ok_iff:
  assumes "BtcUndelegation del = Some undel"
  shows "decodeUndelegationTransactions slib del params net = Ok (ub, sl) \<longleftrightarrow>
     BBN_NewBTCTxFromHex slib (UnbondingTxHex undel) = Ok ub
     \<and> BBN_NewBTCTxFromHex slib (Undel_SlashingTxHex undel) = Ok sl
     \<and> slashingMatches slib net params del sl ub 0"
  using assms by (auto simp: decodeUndelegationTransactions_def slashingMatches_def act_simps)

lemma pkScriptPaths_staking_time:
  "pkScriptPaths slib del params net ub = Ok p \<Longrightarrow> unat (StakingTime del) \<le> 65535"
  by (auto simp: pkScriptPaths_def pkScriptPathSlashAndUnbond_def GetStakingTime_cases act_simps
      split: if_splits)

lemma stakingTimeCheck:
  assumes "GetStakingTime del = Ok t"
  shows "t < MinStakingTime params \<or> t > MaxStakingTime params \<longleftrightarrow>
    \<not> (unat (MinStakingTime params) \<le> unat (StakingTime del)
       \<and> unat (StakingTime del) \<le> unat (MaxStakingTime params))"
  using GetStakingTime_Ok_unat [OF assms] by (auto simp: word_less_nat_alt)

lemma meetsParams_GetStakingTime:
  assumes "meetsParams params del undel"
  shows "GetStakingTime del = Ok (ucast (StakingTime del))"
proof -
  have "unat (MaxStakingTime params) \<le> 65535" using unat_uint16_less [of "MaxStakingTime params"] by simp
  with assms show ?thesis by (simp add: meetsParams_def GetStakingTime_cases)
qed

lemma buildRequest_Ok_iff:
  assumes "BtcUndelegation del = Some undel"
  shows "buildRequest slib net params del = Ok req \<longleftrightarrow> requestFor slib net params del undel req"
proof
  assume "buildRequest slib net params del = Ok req"
  then show "requestFor slib net params del undel req"
    by (auto simp: buildRequest_def requestFor_def act_simps fpEncKeysFromDel_Ok_iff
        decodeDelegationTransactions_Ok_iff decodeUndelegationTransactions_Ok_iff [OF assms]
        split: if_splits)
next
  assume r: "requestFor slib net params del undel req"
  then have 1: "decodeDelegationTransactions slib del params net
      = Ok (Req_StakingTx req, Req_SlashingTx req)"
    and 2: "decodeUndelegationTransactions slib del params net
      = Ok (Req_UnbondingTx req, Req_SlashUnbondingTx req)"
    and 3: "fpEncKeysFromDel slib del = Ok (Req_FpEncKeys req)"
    by (auto simp: requestFor_def fpEncKeysFromDel_Ok_iff
        decodeDelegationTransactions_Ok_iff decodeUndelegationTransactions_Ok_iff [OF assms])
  with r show "buildRequest slib net params del = Ok req"
    by (simp add: buildRequest_def requestFor_def indexR_def)
qed

lemma checkDelegation_unfold:
  assumes "BtcUndelegation del = Some undel"
    and "unat (MaxStakingTime params) < unat (StakingTime del) \<longrightarrow> unat (StakingTime del) \<le> 65535"
  shows "checkDelegation slib net params del =
    (if unat (CovenantQuorum params) \<le> length (Del_CovenantSigs del)
         \<and> unat (CovenantQuorum params) \<le> length (CovenantUnbondingSigs undel)
     then Err ''covenant signatures already fulfilled''
     else if unat (UnbondingTime del) \<noteq> unat (UnbondingTimeBlocks params)
     then Err ''invalid unbonding time''
     else if unat (StakingTime del) < unat (MinStakingTime params)
         \<or> unat (MaxStakingTime params) < unat (StakingTime del) then Err ''invalid staking time''
     else if sint (TotalSat del) < sint (MinStakingValue params)
         \<or> sint (MaxStakingValue params) < sint (TotalSat del) then Err ''invalid staking value''
     else buildRequest slib net params del)"
proof -
  have "unat (StakingTime del) \<le> 65535"
    using assms(2) unat_uint16_less [of "MaxStakingTime params"] by linarith
  then have "GetStakingTime del = Ok (ucast (StakingTime del))"
    and "unat (ucast (StakingTime del) :: uint16) = unat (StakingTime del)"
    by (simp_all add: GetStakingTime_cases unat_ucast_uint16)
  with assms(1) show ?thesis
    by (simp add: checkDelegation_def HasCovenantQuorum_Some ucast_uint16_eq_iff int64_lt_def
        word_less_nat_alt)
qed

lemma checkDelegation_Ok_iff:
  assumes "BtcUndelegation del = Some undel"
  shows "checkDelegation slib net params del = Ok req \<longleftrightarrow>
    meetsParams params del undel \<and> requestFor slib net params del undel req"
proof (cases "unat (StakingTime del) \<le> 65535")
  case True
  then show ?thesis
    using checkDelegation_unfold [OF assms, of params slib net]
    by (simp add: meetsParams_def buildRequest_Ok_iff [OF assms] not_less not_le)
next
  case False
  then have "checkDelegation slib net params del \<noteq> Ok req"
    using assms by (simp add: checkDelegation_def HasCovenantQuorum_Some GetStakingTime_cases)
  moreover have "\<not> meetsParams params del undel"
    using False unat_uint16_less [of "MaxStakingTime params"] by (simp add: meetsParams_def)
  ultimately show ?thesis by simp
qed

text \<open>
  A delegation with an out-of-range staking time makes the check panic, unless an earlier check
  stops it.
\<close>

lemma checkDelegation_long_staking_time:
  assumes "BtcUndelegation del = Some undel" and "unat (StakingTime del) > 65535"
    and "length (Del_CovenantSigs del) < unat (CovenantQuorum params)"
    and "unat (UnbondingTime del) = unat (UnbondingTimeBlocks params)"
  shows "checkDelegation slib net params del = Panic ''invalid delegation in database''"
  using assms
  by (simp add: checkDelegation_def HasCovenantQuorum_Some GetStakingTime_cases ucast_uint16_eq_iff)

text \<open>With both values in the range of amounts, the fee check is an equation between integers.\<close>

lemma fee_equation:
  assumes "(v :: int64) - u = f" "0 \<le> sint v" "0 \<le> sint u"
  shows "sint v = sint u + sint f"
proof -
  have r: "sint v < 2 ^ 63" "sint u < 2 ^ 63"
    using sint_less [of v] sint_less [of u] by simp_all
  have "sint f = signed_take_bit 63 (sint v - sint u)"
    using assms(1) by (simp flip: assms(1) add: signed_take_bit_int_eq_self_iff sint_word_ariths)
  with assms r show ?thesis by (simp add: signed_take_bit_int_eq_self)
qed

lemma stakeExpValidateBasic_Ok_iff:
  "stakeExpValidateBasic blib slib (Some del) = Ok out \<longleftrightarrow>
     (\<exists>stkExp tx h. StakeExpansion del = Some stkExp
        \<and> BBN_NewBTCTxFromHex slib (StakingTxHex del) = Ok tx \<and> length (TxIn tx) = 2
        \<and> NewHashFromStr blib (PreviousStakingTxHashHex stkExp) = Ok h
        \<and> OutPoint_Hash (PreviousOutPoint (TxIn tx ! 0)) = h
        \<and> OtherFundingTxOut blib stkExp = Ok out \<and> 0 < sint (Value out))"
  (is "?l \<longleftrightarrow> ?r")
proof
  assume ?l
  then show ?r
    by (auto simp: stakeExpValidateBasic_def act_simps split: option.splits if_splits)
next
  assume ?r
  then obtain stkExp tx h where "StakeExpansion del = Some stkExp"
    "BBN_NewBTCTxFromHex slib (StakingTxHex del) = Ok tx" "length (TxIn tx) = 2"
    "NewHashFromStr blib (PreviousStakingTxHashHex stkExp) = Ok h"
    "OutPoint_Hash (PreviousOutPoint (TxIn tx ! 0)) = h"
    "OtherFundingTxOut blib stkExp = Ok out" "0 < sint (Value out)"
    by blast
  then show ?l by (simp add: stakeExpValidateBasic_def indexR_def)
qed

section \<open>Absence of panics\<close>

text \<open>
  The staking library returns its failures as errors, and its check of a slashing transaction
  refuses an output index that the funding transaction does not have.
\<close>

definition stakinglib_total :: "stakinglib \<Rightarrow> bool" where
  "stakinglib_total slib \<longleftrightarrow>
     (\<forall>h p. BBN_NewBTCTxFromHex slib h \<noteq> Panic p) \<and> (\<forall>h p. NewBTCSlashingTxFromHex slib h \<noteq> Panic p)
     \<and> (\<forall>t p. SlashingTx_ToMsgTx slib t \<noteq> Panic p) \<and> (\<forall>k p. NewEncryptionKeyFromBTCPK slib k \<noteq> Panic p)
     \<and> (\<forall>k ks cs q t v n p. BuildStakingInfo slib k ks cs q t v n \<noteq> Panic p)
     \<and> (\<forall>k ks cs q t v n p. BuildUnbondingInfo slib k ks cs q t v n \<noteq> Panic p)
     \<and> (\<forall>i p. Staking_SlashingPathSpendInfo slib i \<noteq> Panic p)
     \<and> (\<forall>i p. Staking_UnbondingPathSpendInfo slib i \<noteq> Panic p)
     \<and> (\<forall>i p. Unbonding_SlashingPathSpendInfo slib i \<noteq> Panic p)
     \<and> (\<forall>sl f i fee r sc k t n p. CheckSlashingTxMatchFundingTx slib sl f i fee r sc k t n \<noteq> Panic p)"

definition slashing_check_bounds :: "stakinglib \<Rightarrow> bool" where
  "slashing_check_bounds slib \<longleftrightarrow>
     (\<forall>sl f i fee r sc k t n. CheckSlashingTxMatchFundingTx slib sl f i fee r sc k t n = Ok ()
        \<longrightarrow> unat i < length (TxOut f))"

lemma slashingMatches_bounds:
  "slashing_check_bounds slib \<Longrightarrow> slashingMatches slib net params del sl f i \<Longrightarrow> unat i < length (TxOut f)"
  unfolding slashing_check_bounds_def slashingMatches_def by blast

lemma pkScriptPaths_no_panic:
  assumes "stakinglib_total slib" "unat (StakingTime del) \<le> 65535" "TxOut ub \<noteq> []"
  shows "pkScriptPaths slib del params net ub \<noteq> Panic p"
  using assms
  by (auto simp: pkScriptPaths_def pkScriptPathSlashAndUnbond_def pkScriptPathUnbondingSlash_def
      stakinglib_total_def GetStakingTime_cases act_simps)

lemma decode_no_panic:
  assumes "stakinglib_total slib" "BtcUndelegation del = Some undel"
  shows "decodeDelegationTransactions slib del params net \<noteq> Panic p"
    and "decodeUndelegationTransactions slib del params net \<noteq> Panic p"
    and "fpEncKeysFromDel slib del \<noteq> Panic p"
  using assms
  by (auto simp: decodeDelegationTransactions_def decodeUndelegationTransactions_def
      fpEncKeysFromDel_def stakinglib_total_def act_simps dest!: mapR_Panic_D)

lemma buildRequest_no_panic:
  assumes t: "stakinglib_total slib" and b: "slashing_check_bounds slib"
    and u: "BtcUndelegation del = Some undel" and "unat (StakingTime del) \<le> 65535"
  shows "buildRequest slib net params del \<noteq> Panic p"
proof
  assume "buildRequest slib net params del = Panic p"
  with assms show False
    by (auto simp: buildRequest_def act_simps decode_no_panic [OF t u] pkScriptPaths_no_panic [OF t]
        decodeDelegationTransactions_Ok_iff decodeUndelegationTransactions_Ok_iff [OF u]
        dest!: slashingMatches_bounds [OF b] split: if_splits)
qed

lemma checkDelegation_no_panic:
  assumes "stakinglib_total slib" "slashing_check_bounds slib"
    and "BtcUndelegation del = Some undel" "unat (StakingTime del) \<le> 65535"
  shows "checkDelegation slib net params del \<noteq> Panic p"
  using buildRequest_no_panic [OF assms, of net params p] assms(3,4)
  by (simp add: checkDelegation_unfold [OF assms(3)])

section \<open>Properties\<close>

definition sample_req :: SigningRequest where
  "sample_req = \<lparr>Req_StakingTx = tx_of 0, Req_SlashingTx = tx_of 1, Req_UnbondingTx = tx_of 5,
     Req_SlashUnbondingTx = tx_of 6, Req_StakeExp = None, Req_StakingOutputIdx = 0,
     SlashingPkScriptPath = [1], StakingTxUnbondingPkScriptPath = [2],
     UnbondingTxSlashingPkScriptPath = [3], Req_FpEncKeys = [EncryptionKey [2]]\<rparr>"

lemmas sample_defs = sample_slib_def sample_params_def sample_del_def sample_undel_def sample_req_def
  deserialize_sample_def tx_of_def out_of_def key_a_def key_b_def hex_val_def

lemma checkDelegation_sample:
  "checkDelegation sample_slib net sample_params sample_del = Ok sample_req"
proof -
  have "buildRequest sample_slib net sample_params sample_del = Ok sample_req"
    by (simp add: buildRequest_def decodeDelegationTransactions_def decodeUndelegationTransactions_def
        fpEncKeysFromDel_def pkScriptPaths_def pkScriptPathSlashAndUnbond_def
        pkScriptPathUnbondingSlash_def GetStakingTime_cases indexR_def sample_defs)
  then show ?thesis
    by (subst checkDelegation_unfold [where undel = sample_undel]) (simp_all add: sample_defs)
qed

text \<open>
  C3. The checks between the parameter lookup and the signature pass exactly when the delegation
  meets the conditions of its parameters (no quorum yet, the exact unbonding time, staking time and
  value within the bounds, all as numbers) and the request holds the four decoded transactions, both
  slashing transactions pass the staking library's check, the difference between the staking output
  and the unbonding output is the unbonding fee, and keys and scripts are those of the delegation.
\<close>

theorem checkDelegation_correct:
  assumes "BtcUndelegation del = Some undel"
  shows "checkDelegation slib net params del = Ok req \<longleftrightarrow>
    meetsParams params del undel \<and> requestFor slib net params del undel req"
  using checkDelegation_Ok_iff [OF assms] .

theorem checkDelegation_correct_witness:
  "meetsParams sample_params sample_del sample_undel
     \<and> requestFor sample_slib (NetParams ''simnet'') sample_params sample_del sample_undel sample_req"
proof -
  have "BtcUndelegation sample_del = Some sample_undel" by (simp add: sample_del_def)
  from checkDelegation_correct [OF this, of sample_slib "NetParams ''simnet''" sample_params sample_req]
  show ?thesis by (simp add: checkDelegation_sample)
qed

text \<open>
  C17. In a delegation that passes the checks the amounts add up as integers: with output values that
  are not negative, the staking output is the unbonding output plus the unbonding fee, with no wrap
  around of the 64-bit subtraction.
\<close>

theorem checkDelegation_fee:
  assumes "BtcUndelegation del = Some undel" and "checkDelegation slib net params del = Ok req"
    and "\<forall>o1 \<in> set (TxOut (Req_StakingTx req)) \<union> set (TxOut (Req_UnbondingTx req)). 0 \<le> sint (Value o1)"
  shows "sint (Value (TxOut (Req_StakingTx req) ! unat (StakingOutputIdx del)))
    = sint (Value (TxOut (Req_UnbondingTx req) ! 0)) + sint (UnbondingFee params)"
proof -
  from assms(1,2) have "requestFor slib net params del undel req"
    by (simp add: checkDelegation_Ok_iff)
  then show ?thesis
    using assms(3) by (intro fee_equation) (auto simp: requestFor_def)
qed

theorem checkDelegation_fee_witness:
  "sint (Value (TxOut (tx_of 0) ! 0)) = sint (Value (TxOut (tx_of 5) ! 0)) + 5"
proof -
  have "BtcUndelegation sample_del = Some sample_undel" by (simp add: sample_del_def)
  from checkDelegation_fee [OF this checkDelegation_sample]
  show ?thesis by (simp add: sample_defs)
qed

text \<open>
  The checks never panic on a delegation with an undelegation and a staking time of at most 16
  bits, provided the staking library returns its failures as errors and refuses an output index that
  is out of range; above 16 bits they do panic as soon as the quorum and the unbonding time let the
  delegation through.
\<close>

lemma checkDelegation_panics:
  assumes "stakinglib_total slib" "slashing_check_bounds slib" "BtcUndelegation del = Some undel"
    and "length (Del_CovenantSigs del) < unat (CovenantQuorum params)"
    and "unat (UnbondingTime del) = unat (UnbondingTimeBlocks params)"
  shows "is_panic (checkDelegation slib net params del) \<longleftrightarrow> unat (StakingTime del) > 65535"
proof (cases "unat (StakingTime del) > 65535")
  case True
  with assms show ?thesis by (simp add: checkDelegation_long_staking_time)
next
  case False
  with checkDelegation_no_panic [OF assms(1-3)] show ?thesis
    by (cases "checkDelegation slib net params del") auto
qed

lemma checkDelegation_panics_example:
  "is_panic (checkDelegation sample_slib (NetParams ''simnet'') sample_params
     (sample_del\<lparr>StakingTime := 70000\<rparr>))"
proof -
  have "stakinglib_total sample_slib"
    by (auto simp: stakinglib_total_def sample_slib_def deserialize_sample_def act_simps
        split: BTCSlashingTx.splits list.splits PublicKey.splits)
  moreover have "slashing_check_bounds sample_slib"
    by (auto simp: slashing_check_bounds_def sample_slib_def split: if_splits)
  ultimately show ?thesis
    by (subst checkDelegation_panics [where undel = sample_undel]) (simp_all add: sample_defs)
qed

end
