(* ===== verification/ParamsCache.thy ===== *)
theory ParamsCache
  imports Samples
begin

text \<open>
  The cache of staking parameters (\<^verbatim>\<open>covenant/cache_params.go\<close>). Its state is the map from
  versions to parameters; the rest of the emulator extends the same record, and everything
  outside the process is the field \<open>world\<close>. The query of the chain and \<^verbatim>\<open>retry.Do\<close> (package
  avast/retry-go) are parameters.

  The locale \<open>params_getter\<close> is the contract of the interface \<^verbatim>\<open>ParamsGetter\<close>: a known
  version is answered from the cache and without any effect, an answer becomes known, and
  nothing known is ever lost. It is interpreted on the cache. The last section states the
  documented behaviour of \<^verbatim>\<open>retry.Do\<close> and what it gives for the number of queries.
\<close>

section \<open>State and operations\<close>

record 'w pcache =
  paramsByVersion :: "uint32 \<rightharpoonup> StakingParams"
  world :: 'w

definition RtyAttNum :: nat where
  "RtyAttNum = 5"

text \<open>Running an action of the outside world inside the process state.\<close>

definition onWorld :: "('w, 'a) act \<Rightarrow> (('w, 'z) pcache_scheme, 'a) act" where
  "onWorld m = (\<lambda>s. case m (world s) of (r, w) \<Rightarrow> (r, s\<lparr>world := w\<rparr>))"

definition NewCacheVersionedParams :: "uint32 \<rightharpoonup> StakingParams" where
  "NewCacheVersionedParams = Map.empty"

definition getParamsByVersion ::
  "(nat \<Rightarrow> ('w, StakingParams) act \<Rightarrow> ('w, StakingParams) act) \<Rightarrow>
   (uint32 \<Rightarrow> ('w, StakingParams) act) \<Rightarrow> uint32 \<Rightarrow> ('w, StakingParams) act" where
  "getParamsByVersion retryDo query version = retryDo RtyAttNum (query version)"

definition Get ::
  "(nat \<Rightarrow> ('w, StakingParams) act \<Rightarrow> ('w, StakingParams) act) \<Rightarrow>
   (uint32 \<Rightarrow> ('w, StakingParams) act) \<Rightarrow> uint32 \<Rightarrow> (('w, 'z) pcache_scheme, StakingParams) act" where
  "Get retryDo query version = (\<lambda>s.
     case paramsByVersion s version of
       Some params \<Rightarrow> (Ok params, s)
     | None \<Rightarrow>
         bindS (onWorld (getParamsByVersion retryDo query version)) (\<lambda>params.
         bindS (modifyS (\<lambda>s. s\<lparr>paramsByVersion := (paramsByVersion s)(version \<mapsto> params)\<rparr>)) (\<lambda>_.
         returnS params)) s)"

section \<open>The contract of a parameter getter\<close>

locale params_getter =
  fixes get :: "uint32 \<Rightarrow> ('s, StakingParams) act"
    and known :: "'s \<Rightarrow> uint32 \<rightharpoonup> StakingParams"
  assumes get_hit: "known s v = Some p \<Longrightarrow> get v s = (Ok p, s)"
    and get_Ok_known: "get v s = (Ok p, s') \<Longrightarrow> known s' v = Some p"
    and get_extends: "get v s = (r, s') \<Longrightarrow> known s \<subseteq>\<^sub>m known s'"
begin

lemma get_twice: "get v s = (Ok p, s') \<Longrightarrow> get v s' = (Ok p, s')"
  by (blast intro: get_hit get_Ok_known)

lemma get_keeps_known: "keeps (\<lambda>s. known s v = Some p) (get u)"
  by (rule keepsI) (metis get_extends map_le_def domI)

lemma get_stable:
  assumes "get v s = (Ok p, s1)" and "known s1 \<subseteq>\<^sub>m known s2"
  shows "get v s2 = (Ok p, s2)"
proof -
  from assms(1) have "known s1 v = Some p" by (rule get_Ok_known)
  with assms(2) have "known s2 v = Some p" by (metis domI map_le_def)
  then show ?thesis by (rule get_hit)
qed

end

lemma onWorld_apply:
  "m (world s) = (r, w) \<Longrightarrow> onWorld m s = (r, s\<lparr>world := w\<rparr>)"
  by (simp add: onWorld_def)

lemma onWorld_paramsByVersion:
  "onWorld m s = (r, s') \<Longrightarrow> paramsByVersion s' = paramsByVersion s"
  by (auto simp: onWorld_def split: prod.splits)

lemma Get_hit: "paramsByVersion s v = Some p \<Longrightarrow> Get rd q v s = (Ok p, s)"
  by (simp add: Get_def)

lemma Get_miss:
  assumes "paramsByVersion s v = None"
  shows "Get rd q v s = (case rd RtyAttNum (q v) (world s) of
      (Ok p, w) \<Rightarrow> (Ok p, s\<lparr>world := w, paramsByVersion := (paramsByVersion s)(v \<mapsto> p)\<rparr>)
    | (Err e, w) \<Rightarrow> (Err e, s\<lparr>world := w\<rparr>)
    | (Panic e, w) \<Rightarrow> (Panic e, s\<lparr>world := w\<rparr>))"
proof (cases "rd RtyAttNum (q v) (world s)")
  case (Pair r w)
  then have "onWorld (getParamsByVersion rd q v) s = (r, s\<lparr>world := w\<rparr>)"
    by (simp add: onWorld_apply getParamsByVersion_def)
  with assms Pair show ?thesis
    by (cases r) (simp_all add: Get_def)
qed

lemma Get_Ok_known: "Get rd q v s = (Ok p, s') \<Longrightarrow> paramsByVersion s' v = Some p"
  by (cases "paramsByVersion s v")
     (auto simp: Get_hit Get_miss split: prod.splits result.splits)

lemma Get_extends: "Get rd q v s = (r, s') \<Longrightarrow> paramsByVersion s \<subseteq>\<^sub>m paramsByVersion s'"
  by (cases "paramsByVersion s v")
     (auto simp: Get_hit Get_miss map_le_def dom_def split: prod.splits result.splits)

interpretation cvp: params_getter "Get rd q" paramsByVersion
  for rd :: "nat \<Rightarrow> ('w, StakingParams) act \<Rightarrow> ('w, StakingParams) act" and q
  by unfold_locales (auto intro: Get_hit Get_Ok_known Get_extends)

section \<open>Retrying\<close>

text \<open>
  The documented behaviour of \<^verbatim>\<open>retry.Do\<close> with \<open>n\<close> attempts and \<^verbatim>\<open>LastErrorOnly\<close>: the
  first success is the result; a failed attempt is repeated while attempts are left, and the
  error of the last attempt is returned.
\<close>

definition retry_law :: "(nat \<Rightarrow> ('w, 'a) act \<Rightarrow> ('w, 'a) act) \<Rightarrow> bool" where
  "retry_law rd \<longleftrightarrow> (\<forall>n f w. 0 < n \<longrightarrow> rd n f w = (case f w of
      (Err e, w') \<Rightarrow> if n = 1 then (Err e, w') else rd (n - 1) f w'
    | (r, w') \<Rightarrow> (r, w')))"

text \<open>One query after the other, in order: the states an unbroken run of failures goes through.\<close>

fun fails_through :: "('w, 'a) act \<Rightarrow> 'w list \<Rightarrow> bool" where
  "fails_through f (w # w' # ws) \<longleftrightarrow> (\<exists>e. f w = (Err e, w')) \<and> fails_through f (w' # ws)"
| "fails_through f ws \<longleftrightarrow> True"

lemma retry_lawD:
  "retry_law rd \<Longrightarrow> rd (Suc n) f w = (case f w of
      (Err e, w') \<Rightarrow> if n = 0 then (Err e, w') else rd n f w'
    | (r, w') \<Rightarrow> (r, w'))"
  unfolding retry_law_def
  by (drule spec [of _ "Suc n"]) (simp split: prod.split result.split)

lemma retry_first_success:
  "retry_law rd \<Longrightarrow> 0 < n \<Longrightarrow> f w = (Ok a, w') \<Longrightarrow> rd n f w = (Ok a, w')"
  by (cases n) (simp_all add: retry_lawD)

lemma retry_Err_fails:
  assumes "retry_law rd" "0 < n" "rd n f w = (Err e, w')"
  shows "\<exists>ws. length ws = n + 1 \<and> hd ws = w \<and> last ws = w' \<and> fails_through f ws"
  using assms(2,3)
proof (induction n arbitrary: w)
  case 0
  then show ?case by simp
next
  case (Suc n)
  note step = retry_lawD [OF assms(1), of n f w]
  with Suc.prems obtain e1 w1 where f: "f w = (Err e1, w1)"
    by (auto split: prod.splits result.splits)
  show ?case
  proof (cases n)
    case 0
    with step f Suc.prems have "w' = w1" by simp
    with f 0 show ?thesis by (intro exI [of _ "[w, w1]"]) simp
  next
    case (Suc m)
    with step f Suc.prems have "rd n f w1 = (Err e, w')" by simp
    with Suc.IH Suc obtain ws where ws: "length ws = n + 1" "hd ws = w1" "last ws = w'" "fails_through f ws"
      by auto
    then obtain ws' where "ws = w1 # ws'" by (cases ws) auto
    with ws f show ?thesis by (intro exI [of _ "w # ws"]) auto
  qed
qed

section \<open>Properties\<close>

text \<open>A chain that counts its queries and starts to answer at the query of a given number.\<close>

definition sample_query :: "nat \<Rightarrow> uint32 \<Rightarrow> (nat, StakingParams) act" where
  "sample_query n v w = (if w < n then Err ''timeout'' else Ok sample_params, Suc w)"

text \<open>An instance of the law of \<^verbatim>\<open>retry.Do\<close>.\<close>

fun sample_retry :: "nat \<Rightarrow> ('w, 'a) act \<Rightarrow> ('w, 'a) act" where
  "sample_retry 0 f w = f w"
| "sample_retry (Suc n) f w = (case f w of
     (Err e, w') \<Rightarrow> if n = 0 then (Err e, w') else sample_retry n f w'
   | (Ok a, w') \<Rightarrow> (Ok a, w')
   | (Panic p, w') \<Rightarrow> (Panic p, w'))"

lemma sample_retry_law: "retry_law (sample_retry :: nat \<Rightarrow> ('w, 'a) act \<Rightarrow> ('w, 'a) act)"
proof -
  have "sample_retry n f w = (case f w of
      (Err e, w') \<Rightarrow> if n = 1 then (Err e, w') else sample_retry (n - 1) f w'
    | (r, w') \<Rightarrow> (r, w'))" if "0 < n" for n and f :: "('w, 'a) act" and w
    using that by (cases n) (auto split: prod.splits result.splits)
  then show ?thesis by (simp add: retry_law_def)
qed

text \<open>
  C23. One version, one set of parameters: after a version has been answered, every later request for
  it is answered with the same parameters, from the cache and without any effect, whatever other
  versions are requested in between and whatever those requests return.
\<close>

theorem params_stable:
  assumes "Get rd q v s = (Ok p, s1)" and "mapS (Get rd q) vs s1 = (r, s2)"
  shows "Get rd q v s2 = (Ok p, s2)"
proof -
  have "keeps (\<lambda>s. paramsByVersion s v = Some p) (mapS (Get rd q) vs)"
    by (intro keeps_mapS cvp.get_keeps_known)
  moreover have "paramsByVersion s1 v = Some p" using assms(1) by (rule cvp.get_Ok_known)
  ultimately have "paramsByVersion s2 v = Some p" using assms(2) by (auto simp: keeps_def)
  then show ?thesis by (rule cvp.get_hit)
qed

theorem params_stable_witness:
  "\<exists>s2. mapS (Get sample_retry (sample_query 3)) [8, 7] (\<lparr>paramsByVersion = [7 \<mapsto> sample_params], world = 3\<rparr>)
      = (Ok [sample_params, sample_params], s2)
    \<and> Get sample_retry (sample_query 3) 7 s2 = (Ok sample_params, s2)"
proof -
  let ?s = "\<lparr>paramsByVersion = [7 \<mapsto> sample_params], world = 3\<rparr> :: nat pcache"
  let ?s2 = "\<lparr>paramsByVersion = [7 \<mapsto> sample_params, 8 \<mapsto> sample_params], world = 4\<rparr> :: nat pcache"
  have "Get sample_retry (sample_query 3) 8 ?s = (Ok sample_params, ?s2)"
    by (subst Get_miss) (simp_all add: RtyAttNum_def sample_query_def numeral_eq_Suc)
  then have later: "mapS (Get sample_retry (sample_query 3)) [8, 7] ?s = (Ok [sample_params, sample_params], ?s2)"
    by (simp add: Get_hit)
  have "Get sample_retry (sample_query 3) 7 ?s = (Ok sample_params, ?s)" by (simp add: Get_hit)
  from params_stable [OF this later] later show ?thesis by blast
qed

text \<open>
  A request fails only after five failed queries in a row: the version was unknown, the chain
  was asked exactly RtyAttNum times, each query failed, and the cache is as it was, so the next
  request starts afresh.
\<close>

lemma params_failure:
  assumes "retry_law rd" and "Get rd q v s = (Err e, s')"
  shows "paramsByVersion s v = None \<and> paramsByVersion s' = paramsByVersion s
    \<and> (\<exists>ws. length ws = 6 \<and> hd ws = world s \<and> last ws = world s' \<and> fails_through (q v) ws)"
proof -
  have unknown: "paramsByVersion s v = None"
    using assms(2) by (cases "paramsByVersion s v") (auto simp: Get_hit)
  with assms(2) obtain w where w: "rd 5 (q v) (world s) = (Err e, w)" "s' = s\<lparr>world := w\<rparr>"
    by (auto simp: Get_miss RtyAttNum_def split: prod.splits result.splits)
  with retry_Err_fails [OF assms(1) _ w(1)] unknown show ?thesis by simp
qed

lemma params_failure_example:
  "\<exists>e s'. Get sample_retry (sample_query 9) 7 \<lparr>paramsByVersion = Map.empty, world = 0\<rparr> = (Err e, s')
    \<and> paramsByVersion s' = Map.empty"
proof -
  let ?s = "\<lparr>paramsByVersion = Map.empty, world = 0\<rparr> :: nat pcache"
  have "Get sample_retry (sample_query 9) 7 ?s = (Err ''timeout'', ?s\<lparr>world := 5\<rparr>)"
    by (subst Get_miss) (simp_all add: RtyAttNum_def sample_query_def numeral_eq_Suc)
  from params_failure [OF sample_retry_law this] this show ?thesis by auto
qed

end
