(* ===== verification/Acceptance.thy ===== *)
theory Acceptance
  imports ParamsCache Samples
begin

text \<open>
  Which delegations the covenant signs (\<^verbatim>\<open>covenant/covenant.go\<close>, lines 578 to 692): those it has
  not signed yet, whose staking parameters name its key in the committee, and, for a stake
  expansion, whose previous delegation is the announced transaction and has its key in the
  committee too.

  The parameter getter is the interface of \<open>ParamsCache\<close>; its client lemmas are proved in the
  locale and used on the cache through the interpretation. They say that a positive answer has
  all the reasons above, and that with all of them the answer is positive.
\<close>

section \<open>Operations\<close>

type_synonym 's paramsGetter = "uint32 \<Rightarrow> ('s, StakingParams) act"

definition keyInCommittee :: "btclib \<Rightarrow> bytes \<Rightarrow> StakingParams \<Rightarrow> bool" where
  "keyInCommittee blib covenantSerializedPk stkParams \<longleftrightarrow>
     list_ex (\<lambda>pk. SerializePubKey blib pk = covenantSerializedPk) (CovenantPks stkParams)"

definition IsKeyInCommittee ::
  "'s paramsGetter \<Rightarrow> btclib \<Rightarrow> bytes \<Rightarrow> Delegation \<Rightarrow> ('s, bool) act" where
  "IsKeyInCommittee paramCacheGet blib covenantSerializedPk del =
     bindS (mapErrS (\<lambda>e. ''unable to get the param version: '' @ show_nat (unat (ParamsVersion del))
                          @ '', reason: '' @ e) (paramCacheGet (ParamsVersion del))) (\<lambda>stkParams.
     returnS (keyInCommittee blib covenantSerializedPk stkParams))"

definition AlreadySigned :: "btclib \<Rightarrow> bytes \<Rightarrow> Delegation \<Rightarrow> bool" where
  "AlreadySigned blib covenantSerializedPk del \<longleftrightarrow>
     list_ex (\<lambda>covSig. SerializePubKey blib (Adaptor_Pk covSig) = covenantSerializedPk)
       (Del_CovenantSigs del)"

definition ValidateStakeExpansion ::
  "'s paramsGetter \<Rightarrow> btclib \<Rightarrow> stakinglib \<Rightarrow> bytes \<Rightarrow> Delegation \<Rightarrow> Delegation option \<Rightarrow> ('s, bool) act" where
  "ValidateStakeExpansion paramCacheGet blib slib covenantSerializedPk del prevDel =
     (case prevDel of
       None \<Rightarrow>
         bindS (liftR (derefR (StakeExpansion del))) (\<lambda>stkExp.
         failS (''previous delegation is nil for stake expansion delegation: ''
                  @ PreviousStakingTxHashHex stkExp))
     | Some prev \<Rightarrow>
         bindS (liftR (wrapErr ''failed to decode previous delegation staking tx''
                         (BBN_NewBTCTxFromHex slib (StakingTxHex prev)))) (\<lambda>prevStakingTx.
         let prevStakingTxHash = Hash_String blib (TxHash blib prevStakingTx) in
         bindS (liftR (derefR (StakeExpansion del))) (\<lambda>stkExp.
         if prevStakingTxHash \<noteq> PreviousStakingTxHashHex stkExp
         then failS (''previous delegation staking tx hash mismatch: expected ''
                      @ PreviousStakingTxHashHex stkExp @ '', got '' @ prevStakingTxHash)
         else
           bindS (mapErrS (\<lambda>e. ''unable to verify if covenant key is in committee: '' @ e)
                    (IsKeyInCommittee paramCacheGet blib covenantSerializedPk prev)) (\<lambda>isInCommittee.
           if \<not> isInCommittee then returnS False else returnS True))))"

definition AcceptDelegationToSign ::
  "'s paramsGetter \<Rightarrow> btclib \<Rightarrow> stakinglib \<Rightarrow> PublicKey \<Rightarrow> Delegation \<Rightarrow> Delegation option \<Rightarrow> ('s, bool) act" where
  "AcceptDelegationToSign paramCacheGet blib slib pk del prevDel =
     (let covenantSerializedPk = SerializePubKey blib pk in
      if AlreadySigned blib covenantSerializedPk del then returnS False
      else
        bindS (mapErrS (\<lambda>e. ''unable to verify if covenant key is in committee: '' @ e)
                 (IsKeyInCommittee paramCacheGet blib covenantSerializedPk del)) (\<lambda>isInCommittee.
        if \<not> isInCommittee then returnS False
        else if IsStakeExpansion del
        then ValidateStakeExpansion paramCacheGet blib slib covenantSerializedPk del prevDel
        else returnS True))"

text \<open>The emulator's own filter, which asks the chain for the previous delegation first.\<close>

definition acceptDelegationToSign ::
  "'s paramsGetter \<Rightarrow> (string \<Rightarrow> ('s, Delegation) act) \<Rightarrow> btclib \<Rightarrow> stakinglib \<Rightarrow> PublicKey
    \<Rightarrow> Delegation \<Rightarrow> ('s, bool) act" where
  "acceptDelegationToSign paramCacheGet queryBTCDelegation blib slib pk del =
     bindS (case StakeExpansion del of
              None \<Rightarrow> returnS None
            | Some stkExp \<Rightarrow>
                bindS (mapErrS (\<lambda>e. ''failed to query previous delegation for stake expansion: '' @ e)
                         (queryBTCDelegation (PreviousStakingTxHashHex stkExp)))
                  (\<lambda>prevDel. returnS (Some prevDel))) (\<lambda>prevDel.
     AcceptDelegationToSign paramCacheGet blib slib pk del prevDel)"

section \<open>Lemmas\<close>

lemma AlreadySigned_iff:
  "AlreadySigned blib k del \<longleftrightarrow> (\<exists>i \<in> set (Del_CovenantSigs del). SerializePubKey blib (Adaptor_Pk i) = k)"
  by (simp add: AlreadySigned_def list_ex_iff)

lemma keyInCommittee_iff:
  "keyInCommittee blib k p \<longleftrightarrow> (\<exists>pk \<in> set (CovenantPks p). SerializePubKey blib pk = k)"
  by (simp add: keyInCommittee_def list_ex_iff)

text \<open>The previous delegation is the transaction the stake expansion announces.\<close>

definition prevDelMatches :: "btclib \<Rightarrow> stakinglib \<Rightarrow> DelegationStakeExpansion \<Rightarrow> Delegation \<Rightarrow> bool" where
  "prevDelMatches blib slib stkExp prev \<longleftrightarrow>
     (case BBN_NewBTCTxFromHex slib (StakingTxHex prev) of
        Ok tx \<Rightarrow> Hash_String blib (TxHash blib tx) = PreviousStakingTxHashHex stkExp
      | _ \<Rightarrow> False)"

context params_getter
begin

lemma IsKeyInCommittee_Ok:
  assumes "IsKeyInCommittee get blib k del s = (Ok b, s')"
  shows "\<exists>p. known s' (ParamsVersion del) = Some p \<and> (b \<longleftrightarrow> keyInCommittee blib k p)"
    and "known s \<subseteq>\<^sub>m known s'"
proof -
  from assms obtain p where "get (ParamsVersion del) s = (Ok p, s')" "b \<longleftrightarrow> keyInCommittee blib k p"
    by (auto simp: IsKeyInCommittee_def act_simps)
  then show "\<exists>p. known s' (ParamsVersion del) = Some p \<and> (b \<longleftrightarrow> keyInCommittee blib k p)"
    and "known s \<subseteq>\<^sub>m known s'"
    using get_Ok_known get_extends by blast+
qed

lemma IsKeyInCommittee_known:
  "known s (ParamsVersion del) = Some p \<Longrightarrow>
     IsKeyInCommittee get blib k del s = (Ok (keyInCommittee blib k p), s)"
  by (simp add: IsKeyInCommittee_def get_hit)

lemma ValidateStakeExpansion_True:
  assumes "ValidateStakeExpansion get blib slib k del prevDel s = (Ok True, s')"
  obtains stkExp prev p where "StakeExpansion del = Some stkExp" "prevDel = Some prev"
    "prevDelMatches blib slib stkExp prev"
    "known s' (ParamsVersion prev) = Some p" "keyInCommittee blib k p" "known s \<subseteq>\<^sub>m known s'"
proof -
  from assms obtain stkExp prev tx where *: "StakeExpansion del = Some stkExp" "prevDel = Some prev"
    "BBN_NewBTCTxFromHex slib (StakingTxHex prev) = Ok tx"
    "Hash_String blib (TxHash blib tx) = PreviousStakingTxHashHex stkExp"
    and **: "IsKeyInCommittee get blib k prev s = (Ok True, s')"
    by (auto simp: ValidateStakeExpansion_def act_simps Let_def split: option.splits if_splits)
  with IsKeyInCommittee_Ok [OF **] that show thesis
    by (auto simp: prevDelMatches_def)
qed

lemma AcceptDelegationToSign_True:
  assumes "AcceptDelegationToSign get blib slib pk del prevDel s = (Ok True, s')"
  shows "\<not> AlreadySigned blib (SerializePubKey blib pk) del"
    and "\<exists>p. known s' (ParamsVersion del) = Some p \<and> keyInCommittee blib (SerializePubKey blib pk) p"
    and "\<forall>stkExp. StakeExpansion del = Some stkExp \<longrightarrow>
           (\<exists>prev p. prevDel = Some prev \<and> prevDelMatches blib slib stkExp prev
              \<and> known s' (ParamsVersion prev) = Some p
              \<and> keyInCommittee blib (SerializePubKey blib pk) p)"
    and "known s \<subseteq>\<^sub>m known s'"
proof -
  let ?k = "SerializePubKey blib pk"
  from assms show "\<not> AlreadySigned blib ?k del"
    by (auto simp: AcceptDelegationToSign_def)
  from assms obtain t where c: "IsKeyInCommittee get blib ?k del s = (Ok True, t)"
    and rest: "(if IsStakeExpansion del then ValidateStakeExpansion get blib slib ?k del prevDel
                else returnS True) t = (Ok True, s')"
    by (auto simp: AcceptDelegationToSign_def act_simps Let_def split: if_splits)
  note C = IsKeyInCommittee_Ok [OF c]
  have ext: "known t \<subseteq>\<^sub>m known s'"
    using rest by (auto elim: ValidateStakeExpansion_True split: if_splits)
  then show "known s \<subseteq>\<^sub>m known s'" using C(2) by (blast intro: map_le_trans)
  show "\<exists>p. known s' (ParamsVersion del) = Some p \<and> keyInCommittee blib ?k p"
    using C(1) ext by (metis domI map_le_def)
  show "\<forall>stkExp. StakeExpansion del = Some stkExp \<longrightarrow>
           (\<exists>prev p. prevDel = Some prev \<and> prevDelMatches blib slib stkExp prev
              \<and> known s' (ParamsVersion prev) = Some p \<and> keyInCommittee blib ?k p)"
  proof (intro allI impI)
    fix stkExp
    assume e: "StakeExpansion del = Some stkExp"
    with rest have "ValidateStakeExpansion get blib slib ?k del prevDel t = (Ok True, s')"
      by (simp add: IsStakeExpansion_def)
    with e show "\<exists>prev p. prevDel = Some prev \<and> prevDelMatches blib slib stkExp prev
        \<and> known s' (ParamsVersion prev) = Some p \<and> keyInCommittee blib ?k p"
      by (auto elim!: ValidateStakeExpansion_True)
  qed
qed

text \<open>With everything known, the answer is computed without any effect.\<close>

lemma AcceptDelegationToSign_known:
  assumes "known s (ParamsVersion del) = Some p" "StakeExpansion del = None"
  shows "AcceptDelegationToSign get blib slib pk del prevDel s =
    (Ok (\<not> AlreadySigned blib (SerializePubKey blib pk) del
          \<and> keyInCommittee blib (SerializePubKey blib pk) p), s)"
  using assms
  by (simp add: AcceptDelegationToSign_def IsKeyInCommittee_known IsStakeExpansion_def Let_def)

lemma ValidateStakeExpansion_known:
  assumes "StakeExpansion del = Some stkExp" "known s (ParamsVersion prev) = Some p"
    and "prevDelMatches blib slib stkExp prev"
  shows "ValidateStakeExpansion get blib slib k del (Some prev) s = (Ok (keyInCommittee blib k p), s)"
proof -
  from assms(3) obtain tx where "BBN_NewBTCTxFromHex slib (StakingTxHex prev) = Ok tx"
    "Hash_String blib (TxHash blib tx) = PreviousStakingTxHashHex stkExp"
    by (auto simp: prevDelMatches_def split: result.splits)
  with assms(1) IsKeyInCommittee_known [OF assms(2)] show ?thesis
    by (cases "keyInCommittee blib k p") (simp_all add: ValidateStakeExpansion_def Let_def)
qed

lemma AcceptDelegationToSign_known_expansion:
  assumes "known s (ParamsVersion del) = Some p" "StakeExpansion del = Some stkExp"
    and "known s (ParamsVersion prev) = Some p'" "prevDelMatches blib slib stkExp prev"
  shows "AcceptDelegationToSign get blib slib pk del (Some prev) s =
    (Ok (\<not> AlreadySigned blib (SerializePubKey blib pk) del
          \<and> keyInCommittee blib (SerializePubKey blib pk) p
          \<and> keyInCommittee blib (SerializePubKey blib pk) p'), s)"
  using assms(2) IsKeyInCommittee_known [OF assms(1)] ValidateStakeExpansion_known [OF assms(2-4)]
  by (cases "keyInCommittee blib (SerializePubKey blib pk) p")
     (simp_all add: AcceptDelegationToSign_def IsStakeExpansion_def Let_def)

end

section \<open>Properties\<close>

text \<open>
  C5. A delegation accepted for signing has not been signed with this key, the parameters of its
  version, which are then in the cache, name this key in the committee, and if it is a stake
  expansion, the previous delegation was found, its staking transaction has the announced hash, and
  the committee of its parameters contains this key as well. Nothing already in the cache changes.
\<close>

theorem AcceptDelegationToSign_sound:
  assumes "AcceptDelegationToSign (Get rd q) blib slib pk del prevDel s = (Ok True, s')"
  shows "\<not> AlreadySigned blib (SerializePubKey blib pk) del
    \<and> (\<exists>p. paramsByVersion s' (ParamsVersion del) = Some p
         \<and> keyInCommittee blib (SerializePubKey blib pk) p)
    \<and> (\<forall>stkExp. StakeExpansion del = Some stkExp \<longrightarrow>
         (\<exists>prev p. prevDel = Some prev \<and> prevDelMatches blib slib stkExp prev
            \<and> paramsByVersion s' (ParamsVersion prev) = Some p
            \<and> keyInCommittee blib (SerializePubKey blib pk) p))
    \<and> paramsByVersion s \<subseteq>\<^sub>m paramsByVersion s'"
  using cvp.AcceptDelegationToSign_True [OF assms] by blast

definition sample_cache :: "unit pcache" where
  "sample_cache = \<lparr>paramsByVersion = [0 \<mapsto> sample_params], world = ()\<rparr>"

definition sample_expansion :: DelegationStakeExpansion where
  "sample_expansion = \<lparr>PreviousStakingTxHashHex = ''00'', OtherFundingTxOutHex = ''05''\<rparr>"

lemma sample_prev_matches: "prevDelMatches sample_blib sample_slib sample_expansion sample_del"
proof -
  have "hex_byte 0 = ''00''" by (simp add: hex_byte_def hextable_def)
  then show ?thesis
    by (simp add: prevDelMatches_def sample_blib_def sample_slib_def sample_expansion_def sample_del_def
        deserialize_sample_def tx_of_def hex_val_def)
qed

lemma sample_committee:
  "keyInCommittee sample_blib (SerializePubKey sample_blib key_a) sample_params"
  by (simp add: keyInCommittee_def sample_params_def sample_blib_def key_a_def key_b_def)

theorem AcceptDelegationToSign_sound_witness:
  "\<exists>prev. prevDelMatches sample_blib sample_slib sample_expansion prev
     \<and> \<not> AlreadySigned sample_blib [1] (sample_del\<lparr>StakeExpansion := Some sample_expansion\<rparr>)"
proof -
  let ?del = "sample_del\<lparr>StakeExpansion := Some sample_expansion\<rparr>"
  have "AcceptDelegationToSign (Get (\<lambda>n f. f) (\<lambda>v. returnS sample_params)) sample_blib sample_slib key_a
      ?del (Some sample_del) sample_cache = (Ok True, sample_cache)"
    by (subst cvp.AcceptDelegationToSign_known_expansion
          [where p = sample_params and p' = sample_params and stkExp = sample_expansion])
       (auto simp: sample_cache_def sample_del_def sample_prev_matches [unfolded sample_del_def]
         AlreadySigned_def sample_committee)
  from AcceptDelegationToSign_sound [OF this] show ?thesis
    by (auto simp: sample_blib_def key_a_def)
qed

text \<open>
  C18. With the parameters in the cache, the answer is exactly the conjunction of the reasons and the
  call has no effect: for a plain delegation, and for a stake expansion whose previous delegation
  matches the announced hash.
\<close>

theorem AcceptDelegationToSign_complete:
  assumes "paramsByVersion s (ParamsVersion del) = Some p"
    and "StakeExpansion del = Some stkExp \<Longrightarrow> prevDel = Some prev
      \<and> paramsByVersion s (ParamsVersion prev) = Some p' \<and> prevDelMatches blib slib stkExp prev"
    and "StakeExpansion del \<noteq> None \<Longrightarrow> StakeExpansion del = Some stkExp"
  shows "AcceptDelegationToSign (Get rd q) blib slib pk del prevDel s =
    (Ok (\<not> AlreadySigned blib (SerializePubKey blib pk) del
         \<and> keyInCommittee blib (SerializePubKey blib pk) p
         \<and> (StakeExpansion del \<noteq> None \<longrightarrow> keyInCommittee blib (SerializePubKey blib pk) p')), s)"
proof (cases "StakeExpansion del")
  case None
  with cvp.AcceptDelegationToSign_known [OF assms(1)] show ?thesis by simp
next
  case (Some e)
  with assms have "StakeExpansion del = Some stkExp" "prevDel = Some prev"
    "paramsByVersion s (ParamsVersion prev) = Some p'" "prevDelMatches blib slib stkExp prev" by auto
  with cvp.AcceptDelegationToSign_known_expansion [OF assms(1)] show ?thesis by simp
qed

theorem AcceptDelegationToSign_complete_witness:
  "AcceptDelegationToSign (Get (\<lambda>n f. f) (\<lambda>v. returnS sample_params)) sample_blib sample_slib key_a
     (sample_del\<lparr>StakeExpansion := Some sample_expansion\<rparr>) (Some sample_del) sample_cache
     = (Ok True, sample_cache)"
proof -
  have "paramsByVersion sample_cache 0 = Some sample_params" "ParamsVersion sample_del = 0"
    by (simp_all add: sample_cache_def sample_del_def)
  then show ?thesis
    using sample_prev_matches sample_committee
    by (subst AcceptDelegationToSign_complete
          [where p = sample_params and p' = sample_params and prev = sample_del
            and stkExp = sample_expansion])
       (auto simp: AlreadySigned_def sample_del_def)
qed

text \<open>
  A delegation that carries a signature of the emulator's key is refused without any query.
\<close>

lemma AcceptDelegationToSign_already_signed:
  assumes "sig \<in> set (Del_CovenantSigs del)"
    and "SerializePubKey blib (Adaptor_Pk sig) = SerializePubKey blib pk"
  shows "AcceptDelegationToSign get blib slib pk del prevDel s = (Ok False, s)"
  using assms by (auto simp: AcceptDelegationToSign_def AlreadySigned_iff Let_def)

lemma AcceptDelegationToSign_already_signed_example:
  "AcceptDelegationToSign (\<lambda>v. failS ''unreachable'') sample_blib sample_slib key_a
     (sample_del\<lparr>Del_CovenantSigs := [\<lparr>Adaptor_Pk = key_a, Adaptor_Sigs = []\<rparr>]\<rparr>) None () = (Ok False, ())"
  by (rule AcceptDelegationToSign_already_signed [where sig = "\<lparr>Adaptor_Pk = key_a, Adaptor_Sigs = []\<rparr>"])
     simp_all

end
