(* ===== verification/Metrics.thy ===== *)
theory Metrics
  imports ParamsCache
begin

text \<open>
  The process state of the emulator and its metrics (\<^verbatim>\<open>covenant/metrics.go\<close> and the recorders of
  \<^verbatim>\<open>covenant/covenant.go\<close>). The state extends the parameter cache by the prometheus counters and
  gauges of the emulator's key, the time keeper and the messages written to the error log. Times
  are the nanoseconds the clock returns; a gauge in seconds is the same duration in another unit,
  so it is kept in nanoseconds.

  The lemmas say that the recorders touch nothing but their own field, that the seconds gauges
  stay unset until a submission and a signature have completed, and that they are then the time
  passed since.
\<close>

section \<open>State\<close>

record 'w emu = "'w pcache" +
  totalSignDelegationsSubmitted :: nat
  failedSignDelegations :: nat
  currentPendingDelegations :: nat
  previousSubmission :: "int option"
  previousLocalSignStart :: "int option"
  previousLocalSignFinish :: "int option"
  timedSignDelegationLag :: "int list"
  secondsSinceLastSubmission :: int
  secondsSinceLastSignStart :: int
  secondsSinceLastSignFinish :: int
  errorLog :: "string list"

section \<open>Operations\<close>

text \<open>\<^verbatim>\<open>time.Now\<close> reads the clock of the outside world.\<close>

definition timeNow :: "('w \<Rightarrow> int \<times> 'w) \<Rightarrow> ('w emu, int) act" where
  "timeNow clock = onWorld (\<lambda>w. (Ok (fst (clock w)), snd (clock w)))"

definition timeSince :: "('w \<Rightarrow> int \<times> 'w) \<Rightarrow> int \<Rightarrow> ('w emu, int) act" where
  "timeSince clock t = bindS (timeNow clock) (\<lambda>now. returnS (now - t))"

definition SetPreviousSubmission :: "int \<Rightarrow> ('w emu, unit) act" where
  "SetPreviousSubmission t = modifyS (\<lambda>s. s\<lparr>previousSubmission := Some t\<rparr>)"

definition SetPreviousSignStart :: "int \<Rightarrow> ('w emu, unit) act" where
  "SetPreviousSignStart t = modifyS (\<lambda>s. s\<lparr>previousLocalSignStart := Some t\<rparr>)"

definition SetPreviousSignFinish :: "int \<Rightarrow> ('w emu, unit) act" where
  "SetPreviousSignFinish t = modifyS (\<lambda>s. s\<lparr>previousLocalSignFinish := Some t\<rparr>)"

definition observeSignLag :: "int \<Rightarrow> ('w emu, unit) act" where
  "observeSignLag d = modifyS (\<lambda>s. s\<lparr>timedSignDelegationLag := timedSignDelegationLag s @ [d]\<rparr>)"

definition UpdatePrometheusMetrics :: "('w \<Rightarrow> int \<times> 'w) \<Rightarrow> ('w emu, unit) act" where
  "UpdatePrometheusMetrics clock = (\<lambda>s.
     case (previousSubmission s, previousLocalSignStart s, previousLocalSignFinish s) of
       (Some sub, Some start, Some finish) \<Rightarrow>
         bindS (timeSince clock sub) (\<lambda>d1.
         bindS (modifyS (\<lambda>s. s\<lparr>secondsSinceLastSubmission := d1\<rparr>)) (\<lambda>_.
         bindS (timeSince clock start) (\<lambda>d2.
         bindS (modifyS (\<lambda>s. s\<lparr>secondsSinceLastSignStart := d2\<rparr>)) (\<lambda>_.
         bindS (timeSince clock finish) (\<lambda>d3.
         modifyS (\<lambda>s. s\<lparr>secondsSinceLastSignFinish := d3\<rparr>)))))) s
     | _ \<Rightarrow> (Ok (), s))"

definition recordMetricsFailedSignDelegations :: "nat \<Rightarrow> ('w emu, unit) act" where
  "recordMetricsFailedSignDelegations n =
     modifyS (\<lambda>s. s\<lparr>failedSignDelegations := failedSignDelegations s + n\<rparr>)"

definition recordMetricsTotalSignDelegationsSubmitted :: "nat \<Rightarrow> ('w emu, unit) act" where
  "recordMetricsTotalSignDelegationsSubmitted n =
     modifyS (\<lambda>s. s\<lparr>totalSignDelegationsSubmitted := totalSignDelegationsSubmitted s + n\<rparr>)"

definition recordMetricsCurrentPendingDelegations :: "nat \<Rightarrow> ('w emu, unit) act" where
  "recordMetricsCurrentPendingDelegations n = modifyS (\<lambda>s. s\<lparr>currentPendingDelegations := n\<rparr>)"

text \<open>\<^verbatim>\<open>logger.Error\<close>: the message is kept, the fields it prints are not.\<close>

definition logError :: "string \<Rightarrow> ('w emu, unit) act" where
  "logError msg = modifyS (\<lambda>s. s\<lparr>errorLog := errorLog s @ [msg]\<rparr>)"

section \<open>Lemmas\<close>

lemmas recorder_defs =
  SetPreviousSubmission_def SetPreviousSignStart_def SetPreviousSignFinish_def observeSignLag_def
  recordMetricsFailedSignDelegations_def recordMetricsTotalSignDelegationsSubmitted_def
  recordMetricsCurrentPendingDelegations_def logError_def

lemma timeNow_apply [simp]:
  "timeNow clock s = (Ok (fst (clock (world s))), s\<lparr>world := snd (clock (world s))\<rparr>)"
  by (simp add: timeNow_def onWorld_def)

lemma timeSince_apply [simp]:
  "timeSince clock t s = (Ok (fst (clock (world s)) - t), s\<lparr>world := snd (clock (world s))\<rparr>)"
  by (simp add: timeSince_def)

text \<open>What an emulator action may not touch: the counters of submitted and failed signatures.\<close>

definition counters :: "'w emu \<Rightarrow> nat \<times> nat" where
  "counters s = (totalSignDelegationsSubmitted s, failedSignDelegations s)"

lemma keeps_onWorld [keeps_intros]: "(\<And>s w. I s \<Longrightarrow> I (s\<lparr>world := w\<rparr>)) \<Longrightarrow> keeps I (onWorld m)"
  by (rule keepsI) (auto simp: onWorld_def split: prod.splits)

lemma no_panic_onWorld [no_panic_intros]: "no_panic m \<Longrightarrow> no_panic (onWorld m)"
  by (auto simp: no_panic_def onWorld_def split: prod.splits)

lemma UpdatePrometheusMetrics_unset:
  "previousSubmission s = None \<or> previousLocalSignStart s = None \<or> previousLocalSignFinish s = None \<Longrightarrow>
   UpdatePrometheusMetrics clock s = (Ok (), s)"
  by (auto simp: UpdatePrometheusMetrics_def split: option.splits)

text \<open>With a clock that never goes back, no gauge goes below the true age at the time of the call.\<close>

lemma UpdatePrometheusMetrics_ages:
  assumes mono: "\<And>w. fst (clock w) \<le> fst (clock (snd (clock w)))"
    and "previousSubmission s = Some sub" "previousLocalSignStart s = Some st"
      "previousLocalSignFinish s = Some fin"
    and "UpdatePrometheusMetrics clock s = (r, s')"
  shows "r = Ok ()" "fst (clock (world s)) - sub = secondsSinceLastSubmission s'"
    and "fst (clock (world s)) - st \<le> secondsSinceLastSignStart s'"
    and "fst (clock (world s)) - fin \<le> secondsSinceLastSignFinish s'"
  using assms(2-5) mono [of "world s"] mono [of "snd (clock (world s))"]
  by (auto simp: UpdatePrometheusMetrics_def)

end
