(* ===== verification/Paths.thy ===== *)
theory Paths
  imports GoStd
begin

text \<open>
  Paths: the lexical functions of \<^verbatim>\<open>path/filepath\<close> on Unix, the expansion of variables of
  \<^verbatim>\<open>os.ExpandEnv\<close>, and \<^verbatim>\<open>util/path.go\<close> on top of them. The host is a parameter: the current
  user, the environment and the file system.

  The lemmas show that cleaning is idempotent and what a cleaned path looks like: no empty element,
  no \<^verbatim>\<open>.\<close>, and \<^verbatim>\<open>..\<close> only at the front of a relative path.
\<close>

section \<open>Clean and Join\<close>

definition sep :: char where
  "sep = CHR ''/''"

fun joinSep :: "string list \<Rightarrow> string" where
  "joinSep [] = []"
| "joinSep [c] = c"
| "joinSep (c # d # cs) = c @ [sep] @ joinSep (d # cs)"

definition dotdot :: string where
  "dotdot = ''..''"

definition isRooted :: "string \<Rightarrow> bool" where
  "isRooted p \<longleftrightarrow> p \<noteq> [] \<and> hd p = sep"

definition elements :: "string \<Rightarrow> string list" where
  "elements p = filter (\<lambda>c. c \<noteq> [] \<and> c \<noteq> ''.'') (split_at_char sep p)"

text \<open>One element after the ones on the stack.\<close>

definition cleanStep :: "bool \<Rightarrow> string list \<Rightarrow> string \<Rightarrow> string list" where
  "cleanStep rooted stack c =
     (if c = dotdot then
        (case stack of
           [] \<Rightarrow> if rooted then [] else [dotdot]
         | t # ts \<Rightarrow> if t = dotdot then dotdot # stack else ts)
      else c # stack)"

definition renderPath :: "bool \<Rightarrow> string list \<Rightarrow> string" where
  "renderPath rooted cs = (if rooted then sep # joinSep cs else if cs = [] then ''.'' else joinSep cs)"

definition Clean :: "string \<Rightarrow> string" where
  "Clean p = renderPath (isRooted p) (rev (foldl (cleanStep (isRooted p)) [] (elements p)))"

definition JoinPath :: "string list \<Rightarrow> string" where
  "JoinPath elem = (case dropWhile (\<lambda>e. e = []) elem of [] \<Rightarrow> [] | es \<Rightarrow> Clean (joinSep es))"

text \<open>\<^verbatim>\<open>filepath.Dir\<close> and \<^verbatim>\<open>filepath.Base\<close>\<close>

definition Dir :: "string \<Rightarrow> string" where
  "Dir p = Clean (rev (dropWhile (\<lambda>c. c \<noteq> sep) (rev p)))"

definition BaseName :: "string \<Rightarrow> string" where
  "BaseName p =
     (if p = [] then ''.''
      else (let q = rev (dropWhile (\<lambda>c. c = sep) (rev p))
            in if q = [] then [sep] else rev (takeWhile (\<lambda>c. c \<noteq> sep) (rev q))))"

section \<open>Expansion of variables\<close>

definition isShellSpecialVar :: "char \<Rightarrow> bool" where
  "isShellSpecialVar c \<longleftrightarrow> c \<in> set ''*#$@!?-'' \<or> is_digit c"

definition isAlphaNum :: "char \<Rightarrow> bool" where
  "isAlphaNum c \<longleftrightarrow> c = CHR ''_'' \<or> is_digit c
     \<or> 97 \<le> (of_char c :: nat) \<and> (of_char c :: nat) \<le> 122 \<or> 65 \<le> (of_char c :: nat) \<and> (of_char c :: nat) \<le> 90"

text \<open>The name after a dollar sign and the number of characters it takes.\<close>

definition getShellName :: "string \<Rightarrow> string \<times> nat" where
  "getShellName s =
     (case s of
        [] \<Rightarrow> ([], 0)
      | c # t \<Rightarrow>
          if c = CHR ''{'' then
            (if length t \<ge> 2 \<and> isShellSpecialVar (t ! 0) \<and> t ! 1 = CHR ''}'' then ([t ! 0], 3)
             else (let name = takeWhile (\<lambda>x. x \<noteq> CHR ''}'') t
                   in if name = t then ([], 1)
                      else if name = [] then ([], 2)
                      else (name, length name + 2)))
          else if isShellSpecialVar c then ([c], 1)
          else (let name = takeWhile isAlphaNum s in (name, length name)))"

function ExpandWith :: "(string \<Rightarrow> string) \<Rightarrow> string \<Rightarrow> string" where
  "ExpandWith getenv [] = []"
| "ExpandWith getenv (c # s) =
     (if c = CHR ''$'' \<and> s \<noteq> [] then
        (case getShellName s of (name, w) \<Rightarrow>
           (if name = [] \<and> w > 0 then []
            else if name = [] then [c]
            else getenv name) @ ExpandWith getenv (drop w s))
      else c # ExpandWith getenv s)"
  by pat_completeness auto
termination
  by (relation "measure (\<lambda>(g, s). length s)") auto

section \<open>The host\<close>

text \<open>
  What the program asks of the operating system, on a state \<open>'w\<close>. An error of
  \<^verbatim>\<open>os.MkdirAll\<close> carries its text, the path if it is a \<^verbatim>\<open>PathError\<close>, and whether
  \<^verbatim>\<open>os.IsExist\<close> holds of it.
\<close>

datatype statResult = StatOk | StatNotExist | StatError error

record MkdirError =
  Mkdir_Text :: error
  Mkdir_PathError :: "string option"
  Mkdir_IsExist :: bool

record 'w host =
  userCurrent :: "string result"
  Getenv :: "string \<Rightarrow> string"
  Getwd :: "string result"
  os_Stat :: "string \<Rightarrow> 'w \<Rightarrow> statResult"
  os_MkdirAll :: "string \<Rightarrow> 'w \<Rightarrow> MkdirError option \<times> 'w"
  os_Readlink :: "string \<Rightarrow> 'w \<Rightarrow> string result"
  os_OpenAppend :: "string \<Rightarrow> ('w, unit) act"
  os_WriteFile :: "string \<Rightarrow> string \<Rightarrow> ('w, unit) act"

definition FileExists :: "'w host \<Rightarrow> string \<Rightarrow> 'w \<Rightarrow> bool" where
  "FileExists hst name w = (case os_Stat hst name w of StatNotExist \<Rightarrow> False | _ \<Rightarrow> True)"

definition MakeDirectory :: "'w host \<Rightarrow> string \<Rightarrow> ('w, unit) act" where
  "MakeDirectory hst dir = (\<lambda>w.
     case os_MkdirAll hst dir w of
       (None, w1) \<Rightarrow> (Ok (), w1)
     | (Some e, w1) \<Rightarrow>
         (let err =
            (case Mkdir_PathError e of
               Some p \<Rightarrow>
                 (if Mkdir_IsExist e
                  then (case os_Readlink hst p w1 of
                          Ok link \<Rightarrow> ''is symlink '' @ p @ '' -> '' @ link @ '' mounted?''
                        | _ \<Rightarrow> Mkdir_Text e)
                  else Mkdir_Text e)
             | None \<Rightarrow> Mkdir_Text e)
          in (Err (''failed to create dir '' @ dir @ '': '' @ err), w1)))"

text \<open>The first occurrence of the tilde is the prefix.\<close>

definition CleanAndExpandPath :: "'w host \<Rightarrow> string \<Rightarrow> string" where
  "CleanAndExpandPath hst path =
     (if path = [] then []
      else
        (let path1 =
           (if has_prefix path ''~''
            then (case userCurrent hst of Ok homeDir \<Rightarrow> homeDir | _ \<Rightarrow> Getenv hst ''HOME'') @ drop 1 path
            else path)
         in Clean (ExpandWith (Getenv hst) path1)))"

text \<open>\<^verbatim>\<open>filepath.Abs\<close>\<close>

definition AbsPath :: "'w host \<Rightarrow> string \<Rightarrow> string result" where
  "AbsPath hst path =
     (if isRooted path then Ok (Clean path)
      else bindR (Getwd hst) (\<lambda>wd. Ok (JoinPath [wd, path])))"

section \<open>Lemmas\<close>

definition plainElem :: "string \<Rightarrow> bool" where
  "plainElem c \<longleftrightarrow> c \<noteq> [] \<and> c \<noteq> ''.'' \<and> sep \<notin> set c"

text \<open>The elements of a cleaned path.\<close>

definition normalPath :: "bool \<Rightarrow> string list \<Rightarrow> bool" where
  "normalPath rooted cs \<longleftrightarrow> (\<forall>c \<in> set cs. plainElem c)
     \<and> (\<exists>n ds. cs = replicate n dotdot @ ds \<and> dotdot \<notin> set ds \<and> (rooted \<longrightarrow> n = 0))"

lemma elements_plain: "c \<in> set (elements p) \<Longrightarrow> plainElem c"
proof -
  have "sep \<notin> set c" if "c \<in> set (split_at_char sep p)" for c
    using that by (induction sep p arbitrary: c rule: split_at_char.induct) (auto split: list.splits if_splits)
  then show "c \<in> set (elements p) \<Longrightarrow> plainElem c" by (simp add: elements_def plainElem_def)
qed

lemma normalPath_step:
  assumes "normalPath rooted (rev st)" "plainElem c"
  shows "normalPath rooted (rev (cleanStep rooted st c))"
proof -
  obtain n ds where ds: "rev st = replicate n dotdot @ ds" "dotdot \<notin> set ds" "rooted \<longrightarrow> n = 0"
    and plain: "\<forall>c \<in> set st. plainElem c"
    using assms(1) by (auto simp: normalPath_def)
  show ?thesis
  proof (cases "c = dotdot")
    case False
    have "rev (cleanStep rooted st c) = replicate n dotdot @ (ds @ [c])" using False ds(1) by (simp add: cleanStep_def)
    moreover have "\<forall>x \<in> set (rev (cleanStep rooted st c)). plainElem x"
      using False plain assms(2) by (simp add: cleanStep_def)
    ultimately show ?thesis using False ds(2,3) unfolding normalPath_def
      by (metis Un_iff empty_iff empty_set insert_iff list.simps(15) set_append)
  next
    case True
    show ?thesis
    proof (cases ds rule: rev_cases)
      case Nil
      then have st: "st = replicate n dotdot" using ds(1) by (metis append_Nil2 rev_replicate rev_rev_ident)
      show ?thesis
      proof (cases n)
        case 0
        then show ?thesis using True st assms(2)
          by (auto simp: cleanStep_def normalPath_def intro: exI [of _ 0] exI [of _ 1])
      next
        case (Suc m)
        then have "\<not> rooted" using ds(3) by simp
        moreover have "cleanStep rooted st c = replicate (Suc n) dotdot" using True st Suc by (simp add: cleanStep_def)
        ultimately show ?thesis using True assms(2) unfolding normalPath_def
          by (metis append_Nil2 empty_iff empty_set in_set_replicate rev_replicate)
      qed
    next
      case (snoc es e)
      then have "st = e # rev (replicate n dotdot @ es)" using ds(1) by (metis append_assoc rev_append rev_eq_Cons_iff rev_rev_ident rev_swap)
      moreover have "e \<noteq> dotdot" using snoc ds(2) by auto
      ultimately have "rev (cleanStep rooted st c) = replicate n dotdot @ es" using True by (simp add: cleanStep_def)
      moreover have "\<forall>x \<in> set (replicate n dotdot @ es). plainElem x" using plain ds(1) snoc
        by (metis Un_iff set_append set_rev append_assoc)
      ultimately show ?thesis using ds snoc unfolding normalPath_def by auto
    qed
  qed
qed

lemma normalPath_fold:
  "\<forall>c \<in> set cs. plainElem c \<Longrightarrow> normalPath rooted (rev st) \<Longrightarrow>
   normalPath rooted (rev (foldl (cleanStep rooted) st cs))"
  by (induction cs arbitrary: st) (auto intro: normalPath_step)

lemma normalPath_Nil: "normalPath rooted []"
  by (simp add: normalPath_def)

lemma Clean_normal:
  obtains cs where "Clean p = renderPath (isRooted p) cs" "normalPath (isRooted p) cs"
proof -
  have "normalPath (isRooted p) (rev (foldl (cleanStep (isRooted p)) [] (elements p)))"
    by (rule normalPath_fold) (simp_all add: elements_plain normalPath_Nil)
  then show thesis using that by (simp add: Clean_def)
qed

text \<open>The elements of a rendered path.\<close>

lemma split_joinSep:
  "cs \<noteq> [] \<Longrightarrow> \<forall>c \<in> set cs. sep \<notin> set c \<Longrightarrow> split_at_char sep (joinSep cs) = cs"
  by (induction cs rule: joinSep.induct) (simp_all add: split_at_char_no_sep split_at_char_append)

lemma elements_joinSep: "\<forall>c \<in> set cs. plainElem c \<Longrightarrow> elements (joinSep cs) = cs"
proof (cases "cs = []")
  case False
  assume plain: "\<forall>c \<in> set cs. plainElem c"
  then have "split_at_char sep (joinSep cs) = cs" using False by (intro split_joinSep) (auto simp: plainElem_def)
  with plain show ?thesis by (simp add: elements_def plainElem_def filter_id_conv)
qed (simp add: elements_def)

lemma elements_sep: "elements (sep # p) = elements p"
  by (simp add: elements_def)

lemma isRooted_joinSep: "\<forall>c \<in> set cs. plainElem c \<Longrightarrow> \<not> isRooted (joinSep cs)"
  by (cases cs rule: joinSep.cases) (auto simp: isRooted_def plainElem_def hd_append dest: hd_in_set)

lemma renderPath_back:
  assumes "\<forall>c \<in> set cs. plainElem c"
  shows "isRooted (renderPath rooted cs) = rooted" "elements (renderPath rooted cs) = cs"
proof -
  have dot: "\<not> isRooted ''.''" "elements ''.'' = []" by (simp_all add: isRooted_def elements_def sep_def)
  show "isRooted (renderPath rooted cs) = rooted"
    using isRooted_joinSep [OF assms] dot by (simp add: renderPath_def) (simp add: isRooted_def)
  show "elements (renderPath rooted cs) = cs"
    using dot by (simp add: renderPath_def elements_sep elements_joinSep [OF assms])
qed

lemma foldl_clean_plain:
  "dotdot \<notin> set ds \<Longrightarrow> foldl (cleanStep rooted) st ds = rev ds @ st"
  by (induction ds arbitrary: st) (auto simp: cleanStep_def)

lemma foldl_clean_dotdot:
  "\<not> rooted \<Longrightarrow> foldl (cleanStep rooted) (replicate m dotdot) (replicate n dotdot) = replicate (m + n) dotdot"
proof (induction n arbitrary: m)
  case (Suc n)
  have "cleanStep rooted (replicate m dotdot) dotdot = replicate (Suc m) dotdot"
    using Suc.prems by (cases m) (auto simp: cleanStep_def)
  with Suc show ?case by (simp del: replicate.simps(2) add: replicate_Suc [of n])
qed simp

lemma foldl_clean_normal:
  assumes "normalPath rooted cs"
  shows "foldl (cleanStep rooted) [] cs = rev cs"
proof -
  obtain n ds where ds: "cs = replicate n dotdot @ ds" "dotdot \<notin> set ds" "rooted \<longrightarrow> n = 0"
    using assms by (auto simp: normalPath_def)
  have "foldl (cleanStep rooted) [] (replicate n dotdot) = replicate n dotdot"
    using ds(3) foldl_clean_dotdot [of rooted 0 n] by (cases rooted) auto
  with ds(1,2) show ?thesis by (simp add: foldl_clean_plain)
qed

lemma Clean_render:
  assumes "normalPath rooted cs"
  shows "Clean (renderPath rooted cs) = renderPath rooted cs"
  using assms renderPath_back [of cs rooted] foldl_clean_normal [OF assms]
  by (simp add: Clean_def normalPath_def)

lemma Clean_idem: "Clean (Clean p) = Clean p"
  by (rule Clean_normal [of p]) (simp add: Clean_render)

text \<open>A plain element added to a cleaned path.\<close>

lemma joinSep_snoc: "cs \<noteq> [] \<Longrightarrow> joinSep (cs @ [c]) = joinSep cs @ sep # c"
  by (induction cs rule: joinSep.induct) simp_all

lemma normalPath_snoc:
  assumes "normalPath rooted cs" "plainElem c" "c \<noteq> dotdot"
  shows "normalPath rooted (cs @ [c])"
  using normalPath_step [of rooted "rev cs" c] assms by (simp add: cleanStep_def)

lemma Join_clean:
  assumes "Clean h = h" "h \<notin> {[], ''/'', ''.''}" "plainElem c" "c \<noteq> dotdot"
  shows "JoinPath [h, c] = h @ sep # c" "Clean (h @ sep # c) = h @ sep # c"
proof -
  obtain cs where cs: "h = renderPath (isRooted h) cs" "normalPath (isRooted h) cs"
    using Clean_normal [of h] assms(1) by metis
  have ne: "cs \<noteq> []" using assms(2) cs(1) by (auto simp: renderPath_def sep_def split: if_splits)
  then have eq: "h @ sep # c = renderPath (isRooted h) (cs @ [c])"
    by (subst cs(1)) (simp add: renderPath_def joinSep_snoc)
  show c: "Clean (h @ sep # c) = h @ sep # c"
    unfolding eq by (rule Clean_render) (rule normalPath_snoc [OF cs(2) assms(3,4)])
  show "JoinPath [h, c] = h @ sep # c" using assms(2,3) c by (simp add: JoinPath_def plainElem_def)
qed

lemma CleanAndExpandPath_clean:
  "CleanAndExpandPath hst p \<noteq> [] \<Longrightarrow> Clean (CleanAndExpandPath hst p) = CleanAndExpandPath hst p"
  by (auto simp: CleanAndExpandPath_def Let_def Clean_idem split: if_splits)

end
