(* ===== verification/NetIP.thy ===== *)
theory NetIP
  imports GoStd
begin

text \<open>
  \<^verbatim>\<open>net.ParseIP\<close> of Go's standard library, which both configurations use to validate a host:
  whether a text is an IPv4 address in dotted decimal form or an IPv6 address without a zone. Only
  the answer whether the address is valid is used, so the address itself is not built.
\<close>

text \<open>A field of an IPv4 address: a decimal number up to 255 without leading zeros.\<close>

definition ipv4Field :: "string \<Rightarrow> bool" where
  "ipv4Field f \<longleftrightarrow>
     (case ParseUint 255 f of Inl _ \<Rightarrow> False | Inr n \<Rightarrow> length f = 1 \<or> hd f \<noteq> CHR ''0'')"

definition isIPv4 :: "string \<Rightarrow> bool" where
  "isIPv4 s \<longleftrightarrow> (let fs = split_at_char (CHR ''.'') s in length fs = 4 \<and> list_all ipv4Field fs)"

definition is_hex :: "char \<Rightarrow> bool" where
  "is_hex c \<longleftrightarrow> hex_val c \<noteq> None"

text \<open>
  The loop over the groups of an IPv6 address: how many groups are left, whether the ellipsis has
  been seen, and the text that is left. At the end there must be an ellipsis exactly when groups
  are missing.
\<close>

fun ipv6Groups :: "nat \<Rightarrow> bool \<Rightarrow> string \<Rightarrow> bool" where
  "ipv6Groups 0 ell s \<longleftrightarrow> s = [] \<and> \<not> ell"
| "ipv6Groups (Suc n) ell s \<longleftrightarrow>
     (let ds = takeWhile is_hex s; rest = dropWhile is_hex s
      in if ds = [] \<or> length ds > 4 then False
         else if has_prefix rest ''.'' then
           (ell \<or> n = 1) \<and> 1 \<le> n \<and> isIPv4 s \<and> ell = (1 < n)
         else (case rest of
             [] \<Rightarrow> ell = (0 < n)
           | c # r \<Rightarrow>
               if c \<noteq> CHR '':'' then False
               else (case r of
                   [] \<Rightarrow> False
                 | c2 # r2 \<Rightarrow>
                     if c2 = CHR '':'' then
                       (if ell then False else if r2 = [] then 0 < n else ipv6Groups n True r2)
                     else ipv6Groups n ell r)))"

definition isIPv6 :: "string \<Rightarrow> bool" where
  "isIPv6 s \<longleftrightarrow>
     (if has_prefix s ''::'' then drop 2 s = [] \<or> ipv6Groups 8 True (drop 2 s) else ipv6Groups 8 False s)"

text \<open>
  The first point, colon or percent sign decides the family; a percent sign starts a zone, which
  is refused.
\<close>

definition ParseIP :: "string \<Rightarrow> bool" where
  "ParseIP s \<longleftrightarrow>
     (case dropWhile (\<lambda>c. c \<notin> set ''.:%'') s of
        [] \<Rightarrow> False
      | c # _ \<Rightarrow>
          if c = CHR ''.'' then isIPv4 s
          else if c = CHR '':'' then CHR ''%'' \<notin> set s \<and> isIPv6 s
          else False)"

lemma ParseIP_loopback [simp]: "ParseIP ''127.0.0.1''"
  by (simp add: ParseIP_def isIPv4_def ipv4Field_def ParseUint_def digit_val_def is_digit_def)

lemma ParseIP_Nil [simp]: "\<not> ParseIP []"
  by (simp add: ParseIP_def)

end
