(* ===== verification/CovConfig.thy ===== *)
theory CovConfig
  imports Complex_Main BtcTypes Paths NetIP
begin

text \<open>
  The configuration of the emulator daemon (\<^verbatim>\<open>config/\<close>): structs, defaults, validation, the
  places of its files, and loading. Durations are whole nanoseconds, as in \<^verbatim>\<open>time.Duration\<close>; the
  gas adjustment is a rational. The parameters of the Bitcoin networks, the default configuration of
  the Babylon client and the INI parser are packages the source imports, so they are arguments.

  The lemmas say exactly which configurations validation accepts, where the files are, and that the
  default configuration is valid.
\<close>

type_synonym Duration = int

definition Nanosecond :: Duration where "Nanosecond = 1"
definition Millisecond :: Duration where "Millisecond = 1000000 * Nanosecond"
definition Second :: Duration where "Second = 1000 * Millisecond"
definition Minute :: Duration where "Minute = 60 * Second"

record MetricsConfig =
  Metrics_Host :: string
  Metrics_Port :: int
  Metrics_UpdateInterval :: Duration

record RemoteSignerCfg =
  RS_URL :: string
  RS_Timeout :: Duration
  RS_HMACKey :: string

record BBNConfig =
  BBN_Key :: string
  BBN_ChainID :: string
  BBN_RPCAddr :: string
  BBN_GRPCAddr :: string
  BBN_AccountPrefix :: string
  BBN_KeyringBackend :: string
  BBN_GasAdjustment :: rat
  BBN_GasPrices :: string
  BBN_KeyDirectory :: string
  BBN_Debug :: bool
  BBN_Timeout :: Duration
  BBN_BlockTimeout :: Duration
  BBN_OutputFormat :: string
  BBN_SignModeStr :: string

record Config =
  LogLevel :: string
  QueryInterval :: Duration
  DelegationLimit :: uint64
  SigsBatchSize :: uint64
  Cfg_MaxRetiresBatchRemovingMsgs :: uint64
  BitcoinNetwork :: string
  BTCNetParams :: NetParams
  Cfg_Metrics :: "MetricsConfig option"
  Cfg_BabylonConfig :: "BBNConfig option"
  Cfg_RemoteSigner :: "RemoteSignerCfg option"

section \<open>The packages\<close>

record chaincfg =
  MainNetParams :: NetParams
  TestNet3Params :: NetParams
  RegressionNetParams :: NetParams
  SimNetParams :: NetParams
  SigNetParams :: NetParams
  zeroNetParams :: NetParams

record BabylonConfig =
  BC_Key :: string
  BC_ChainID :: string
  BC_RPCAddr :: string
  BC_GRPCAddr :: string
  BC_AccountPrefix :: string
  BC_KeyringBackend :: string
  BC_GasAdjustment :: rat
  BC_GasPrices :: string
  BC_KeyDirectory :: string
  BC_Debug :: bool
  BC_Timeout :: Duration
  BC_BlockTimeout :: Duration
  BC_OutputFormat :: string
  BC_SignModeStr :: string
  BC_SubmitterAddress :: string

text \<open>The INI parser of go-flags: a file into a configuration that holds defaults, and back.\<close>

record 'w iniParser =
  ini_ParseFile :: "Config \<Rightarrow> string \<Rightarrow> ('w, Config) act"
  ini_WriteFile :: "Config \<Rightarrow> string \<Rightarrow> ('w, unit) act"

section \<open>Metrics and remote signer\<close>

definition ValidateMetrics :: "MetricsConfig \<Rightarrow> unit result" where
  "ValidateMetrics cfg =
     (if Metrics_Port cfg < 0 \<or> Metrics_Port cfg > 65535
      then Err (''invalid port: '' @ show_int (Metrics_Port cfg))
      else if \<not> ParseIP (Metrics_Host cfg) then Err (''invalid host: '' @ Metrics_Host cfg)
      else Ok ())"

definition Address :: "MetricsConfig \<Rightarrow> string result" where
  "Address cfg =
     bindR (ValidateMetrics cfg) (\<lambda>_. Ok (Metrics_Host cfg @ '':'' @ show_int (Metrics_Port cfg)))"

definition DefaultMetricsConfig :: MetricsConfig where
  "DefaultMetricsConfig = \<lparr>Metrics_Host = ''127.0.0.1'', Metrics_Port = 2112,
     Metrics_UpdateInterval = 100 * Millisecond\<rparr>"

definition DefaultRemoteSignerConfig :: RemoteSignerCfg where
  "DefaultRemoteSignerConfig = \<lparr>RS_URL = ''http://127.0.0.1:9791'', RS_Timeout = 2 * Second, RS_HMACKey = []\<rparr>"

section \<open>Babylon client\<close>

definition DefaultBBNConfig :: "BabylonConfig \<Rightarrow> BBNConfig" where
  "DefaultBBNConfig dc = \<lparr>BBN_Key = BC_Key dc, BBN_ChainID = BC_ChainID dc, BBN_RPCAddr = BC_RPCAddr dc,
     BBN_GRPCAddr = BC_GRPCAddr dc, BBN_AccountPrefix = BC_AccountPrefix dc,
     BBN_KeyringBackend = BC_KeyringBackend dc, BBN_GasAdjustment = 5 / 2, BBN_GasPrices = BC_GasPrices dc,
     BBN_KeyDirectory = [], BBN_Debug = BC_Debug dc, BBN_Timeout = BC_Timeout dc,
     BBN_BlockTimeout = 1 * Minute, BBN_OutputFormat = BC_OutputFormat dc, BBN_SignModeStr = BC_SignModeStr dc\<rparr>"

definition BBNConfigToBabylonConfig :: "BBNConfig \<Rightarrow> BabylonConfig" where
  "BBNConfigToBabylonConfig bc = \<lparr>BC_Key = BBN_Key bc, BC_ChainID = BBN_ChainID bc, BC_RPCAddr = BBN_RPCAddr bc,
     BC_GRPCAddr = [], BC_AccountPrefix = BBN_AccountPrefix bc, BC_KeyringBackend = BBN_KeyringBackend bc,
     BC_GasAdjustment = BBN_GasAdjustment bc, BC_GasPrices = BBN_GasPrices bc,
     BC_KeyDirectory = BBN_KeyDirectory bc, BC_Debug = BBN_Debug bc, BC_Timeout = BBN_Timeout bc,
     BC_BlockTimeout = BBN_BlockTimeout bc, BC_OutputFormat = BBN_OutputFormat bc,
     BC_SignModeStr = BBN_SignModeStr bc, BC_SubmitterAddress = []\<rparr>"

section \<open>The whole configuration\<close>

definition zeroConfig :: "chaincfg \<Rightarrow> Config" where
  "zeroConfig nets = \<lparr>LogLevel = [], QueryInterval = 0, DelegationLimit = 0, SigsBatchSize = 0,
     Cfg_MaxRetiresBatchRemovingMsgs = 0, BitcoinNetwork = [], BTCNetParams = zeroNetParams nets,
     Cfg_Metrics = None, Cfg_BabylonConfig = None, Cfg_RemoteSigner = None\<rparr>"

definition networkParams :: "chaincfg \<Rightarrow> string \<Rightarrow> NetParams option" where
  "networkParams nets name =
     (if name = ''mainnet'' then Some (MainNetParams nets)
      else if name = ''testnet'' then Some (TestNet3Params nets)
      else if name = ''regtest'' then Some (RegressionNetParams nets)
      else if name = ''simnet'' then Some (SimNetParams nets)
      else if name = ''signet'' then Some (SigNetParams nets)
      else None)"

text \<open>Validation sets the parameters of the network in the configuration it is called on.\<close>

definition Validate :: "chaincfg \<Rightarrow> Config \<Rightarrow> Config result" where
  "Validate nets cfg =
     (case Cfg_Metrics cfg of None \<Rightarrow> Err ''empty metrics config'' | Some metrics \<Rightarrow>
     bindR (mapErr (\<lambda>_. ''invalid metrics config'') (ValidateMetrics metrics)) (\<lambda>_.
     case networkParams nets (BitcoinNetwork cfg) of
       None \<Rightarrow> Err (''unsupported Bitcoin network: '' @ BitcoinNetwork cfg)
     | Some params \<Rightarrow> Ok (cfg\<lparr>BTCNetParams := params\<rparr>)))"

definition File :: "string \<Rightarrow> string" where
  "File homePath = JoinPath [homePath, ''covd.conf'']"

definition LogDir :: "string \<Rightarrow> string" where
  "LogDir homePath = JoinPath [homePath, ''logs'']"

definition LogFile :: "string \<Rightarrow> string" where
  "LogFile homePath = JoinPath [LogDir homePath, ''covd.log'']"

definition LoadConfig ::
  "'w host \<Rightarrow> 'w iniParser \<Rightarrow> chaincfg \<Rightarrow> string \<Rightarrow> ('w, Config) act" where
  "LoadConfig hst ini nets homePath = (\<lambda>w.
     if \<not> FileExists hst (File homePath) w
     then (Err (''specified config file does not exist in '' @ File homePath), w)
     else bindS (ini_ParseFile ini (zeroConfig nets) (File homePath)) (\<lambda>cfg.
          liftR (Validate nets cfg)) w)"

definition DefaultConfigWithHomePath :: "BabylonConfig \<Rightarrow> chaincfg \<Rightarrow> string \<Rightarrow> Config result" where
  "DefaultConfigWithHomePath dc nets homePath =
     (let bbnCfg = (DefaultBBNConfig dc)\<lparr>BBN_Key := ''covenant-key'', BBN_KeyDirectory := homePath\<rparr>;
          cfg = \<lparr>LogLevel = ''debug'', QueryInterval = 15 * Second, DelegationLimit = 100, SigsBatchSize = 30,
            Cfg_MaxRetiresBatchRemovingMsgs = 0, BitcoinNetwork = ''simnet'', BTCNetParams = SimNetParams nets,
            Cfg_Metrics = Some DefaultMetricsConfig, Cfg_BabylonConfig = Some bbnCfg,
            Cfg_RemoteSigner = Some DefaultRemoteSignerConfig\<rparr>
      in case Validate nets cfg of Ok c \<Rightarrow> Ok c | Err e \<Rightarrow> Panic e | Panic p \<Rightarrow> Panic p)"

section \<open>Lemmas\<close>

lemma ValidateMetrics_Ok_iff [act_simps]:
  "ValidateMetrics cfg = Ok u \<longleftrightarrow> 0 \<le> Metrics_Port cfg \<and> Metrics_Port cfg \<le> 65535 \<and> ParseIP (Metrics_Host cfg)"
  by (auto simp: ValidateMetrics_def)

lemma ValidateMetrics_no_panic: "ValidateMetrics cfg \<noteq> Panic p"
  by (simp add: ValidateMetrics_def)

lemma Validate_Ok_iff:
  "Validate nets cfg = Ok cfg' \<longleftrightarrow>
     (\<exists>metrics params. Cfg_Metrics cfg = Some metrics \<and> ValidateMetrics metrics = Ok ()
        \<and> networkParams nets (BitcoinNetwork cfg) = Some params \<and> cfg' = cfg\<lparr>BTCNetParams := params\<rparr>)"
  by (auto simp: Validate_def act_simps split: option.splits)

lemma Validate_no_panic: "Validate nets cfg \<noteq> Panic p"
  using ValidateMetrics_no_panic by (auto simp: Validate_def act_simps split: option.splits)

lemma networkParams_Some_iff:
  "(\<exists>params. networkParams nets name = Some params) \<longleftrightarrow>
     name \<in> {''mainnet'', ''testnet'', ''regtest'', ''simnet'', ''signet''}"
  by (auto simp: networkParams_def)

lemma DefaultConfig_valid:
  "\<exists>cfg. DefaultConfigWithHomePath dc nets homePath = Ok cfg \<and> Validate nets cfg = Ok cfg
     \<and> SigsBatchSize cfg = 30 \<and> QueryInterval cfg = 15000000000 \<and> LogLevel cfg = ''debug''"
  by (simp add: DefaultConfigWithHomePath_def Validate_def ValidateMetrics_def DefaultMetricsConfig_def
      networkParams_def Let_def Second_def Millisecond_def Nanosecond_def)

lemma home_files:
  assumes "Clean h = h" "h \<notin> {[], ''/'', ''.''}"
  shows "File h = h @ ''/covd.conf''" "LogDir h = h @ ''/logs''" "LogFile h = h @ ''/logs/covd.log''"
proof -
  have plain: "plainElem ''covd.conf'' \<and> ''covd.conf'' \<noteq> dotdot" "plainElem ''logs'' \<and> ''logs'' \<noteq> dotdot"
    "plainElem ''covd.log'' \<and> ''covd.log'' \<noteq> dotdot"
    by (simp_all add: plainElem_def sep_def dotdot_def)
  show "File h = h @ ''/covd.conf''"
    using Join_clean(1) [OF assms] plain(1) by (simp add: File_def sep_def)
  have dir: "LogDir h = h @ ''/logs''" "Clean (h @ ''/logs'') = h @ ''/logs''"
    using Join_clean [OF assms] plain(2) by (simp_all add: LogDir_def sep_def)
  then show "LogDir h = h @ ''/logs''" by simp
  have "h @ ''/logs'' \<notin> {[], ''/'', ''.''}" by (cases h) auto
  from Join_clean(1) [OF dir(2) this] plain(3) show "LogFile h = h @ ''/logs/covd.log''"
    by (simp add: LogFile_def dir(1) sep_def)
qed

end
