(* ===== verification/Emulator.thy ===== *)
theory Emulator
  imports SigningChecks Acceptance Metrics CovConfig "HOL-Library.Sublist"
begin

text \<open>
  The emulator (\<^verbatim>\<open>covenant/covenant.go\<close>): signing and submitting a list of delegations, splitting
  the pending delegations into batches, and one tick of the submission loop. The signer and the
  chain client are the interfaces \<^verbatim>\<open>Signer\<close> and \<^verbatim>\<open>ClientController\<close>: records of actions on the
  outside world, filled by the theories of their implementations.

  The lemmas trace every submitted signature back to one delegation of the input that passed all
  checks, in order and at most once; account for the metrics on success and on failure; say when
  the call panics; and give the shape of the batches.
\<close>

section \<open>Interfaces and state\<close>

record 'w Signer =
  Signer_SignTransactions :: "SigningRequest \<Rightarrow> ('w, SignaturesResponse) act"
  Signer_PubKey :: "('w, PublicKey) act"

record 'w ClientController =
  CC_SubmitCovenantSigs :: "CovenantSigs list \<Rightarrow> ('w, TxResponse) act"
  CC_QueryPendingDelegations ::
    "uint64 \<Rightarrow> (Delegation \<Rightarrow> ('w emu, bool) act) \<Rightarrow> 'w emu \<Rightarrow> (Delegation list result \<times> 'w emu) option"
  CC_QueryBTCDelegation :: "string \<Rightarrow> ('w, Delegation) act"
  CC_QueryStakingParamsByVersion :: "uint32 \<Rightarrow> ('w, StakingParams) act"

text \<open>
  The constant part of the emulator. The parameter cache is created by the constructor from the
  client, so the getter is determined by the client and \<^verbatim>\<open>retry.Do\<close>; its map, like all that
  changes, is in the state.
\<close>

record 'w Emulator =
  em_pk :: PublicKey
  em_signer :: "'w Signer"
  em_cc :: "'w ClientController"
  em_config :: Config
  em_retryDo :: "nat \<Rightarrow> ('w, StakingParams) act \<Rightarrow> ('w, StakingParams) act"
  em_clock :: "'w \<Rightarrow> int \<times> 'w"

definition NewEmulator ::
  "(nat \<Rightarrow> ('w, StakingParams) act \<Rightarrow> ('w, StakingParams) act) \<Rightarrow> ('w \<Rightarrow> int \<times> 'w) \<Rightarrow> Config
    \<Rightarrow> 'w ClientController \<Rightarrow> 'w Signer \<Rightarrow> ('w, 'w Emulator) act" where
  "NewEmulator retryDo clock config cc signr =
     bindS (mapErrS (\<lambda>e. ''failed to get signer pub key: '' @ e) (Signer_PubKey signr)) (\<lambda>pk.
     returnS \<lparr>em_pk = pk, em_signer = signr, em_cc = cc, em_config = config,
              em_retryDo = retryDo, em_clock = clock\<rparr>)"

definition PublicKeyStr :: "btclib \<Rightarrow> 'w Emulator \<Rightarrow> string" where
  "PublicKeyStr blib ce = EncodeToString (SerializePubKey blib (em_pk ce))"

definition emGet :: "'w Emulator \<Rightarrow> uint32 \<Rightarrow> ('w emu, StakingParams) act" where
  "emGet ce = Get (em_retryDo ce) (CC_QueryStakingParamsByVersion (em_cc ce))"

section \<open>Signing one delegation\<close>

definition SignTransactions :: "'w Emulator \<Rightarrow> SigningRequest \<Rightarrow> ('w emu, SignaturesResponse) act" where
  "SignTransactions ce signingReq =
     bindS (timeNow (em_clock ce)) (\<lambda>startSignTime.
     bindS (SetPreviousSignStart startSignTime) (\<lambda>_.
     bindS (onWorld (Signer_SignTransactions (em_signer ce) signingReq)) (\<lambda>resp.
     bindS (timeNow (em_clock ce)) (\<lambda>finishSignTime.
     bindS (SetPreviousSignFinish finishSignTime) (\<lambda>_.
     bindS (timeSince (em_clock ce) startSignTime) (\<lambda>lag.
     bindS (observeSignLag lag) (\<lambda>_.
     returnS resp)))))))"

definition buildStkExpSigningRequest ::
  "'w Emulator \<Rightarrow> btclib \<Rightarrow> stakinglib \<Rightarrow> Delegation option \<Rightarrow> ('w emu, SigningRequestStkExp) act" where
  "buildStkExpSigningRequest ce blib slib btcDel =
     (case btcDel of None \<Rightarrow> failS ''stake expansion is nil in the delegation'' | Some del \<Rightarrow>
     (case StakeExpansion del of None \<Rightarrow> failS ''stake expansion is nil in the delegation'' | Some stkExp \<Rightarrow>
     catchS (liftR (stakeExpValidateBasic blib slib (Some del)))
       (\<lambda>e. bindS (logError ''invalid stake expansion delegation'') (\<lambda>_. failS e)) (\<lambda>fundingTxOut.
     catchS (onWorld (CC_QueryBTCDelegation (em_cc ce) (PreviousStakingTxHashHex stkExp)))
       (\<lambda>e. bindS (logError ''failed to query stake expansion'') (\<lambda>_. failS e)) (\<lambda>prevDel.
     catchS (liftR (BBN_NewBTCTxFromHex slib (StakingTxHex prevDel)))
       (\<lambda>e. bindS (logError ''failed to decode stake expansion tx'') (\<lambda>_. failS e)) (\<lambda>previousActiveStkTx.
     bindS (mapErrS (\<lambda>e. ''failed to get staking params with version ''
                          @ show_nat (unat (ParamsVersion del)) @ '': '' @ e)
              (emGet ce (ParamsVersion prevDel))) (\<lambda>prevDelParams.
     bindS (liftR (pkScriptPathSlashAndUnbond slib prevDel prevDelParams (BTCNetParams (em_config ce))))
       (\<lambda>(_, prevStakingTxUnbondingPkScriptPath).
     returnS \<lparr>PreviousActiveStakeTx = previousActiveStkTx, OtherFundingOutput = fundingTxOut,
       PreviousStakingOutputIdx = StakingOutputIdx prevDel,
       PreviousActiveStakeUnbondingPkScriptPath = prevStakingTxUnbondingPkScriptPath\<rparr>)))))))"

text \<open>\<^verbatim>\<open>logger.Error(msg); continue\<close>\<close>

definition skipDelegation :: "string \<Rightarrow> ('w emu, 'a option) act" where
  "skipDelegation msg = bindS (logError msg) (\<lambda>_. returnS None)"

text \<open>Step 9: the request is extended when the delegation is a stake expansion.\<close>

definition stakeExpRequest ::
  "'w Emulator \<Rightarrow> btclib \<Rightarrow> stakinglib \<Rightarrow> Delegation \<Rightarrow> ('w emu, SigningRequestStkExp option) act" where
  "stakeExpRequest ce blib slib btcDel =
     (if IsStakeExpansion btcDel
      then bindS (buildStkExpSigningRequest ce blib slib (Some btcDel)) (\<lambda>r. returnS (Some r))
      else returnS None)"

text \<open>
  The loop body of \<^verbatim>\<open>AddCovenantSignatures\<close>: \<open>None\<close> for a delegation that is skipped. The
  check for a nil delegation logs a field of it, which follows the nil pointer.
\<close>

definition signDelegation ::
  "'w Emulator \<Rightarrow> btclib \<Rightarrow> stakinglib \<Rightarrow> Delegation option \<Rightarrow> ('w emu, CovenantSigs option) act" where
  "signDelegation ce blib slib btcDel =
     bindS (liftR (derefR btcDel)) (\<lambda>del.
     case BtcUndelegation del of None \<Rightarrow> skipDelegation ''empty undelegation'' | Some undel \<Rightarrow>
     bindS (mapErrS (\<lambda>e. ''failed to get staking params with version ''
                          @ show_nat (unat (ParamsVersion del)) @ '': '' @ e)
              (emGet ce (ParamsVersion del))) (\<lambda>params.
     catchS (liftR (checkDelegation slib (BTCNetParams (em_config ce)) params del)) skipDelegation (\<lambda>req.
     catchS (stakeExpRequest ce blib slib del)
       (\<lambda>_. skipDelegation ''error building stake expansion request'') (\<lambda>stkExpReq.
     catchS (SignTransactions ce (req\<lparr>Req_StakeExp := stkExpReq\<rparr>))
       (\<lambda>_. skipDelegation ''failed to sign transactions'') (\<lambda>resp.
     returnS (Some \<lparr>CS_PublicKey = em_pk ce, CS_StakingTxHash = TxHash blib (Req_StakingTx req),
       CS_SlashingSigs = SlashSigs resp, CS_UnbondingSig = UnbondingSig resp,
       CS_SlashingUnbondingSigs = SlashUnbondingSigs resp, CS_StkExpSig = StkExtSig resp\<rparr>))))))"

section \<open>Signing and submitting a batch\<close>

fun signDelegations ::
  "'w Emulator \<Rightarrow> btclib \<Rightarrow> stakinglib \<Rightarrow> Delegation option list \<Rightarrow> ('w emu, CovenantSigs list) act" where
  "signDelegations ce blib slib [] = returnS []"
| "signDelegations ce blib slib (btcDel # btcDels) =
     bindS (signDelegation ce blib slib btcDel) (\<lambda>sigs.
     bindS (signDelegations ce blib slib btcDels) (\<lambda>rest.
     returnS (case sigs of None \<Rightarrow> rest | Some cs \<Rightarrow> cs # rest)))"

definition AddCovenantSignatures ::
  "'w Emulator \<Rightarrow> btclib \<Rightarrow> stakinglib \<Rightarrow> Delegation option list \<Rightarrow> ('w emu, TxResponse) act" where
  "AddCovenantSignatures ce blib slib btcDels =
     (if btcDels = [] then failS ''no delegations''
      else
        bindS (signDelegations ce blib slib btcDels) (\<lambda>covenantSigs.
        catchS (onWorld (CC_SubmitCovenantSigs (em_cc ce) covenantSigs))
          (\<lambda>e. bindS (recordMetricsFailedSignDelegations (length covenantSigs)) (\<lambda>_. failS e)) (\<lambda>res.
        bindS (timeNow (em_clock ce)) (\<lambda>submittedTime.
        bindS (SetPreviousSubmission submittedTime) (\<lambda>_.
        bindS (recordMetricsTotalSignDelegationsSubmitted (length covenantSigs)) (\<lambda>_.
        returnS res))))))"

section \<open>Batches and the submission loop\<close>

text \<open>
  The loop of \<^verbatim>\<open>delegationsToBatches\<close>; slicing with an end before the start panics. With a batch
  size of 0 the loop never ends, so it is a partial function.
\<close>

partial_function (option) batchLoop ::
  "uint64 \<Rightarrow> 'a list \<Rightarrow> uint64 \<Rightarrow> 'a list list \<Rightarrow> 'a list list result option" where
  "batchLoop batchSize dels i batches =
     (if i < word_of_nat (length dels) then
        let end0 = i + batchSize;
            end1 = (if end0 > word_of_nat (length dels) then word_of_nat (length dels) else end0)
        in if end1 < i then Some (Panic ''runtime error: slice bounds out of range'')
           else batchLoop batchSize dels (i + batchSize)
                  (batches @ [take (unat end1 - unat i) (drop (unat i) dels)])
      else Some (Ok batches))"

definition delegationsToBatches :: "'w Emulator \<Rightarrow> 'a list \<Rightarrow> 'a list list result option" where
  "delegationsToBatches ce dels = batchLoop (SigsBatchSize (em_config ce)) dels 0 []"

definition emAcceptDelegationToSign ::
  "'w Emulator \<Rightarrow> btclib \<Rightarrow> stakinglib \<Rightarrow> Delegation \<Rightarrow> ('w emu, bool) act" where
  "emAcceptDelegationToSign ce blib slib del =
     acceptDelegationToSign (emGet ce) (\<lambda>h. onWorld (CC_QueryBTCDelegation (em_cc ce) h)) blib slib
       (em_pk ce) del"

text \<open>The batches are submitted one after the other; a failed one is logged and the next follows.\<close>

fun submitBatches ::
  "'w Emulator \<Rightarrow> btclib \<Rightarrow> stakinglib \<Rightarrow> Delegation list list \<Rightarrow> ('w emu, unit) act" where
  "submitBatches ce blib slib [] = returnS ()"
| "submitBatches ce blib slib (delBatch # batches) =
     bindS (catchS (AddCovenantSignatures ce blib slib (map Some delBatch))
              (\<lambda>e. logError ''failed to submit covenant signatures for BTC delegations'')
              (\<lambda>_. returnS ())) (\<lambda>_.
     submitBatches ce blib slib batches)"

text \<open>One tick of the loop; \<open>None\<close> when the query or the split never returns.\<close>

definition submissionTick ::
  "'w Emulator \<Rightarrow> btclib \<Rightarrow> stakinglib \<Rightarrow> 'w emu \<Rightarrow> (unit result \<times> 'w emu) option" where
  "submissionTick ce blib slib s =
     (case CC_QueryPendingDelegations (em_cc ce) (DelegationLimit (em_config ce))
             (emAcceptDelegationToSign ce blib slib) s of
        None \<Rightarrow> None
      | Some (Err e, s1) \<Rightarrow> Some (Ok (), s1)
      | Some (Panic p, s1) \<Rightarrow> Some (Panic p, s1)
      | Some (Ok dels, s1) \<Rightarrow>
          (case recordMetricsCurrentPendingDelegations (length dels) s1 of (_, s2) \<Rightarrow>
           if length dels = 0 then Some (Ok (), s2)
           else
             (case delegationsToBatches ce dels of
                None \<Rightarrow> None
              | Some r \<Rightarrow> Some (bindS (liftR r) (submitBatches ce blib slib) s2))))"

section \<open>Lemmas: batches\<close>

text \<open>The reference: consecutive pieces of a fixed length, the last one possibly shorter.\<close>

fun chunks :: "nat \<Rightarrow> 'a list \<Rightarrow> 'a list list" where
  "chunks n xs = (if n = 0 \<or> xs = [] then [] else take n xs # chunks n (drop n xs))"

declare chunks.simps [simp del]

lemma chunks_Nil [simp]: "chunks n [] = []"
  by (simp add: chunks.simps)

lemma chunks_step: "0 < n \<Longrightarrow> xs \<noteq> [] \<Longrightarrow> chunks n xs = take n xs # chunks n (drop n xs)"
  by (subst chunks.simps) simp

lemma concat_chunks: "0 < n \<Longrightarrow> concat (chunks n xs) = xs"
  by (induction n xs rule: chunks.induct) (subst chunks.simps, auto)

lemma chunks_size: "b \<in> set (chunks n xs) \<Longrightarrow> b \<noteq> [] \<and> length b \<le> n"
  by (induction n xs rule: chunks.induct) (subst (asm) (2) chunks.simps, auto split: if_splits)

lemma chunks_full: "b \<in> set (butlast (chunks n xs)) \<Longrightarrow> length b = n"
proof (induction n xs rule: chunks.induct)
  case (1 n xs)
  show ?case
  proof (cases "n = 0 \<or> drop n xs = []")
    case True
    then have "butlast (chunks n xs) = []"
      by (subst chunks.simps) (auto simp: chunks.simps [of n "[]"])
    with "1.prems" show ?thesis by simp
  next
    case False
    then have "xs \<noteq> []" and "chunks n (drop n xs) \<noteq> []" by (auto simp: chunks_step)
    with False "1.prems" have "b = take n xs \<or> b \<in> set (butlast (chunks n (drop n xs)))"
      by (simp add: chunks_step [of n xs])
    with False "1.IH" \<open>xs \<noteq> []\<close> show ?thesis by auto
  qed
qed

lemma batchLoop_chunks:
  assumes "0 < bs" and "length dels < 2 ^ 63"
    and "i = 0 \<or> unat bs < 2 ^ 63 \<or> length dels \<le> unat i"
  shows "batchLoop bs dels i acc = Some (Ok (acc @ chunks (unat bs) (drop (unat i) dels)))"
  using assms(3)
proof (induction "length dels - unat i" arbitrary: i acc rule: less_induct)
  case less
  let ?n = "word_of_nat (length dels) :: uint64"
  have n: "unat ?n = length dels" using assms(2) by (intro unat_word_of_nat64) simp
  have bs: "0 < unat bs" using assms(1) by (simp add: word_less_nat_alt)
  show ?case
  proof (cases "i < ?n")
    case False
    then show ?thesis using n by (subst batchLoop.simps) (simp add: word_less_nat_alt)
  next
    case True
    then have i: "unat i < length dels" using n by (simp add: word_less_nat_alt)
    then have "unat i + unat bs < 2 ^ 64"
      using less.prems assms(2) unat_uint64_less [of bs] by auto
    then have next_i: "unat (i + bs) = unat i + unat bs"
      by (simp add: unat_word_ariths)
    have IH: "batchLoop bs dels (i + bs) acc'
        = Some (Ok (acc' @ chunks (unat bs) (drop (unat (i + bs)) dels)))" for acc'
    proof (rule less.hyps)
      show "length dels - unat (i + bs) < length dels - unat i" using bs i next_i by simp
      show "i + bs = 0 \<or> unat bs < 2 ^ 63 \<or> length dels \<le> unat (i + bs)"
        using less.prems i next_i assms(2) by auto
    qed
    let ?e = "if i + bs > ?n then ?n else i + bs"
    have e: "unat ?e = min (length dels) (unat i + unat bs)"
      using n next_i by (simp add: word_less_nat_alt min_def)
    have "\<not> ?e < i" using e i by (simp add: word_less_nat_alt)
    moreover have "take (unat ?e - unat i) (drop (unat i) dels) = take (unat bs) (drop (unat i) dels)"
      unfolding e by (simp add: min_def)
    ultimately show ?thesis
      using True IH bs i next_i
      by (subst batchLoop.simps)
         (cases "?n < i + bs"; simp add: Let_def chunks_step [of _ "drop (unat i) dels"] add.commute)
  qed
qed

lemma batchLoop_zero_diverges:
  assumes "i < word_of_nat (length dels)"
  shows "batchLoop 0 dels i acc = None"
proof -
  have "bs = 0 \<longrightarrow> \<not> j < word_of_nat (length ds)" if "batchLoop bs ds j a = Some r"
    for bs and ds :: "'a list" and j a r
    by (rule batchLoop.raw_induct [where P = "\<lambda>bs ds j a r. bs = 0 \<longrightarrow> \<not> j < word_of_nat (length ds)",
          OF _ that]) (auto simp: Let_def split: if_splits)
  with assms show ?thesis by (metis not_None_eq)
qed

section \<open>Lemmas: one delegation\<close>

text \<open>
  What a signature is traced back to: the parameters of the delegation's version, a request that
  passes the checks under them, the stake expansion part, and one answer of the signer.
\<close>

definition signedFor ::
  "'w Emulator \<Rightarrow> btclib \<Rightarrow> stakinglib \<Rightarrow> Delegation option \<Rightarrow> CovenantSigs \<Rightarrow> bool" where
  "signedFor ce blib slib btcDel sigs \<longleftrightarrow>
     (\<exists>del undel params req stkExp resp w w'.
        btcDel = Some del \<and> BtcUndelegation del = Some undel
        \<and> (\<exists>t t'. emGet ce (ParamsVersion del) t = (Ok params, t'))
        \<and> meetsParams params del undel
        \<and> requestFor slib (BTCNetParams (em_config ce)) params del undel req
        \<and> (\<exists>t t'. stakeExpRequest ce blib slib del t = (Ok stkExp, t'))
        \<and> Signer_SignTransactions (em_signer ce) (req\<lparr>Req_StakeExp := stkExp\<rparr>) w = (Ok resp, w')
        \<and> sigs = \<lparr>CS_PublicKey = em_pk ce, CS_StakingTxHash = TxHash blib (Req_StakingTx req),
            CS_SlashingSigs = SlashSigs resp, CS_UnbondingSig = UnbondingSig resp,
            CS_SlashingUnbondingSigs = SlashUnbondingSigs resp, CS_StkExpSig = StkExtSig resp\<rparr>)"

lemma onWorld_Ok_E:
  assumes "onWorld m s = (r, s')"
  obtains w where "m (world s) = (r, w)" "s' = s\<lparr>world := w\<rparr>"
  using assms by (auto simp: onWorld_def split: prod.splits)

lemma SignTransactions_Ok:
  assumes "SignTransactions ce req s = (Ok resp, s')"
  obtains w' where "Signer_SignTransactions (em_signer ce) req (snd (em_clock ce (world s))) = (Ok resp, w')"
  using assms
  by (auto simp: SignTransactions_def timeNow_def recorder_defs onWorld_def act_simps split: prod.splits)

lemma skipDelegation_apply [simp]:
  "skipDelegation msg s = (Ok None, s\<lparr>errorLog := errorLog s @ [msg]\<rparr>)"
  by (simp add: skipDelegation_def logError_def)

lemma signDelegation_SomeE:
  assumes "signDelegation ce blib slib btcDel s = (Ok (Some sigs), s')"
  obtains del undel params req stkExp resp t0 t1 where "btcDel = Some del" "BtcUndelegation del = Some undel"
    "emGet ce (ParamsVersion del) s = (Ok params, t0)"
    "checkDelegation slib (BTCNetParams (em_config ce)) params del = Ok req"
    "stakeExpRequest ce blib slib del t0 = (Ok stkExp, t1)"
    "SignTransactions ce (req\<lparr>Req_StakeExp := stkExp\<rparr>) t1 = (Ok resp, s')"
    "sigs = \<lparr>CS_PublicKey = em_pk ce, CS_StakingTxHash = TxHash blib (Req_StakingTx req),
       CS_SlashingSigs = SlashSigs resp, CS_UnbondingSig = UnbondingSig resp,
       CS_SlashingUnbondingSigs = SlashUnbondingSigs resp, CS_StkExpSig = StkExtSig resp\<rparr>"
proof -
  from assms obtain del undel where d: "btcDel = Some del" "BtcUndelegation del = Some undel"
    by (auto simp: signDelegation_def act_simps split: option.splits)
  with assms obtain params t0 where p: "emGet ce (ParamsVersion del) s = (Ok params, t0)"
    and "catchS (liftR (checkDelegation slib (BTCNetParams (em_config ce)) params del)) skipDelegation (\<lambda>req.
       catchS (stakeExpRequest ce blib slib del)
         (\<lambda>_. skipDelegation ''error building stake expansion request'') (\<lambda>stkExpReq.
       catchS (SignTransactions ce (req\<lparr>Req_StakeExp := stkExpReq\<rparr>))
         (\<lambda>_. skipDelegation ''failed to sign transactions'') (\<lambda>resp.
       returnS (Some \<lparr>CS_PublicKey = em_pk ce, CS_StakingTxHash = TxHash blib (Req_StakingTx req),
         CS_SlashingSigs = SlashSigs resp, CS_UnbondingSig = UnbondingSig resp,
         CS_SlashingUnbondingSigs = SlashUnbondingSigs resp, CS_StkExpSig = StkExtSig resp\<rparr>)))) t0
       = (Ok (Some sigs), s')"
    by (auto simp: signDelegation_def act_simps)
  then show thesis using that [OF d p] by (auto elim!: catchS_Ok_E)
qed

lemma signDelegation_signed:
  assumes "signDelegation ce blib slib btcDel s = (Ok (Some sigs), s')"
  shows "signedFor ce blib slib btcDel sigs"
  using assms
proof (cases rule: signDelegation_SomeE)
  case (1 del undel params req stkExp resp t0 t1)
  from 1(6) obtain w w' where "Signer_SignTransactions (em_signer ce) (req\<lparr>Req_StakeExp := stkExp\<rparr>) w
      = (Ok resp, w')"
    by (rule SignTransactions_Ok)
  with 1 show ?thesis
    unfolding signedFor_def checkDelegation_Ok_iff [OF 1(2)] by blast
qed

lemma signDelegations_signed:
  assumes "signDelegations ce blib slib dels s = (Ok sigs, s')"
  shows "\<exists>ds. subseq ds dels \<and> list_all2 (signedFor ce blib slib) ds sigs"
  using assms
proof (induction dels arbitrary: s sigs s')
  case Nil
  then have "sigs = []" by simp
  then have "subseq [] [] \<and> list_all2 (signedFor ce blib slib) [] sigs" by simp
  then show ?case by blast
next
  case (Cons d dels)
  then obtain o1 t rest t' where 1: "signDelegation ce blib slib d s = (Ok o1, t)"
    and 2: "signDelegations ce blib slib dels t = (Ok rest, t')"
    and sigs: "sigs = (case o1 of None \<Rightarrow> rest | Some cs \<Rightarrow> cs # rest)"
    by (auto simp: act_simps)
  from Cons.IH [OF 2] obtain ds where ds: "subseq ds dels" "list_all2 (signedFor ce blib slib) ds rest"
    by blast
  show ?case
  proof (cases o1)
    case None
    with ds sigs show ?thesis by (auto intro: exI [of _ ds])
  next
    case (Some cs)
    with 1 have "signedFor ce blib slib d cs" by (auto intro: signDelegation_signed)
    with ds sigs Some have "subseq (d # ds) (d # dels) \<and> list_all2 (signedFor ce blib slib) (d # ds) sigs"
      by simp
    then show ?thesis by blast
  qed
qed

section \<open>Lemmas: a batch\<close>

text \<open>Signing leaves the two counters alone and keeps every cached parameter.\<close>

lemma keeps_emGet [keeps_intros]:
  assumes "\<And>s w. I s \<Longrightarrow> I (s\<lparr>world := w\<rparr>)"
    and "\<And>s m. I s \<Longrightarrow> paramsByVersion s \<subseteq>\<^sub>m m \<Longrightarrow> I (s\<lparr>paramsByVersion := m\<rparr>)"
  shows "keeps I (emGet ce v)"
proof (rule keepsI)
  fix s r s'
  assume "I s" and eq: "emGet ce v s = (r, s')"
  have "s' = s \<or> (\<exists>w. s' = s\<lparr>world := w\<rparr>)
      \<or> (\<exists>w p. paramsByVersion s v = None \<and> s' = s\<lparr>world := w, paramsByVersion := (paramsByVersion s)(v \<mapsto> p)\<rparr>)"
    using eq by (cases "paramsByVersion s v")
      (auto simp: emGet_def Get_hit Get_miss split: prod.splits result.splits)
  with \<open>I s\<close> assms(1) show "I s'"
    using assms(2) [of "s\<lparr>world := _\<rparr>"] by (auto simp: map_le_def dom_def)
qed

definition keepsSigning :: "('w emu \<Rightarrow> bool) \<Rightarrow> bool" where
  "keepsSigning I \<longleftrightarrow>
     (\<forall>s w. I s \<longrightarrow> I (s\<lparr>world := w\<rparr>))
     \<and> (\<forall>s m. I s \<longrightarrow> paramsByVersion s \<subseteq>\<^sub>m m \<longrightarrow> I (s\<lparr>paramsByVersion := m\<rparr>))
     \<and> (\<forall>s l. I s \<longrightarrow> I (s\<lparr>errorLog := l\<rparr>))
     \<and> (\<forall>s t. I s \<longrightarrow> I (s\<lparr>previousLocalSignStart := t\<rparr>))
     \<and> (\<forall>s t. I s \<longrightarrow> I (s\<lparr>previousLocalSignFinish := t\<rparr>))
     \<and> (\<forall>s l. I s \<longrightarrow> I (s\<lparr>timedSignDelegationLag := l\<rparr>))"

lemma keeps_SignTransactions:
  "keepsSigning I \<Longrightarrow> keeps I (SignTransactions ce req)"
  unfolding SignTransactions_def timeNow_def timeSince_def recorder_defs keepsSigning_def
  by (intro keeps_intros keeps_modifyS) auto

lemma keeps_buildStkExpSigningRequest:
  "keepsSigning I \<Longrightarrow> keeps I (buildStkExpSigningRequest ce blib slib d)"
  unfolding buildStkExpSigningRequest_def recorder_defs keepsSigning_def
  by (intro keeps_intros keeps_modifyS) auto

lemma keeps_signDelegation:
  assumes "keepsSigning I"
  shows "keeps I (signDelegation ce blib slib d)"
proof -
  have "keeps I (skipDelegation msg)" for msg
    using assms unfolding skipDelegation_def logError_def keepsSigning_def
    by (intro keeps_intros keeps_modifyS) auto
  then show ?thesis
    unfolding signDelegation_def stakeExpRequest_def
    by (intro keeps_intros keeps_SignTransactions keeps_buildStkExpSigningRequest assms)
       (use assms in \<open>auto simp: keepsSigning_def\<close>)
qed

lemma keeps_signDelegations:
  "keepsSigning I \<Longrightarrow> keeps I (signDelegations ce blib slib ds)"
  by (induction ds) (auto intro!: keeps_intros keeps_signDelegation)

lemma signDelegations_frame:
  assumes "signDelegations ce blib slib ds s = (r, s')"
  shows "counters s' = counters s" and "previousSubmission s' = previousSubmission s"
    and "paramsByVersion s \<subseteq>\<^sub>m paramsByVersion s'"
proof -
  have "keepsSigning (\<lambda>t. counters t = counters s \<and> previousSubmission t = previousSubmission s
      \<and> paramsByVersion s \<subseteq>\<^sub>m paramsByVersion t)"
    by (auto simp: keepsSigning_def counters_def intro: map_le_trans)
  from keepsD [OF keeps_signDelegations [OF this] _ assms]
  show "counters s' = counters s" and "previousSubmission s' = previousSubmission s"
    and "paramsByVersion s \<subseteq>\<^sub>m paramsByVersion s'" by auto
qed

lemma AddCovenantSignatures_Ok:
  assumes "AddCovenantSignatures ce blib slib dels s = (Ok res, s')"
  obtains ds sigs w w' where "subseq ds dels" "list_all2 (signedFor ce blib slib) ds sigs"
    "CC_SubmitCovenantSigs (em_cc ce) sigs w = (Ok res, w')"
    "totalSignDelegationsSubmitted s' = totalSignDelegationsSubmitted s + length sigs"
    "failedSignDelegations s' = failedSignDelegations s"
    "previousSubmission s' = Some (fst (em_clock ce w'))"
proof -
  from assms obtain sigs t where 1: "signDelegations ce blib slib dels s = (Ok sigs, t)"
    and 2: "catchS (onWorld (CC_SubmitCovenantSigs (em_cc ce) sigs))
          (\<lambda>e. bindS (recordMetricsFailedSignDelegations (length sigs)) (\<lambda>_. failS e)) (\<lambda>res.
        bindS (timeNow (em_clock ce)) (\<lambda>submittedTime.
        bindS (SetPreviousSubmission submittedTime) (\<lambda>_.
        bindS (recordMetricsTotalSignDelegationsSubmitted (length sigs)) (\<lambda>_.
        returnS res)))) t = (Ok res, s')"
    by (auto simp: AddCovenantSignatures_def act_simps split: if_splits)
  from 2 obtain w where w: "CC_SubmitCovenantSigs (em_cc ce) sigs (world t) = (Ok res, w)"
    and s': "s' = t\<lparr>world := snd (em_clock ce w), previousSubmission := Some (fst (em_clock ce w)),
      totalSignDelegationsSubmitted := totalSignDelegationsSubmitted t + length sigs\<rparr>"
    by (auto simp: recorder_defs elim!: catchS_Ok_E onWorld_Ok_E)
  from signDelegations_signed [OF 1] obtain ds where "subseq ds dels"
    "list_all2 (signedFor ce blib slib) ds sigs" by blast
  with w signDelegations_frame [OF 1] show thesis
    by (intro that [of ds sigs "world t" w]) (auto simp: s' counters_def)
qed

text \<open>An error while signing is a failure to get the parameters of one of the delegations.\<close>

definition paramsFailed :: "'w Emulator \<Rightarrow> Delegation option \<Rightarrow> error \<Rightarrow> bool" where
  "paramsFailed ce btcDel e \<longleftrightarrow>
     (\<exists>del e0 t t'. btcDel = Some del \<and> emGet ce (ParamsVersion del) t = (Err e0, t')
        \<and> e = ''failed to get staking params with version ''
                @ show_nat (unat (ParamsVersion del)) @ '': '' @ e0)"

lemma catchS_Err_E:
  assumes "catchS m h f s = (Err e, s')"
  obtains (ok) a t where "m s = (Ok a, t)" "f a t = (Err e, s')"
    | (err) e' t where "m s = (Err e', t)" "h e' t = (Err e, s')"
  using assms by (auto simp: catchS_def split: prod.splits result.splits)

lemma signDelegation_Err:
  assumes "signDelegation ce blib slib btcDel s = (Err e, s')"
  shows "paramsFailed ce btcDel e"
proof (cases btcDel)
  case None
  with assms show ?thesis by (simp add: signDelegation_def)
next
  case (Some del)
  with assms show ?thesis
    by (cases "BtcUndelegation del")
       (auto simp: signDelegation_def paramsFailed_def act_simps elim!: catchS_Err_E)
qed

lemma signDelegations_Err:
  "signDelegations ce blib slib ds s = (Err e, s') \<Longrightarrow> \<exists>d \<in> set ds. paramsFailed ce d e"
  by (induction ds arbitrary: s) (auto simp: act_simps dest: signDelegation_Err)

lemma AddCovenantSignatures_Err:
  assumes "AddCovenantSignatures ce blib slib dels s = (Err e, s')"
  shows "dels = [] \<and> e = ''no delegations'' \<and> s' = s
    \<or> (\<exists>d \<in> set dels. paramsFailed ce d e) \<and> counters s' = counters s
    \<or> (\<exists>sigs w w'. CC_SubmitCovenantSigs (em_cc ce) sigs w = (Err e, w')
         \<and> totalSignDelegationsSubmitted s' = totalSignDelegationsSubmitted s
         \<and> failedSignDelegations s' = failedSignDelegations s + length sigs)"
proof (cases "dels = []")
  case True
  with assms show ?thesis by (simp add: AddCovenantSignatures_def)
next
  case False
  obtain r t where r: "signDelegations ce blib slib dels s = (r, t)"
    by (cases "signDelegations ce blib slib dels s")
  note frame = signDelegations_frame [OF r]
  from False assms r show ?thesis
  proof (cases r)
    case (Ok sigs)
    with False assms r obtain w' where "CC_SubmitCovenantSigs (em_cc ce) sigs (world t) = (Err e, w')"
      "s' = t\<lparr>world := w', failedSignDelegations := failedSignDelegations t + length sigs\<rparr>"
      by (auto simp: AddCovenantSignatures_def recorder_defs act_simps elim!: catchS_Err_E onWorld_Ok_E)
    with frame show ?thesis by (auto simp: counters_def)
  next
    case (Err e')
    with False assms r frame show ?thesis
      by (auto simp: AddCovenantSignatures_def dest: signDelegations_Err)
  next
    case (Panic p)
    with False assms r show ?thesis by (simp add: AddCovenantSignatures_def)
  qed
qed

section \<open>Lemmas: panics\<close>

text \<open>
  The parties outside return their failures as errors, and no delegation of the input or of the
  chain has a staking time above the 16 bits the script can hold.
\<close>

definition outside_total :: "'w Emulator \<Rightarrow> btclib \<Rightarrow> bool" where
  "outside_total ce blib \<longleftrightarrow>
     (\<forall>req. no_panic (Signer_SignTransactions (em_signer ce) req))
     \<and> (\<forall>sigs. no_panic (CC_SubmitCovenantSigs (em_cc ce) sigs))
     \<and> (\<forall>h. no_panic (CC_QueryBTCDelegation (em_cc ce) h))
     \<and> (\<forall>v. no_panic (emGet ce v))
     \<and> (\<forall>h p. NewHashFromStr blib h \<noteq> Panic p)
     \<and> (\<forall>b p. DeserializeTxOut blib b \<noteq> Panic p)"

definition fits16 :: "Delegation \<Rightarrow> bool" where
  "fits16 del \<longleftrightarrow> unat (StakingTime del) \<le> 65535"

definition chain_fits16 :: "'w Emulator \<Rightarrow> bool" where
  "chain_fits16 ce \<longleftrightarrow> (\<forall>h w del w'. CC_QueryBTCDelegation (em_cc ce) h w = (Ok del, w') \<longrightarrow> fits16 del)"

lemma stakeExpValidateBasic_no_panic:
  assumes "outside_total ce blib" "stakinglib_total slib"
  shows "stakeExpValidateBasic blib slib d \<noteq> Panic p"
  using assms
  by (auto simp: stakeExpValidateBasic_def OtherFundingTxOut_def outside_total_def stakinglib_total_def
      act_simps split: option.splits if_splits)

lemma pkScriptPathSlashAndUnbond_no_panic:
  assumes "stakinglib_total slib" "fits16 del"
  shows "pkScriptPathSlashAndUnbond slib del params net \<noteq> Panic p"
  using assms
  by (auto simp: pkScriptPathSlashAndUnbond_def stakinglib_total_def fits16_def GetStakingTime_cases
      act_simps)

lemma no_panic_buildStkExpSigningRequest:
  assumes "outside_total ce blib" "stakinglib_total slib" "chain_fits16 ce"
  shows "no_panic (buildStkExpSigningRequest ce blib slib d)"
  unfolding buildStkExpSigningRequest_def recorder_defs
  using assms
  by (intro no_panic_intros no_panic_catchS no_panic_bindS stakeExpValidateBasic_no_panic
        pkScriptPathSlashAndUnbond_no_panic)
     (auto simp: outside_total_def stakinglib_total_def chain_fits16_def elim!: onWorld_Ok_E)

lemma no_panic_SignTransactions:
  "outside_total ce blib \<Longrightarrow> no_panic (SignTransactions ce req)"
  unfolding SignTransactions_def timeNow_def timeSince_def recorder_defs
  by (intro no_panic_intros no_panic_bindS) (auto simp: outside_total_def no_panic_def)

lemma no_panic_signDelegation:
  assumes "outside_total ce blib" "stakinglib_total slib" "slashing_check_bounds slib"
    and "chain_fits16 ce" "fits16 del"
  shows "no_panic (signDelegation ce blib slib (Some del))"
proof -
  have "no_panic (skipDelegation msg)" for msg
    unfolding skipDelegation_def logError_def by (intro no_panic_intros no_panic_bindS)
  moreover have "no_panic (emGet ce v)" for v using assms(1) by (simp add: outside_total_def)
  moreover have "checkDelegation slib net params del \<noteq> Panic p" if "BtcUndelegation del = Some undel"
    for net params p undel
    using checkDelegation_no_panic [OF assms(2,3) that] assms(5) by (simp add: fits16_def)
  ultimately show ?thesis
    unfolding signDelegation_def stakeExpRequest_def
    by (intro no_panic_intros no_panic_catchS no_panic_bindS
        no_panic_SignTransactions [OF assms(1)] no_panic_buildStkExpSigningRequest [OF assms(1,2,4)])
       auto
qed

lemma no_panic_AddCovenantSignatures:
  assumes "outside_total ce blib" "stakinglib_total slib" "slashing_check_bounds slib"
    and "chain_fits16 ce" "\<forall>del \<in> set dels. fits16 del"
  shows "no_panic (AddCovenantSignatures ce blib slib (map Some dels))"
proof -
  have "no_panic (signDelegations ce blib slib (map Some dels))"
    using assms(5)
    by (induction dels)
       (auto intro!: no_panic_intros no_panic_bindS no_panic_signDelegation [OF assms(1-4)]
         simp del: act_apply)
  then show ?thesis
    unfolding AddCovenantSignatures_def timeNow_def recorder_defs
    by (intro no_panic_intros no_panic_catchS no_panic_bindS)
       (use assms(1) in \<open>auto simp: outside_total_def no_panic_def\<close>)
qed

text \<open>A nil delegation at the head makes the call panic before anything is signed.\<close>

lemma AddCovenantSignatures_nil:
  "AddCovenantSignatures ce blib slib (None # dels) s = (Panic nil_deref, s)"
  by (simp add: AddCovenantSignatures_def signDelegation_def)

section \<open>Properties\<close>

definition sample_config :: Config where
  "sample_config = \<lparr>LogLevel = ''debug'', QueryInterval = 15, DelegationLimit = 100, SigsBatchSize = 2,
     Cfg_MaxRetiresBatchRemovingMsgs = 0, BitcoinNetwork = ''simnet'', BTCNetParams = NetParams ''simnet'',
     Cfg_Metrics = None, Cfg_BabylonConfig = None, Cfg_RemoteSigner = None\<rparr>"

definition sample_resp :: SignaturesResponse where
  "sample_resp = \<lparr>SlashSigs = [[1]], UnbondingSig = SchnorrSignature [2], SlashUnbondingSigs = [[3]],
     StkExtSig = None\<rparr>"

definition sample_cc :: "(CovenantSigs list \<Rightarrow> (unit, TxResponse) act) \<Rightarrow> unit ClientController" where
  "sample_cc submit = \<lparr>CC_SubmitCovenantSigs = submit,
     CC_QueryPendingDelegations = (\<lambda>limit flt s. Some (Ok [sample_del], s)),
     CC_QueryBTCDelegation = (\<lambda>h. returnS sample_del),
     CC_QueryStakingParamsByVersion = (\<lambda>v. returnS sample_params)\<rparr>"

definition sample_ce :: "(CovenantSigs list \<Rightarrow> (unit, TxResponse) act) \<Rightarrow> unit Emulator" where
  "sample_ce submit = \<lparr>em_pk = key_a,
     em_signer = \<lparr>Signer_SignTransactions = (\<lambda>req. returnS sample_resp), Signer_PubKey = returnS key_a\<rparr>,
     em_cc = sample_cc submit, em_config = sample_config, em_retryDo = (\<lambda>n f. f), em_clock = (\<lambda>w. (7, w))\<rparr>"

definition sample_state :: "unit emu" where
  "sample_state = \<lparr>paramsByVersion = Map.empty, world = (), totalSignDelegationsSubmitted = 0,
     failedSignDelegations = 0, currentPendingDelegations = 0, previousSubmission = None,
     previousLocalSignStart = None, previousLocalSignFinish = None, timedSignDelegationLag = [],
     secondsSinceLastSubmission = 0, secondsSinceLastSignStart = 0, secondsSinceLastSignFinish = 0,
     errorLog = []\<rparr>"

definition sample_sigs :: CovenantSigs where
  "sample_sigs = \<lparr>CS_PublicKey = key_a, CS_StakingTxHash = Hash [0], CS_SlashingSigs = [[1]],
     CS_UnbondingSig = SchnorrSignature [2], CS_SlashingUnbondingSigs = [[3]], CS_StkExpSig = None\<rparr>"

definition submit_ok :: "CovenantSigs list \<Rightarrow> (unit, TxResponse) act" where
  "submit_ok sigs = returnS \<lparr>TxResponse_TxHash = ''aa'', TxResponse_Events = []\<rparr>"

lemma emGet_sample:
  "emGet (sample_ce f) v s = (Ok (case paramsByVersion s v of Some p \<Rightarrow> p | None \<Rightarrow> sample_params),
     if paramsByVersion s v = None then s\<lparr>paramsByVersion := (paramsByVersion s)(v \<mapsto> sample_params)\<rparr> else s)"
  by (cases "paramsByVersion s v")
     (auto simp: emGet_def Get_hit Get_miss sample_ce_def sample_cc_def)

lemma signDelegation_sample:
  "signDelegation (sample_ce f) sample_blib sample_slib (Some sample_del) sample_state
     = (Ok (Some sample_sigs), sample_state\<lparr>paramsByVersion := [0 \<mapsto> sample_params],
          previousLocalSignStart := Some 7, previousLocalSignFinish := Some 7,
          timedSignDelegationLag := [0]\<rparr>)"
proof -
  have "BtcUndelegation sample_del = Some sample_undel" "StakeExpansion sample_del = None"
    "paramsByVersion sample_state = Map.empty" "ParamsVersion sample_del = 0"
    by (simp_all add: sample_del_def sample_state_def)
  then show ?thesis
    by (simp add: signDelegation_def emGet_sample checkDelegation_sample stakeExpRequest_def
        IsStakeExpansion_def SignTransactions_def recorder_defs)
       (simp add: sample_ce_def sample_resp_def sample_sigs_def onWorld_def sample_req_def
        sample_blib_def tx_of_def sample_state_def)
qed

lemma outside_total_sample:
  assumes "\<And>sigs. no_panic (f sigs)"
  shows "outside_total (sample_ce f) sample_blib"
proof -
  have "no_panic (emGet (sample_ce f) v)" for v by (simp add: no_panic_def emGet_sample)
  moreover have "NewHashFromStr sample_blib h \<noteq> Panic p" "DeserializeTxOut sample_blib b \<noteq> Panic p" for h b p
    by (auto simp: sample_blib_def act_simps split: list.splits)
  moreover have "no_panic (Signer_SignTransactions (em_signer (sample_ce f)) req)"
    "no_panic (CC_SubmitCovenantSigs (em_cc (sample_ce f)) sigs)"
    "no_panic (CC_QueryBTCDelegation (em_cc (sample_ce f)) h)" for req sigs h
    using assms by (simp_all add: sample_ce_def sample_cc_def no_panic_def)
  ultimately show ?thesis by (simp add: outside_total_def)
qed

lemma sample_slib_ok: "stakinglib_total sample_slib" "slashing_check_bounds sample_slib"
  by (auto simp: stakinglib_total_def slashing_check_bounds_def sample_slib_def deserialize_sample_def
      act_simps split: BTCSlashingTx.splits list.splits PublicKey.splits if_splits)

lemma sample_fits16: "chain_fits16 (sample_ce f)" "fits16 sample_del"
  by (auto simp: chain_fits16_def fits16_def sample_ce_def sample_cc_def sample_del_def)





text \<open>
  C16. Adding signatures never panics, provided that the signer, the chain client and the staking
  library return their failures as errors, the staking library refuses output indices out of range,
  and every delegation, also the previous one of a stake expansion, has a staking time of at most
  16 bits.
\<close>

theorem AddCovenantSignatures_no_panic:
  assumes "outside_total ce blib" "stakinglib_total slib" "slashing_check_bounds slib"
    and "chain_fits16 ce" "\<forall>del \<in> set dels. fits16 del"
  shows "\<not> is_panic (fst (AddCovenantSignatures ce blib slib (map Some dels) s))"
  using no_panicD [OF no_panic_AddCovenantSignatures [OF assms], of s]
  by (cases "AddCovenantSignatures ce blib slib (map Some dels) s"; cases "fst (AddCovenantSignatures
      ce blib slib (map Some dels) s)") auto

theorem AddCovenantSignatures_no_panic_witness:
  "\<not> is_panic (fst (AddCovenantSignatures (sample_ce submit_ok) sample_blib sample_slib
     (map Some [sample_del, sample_del]) sample_state))"
  by (rule AddCovenantSignatures_no_panic)
     (auto simp: sample_slib_ok sample_fits16 submit_ok_def intro!: outside_total_sample no_panic_basic
       simp del: act_apply)

text \<open>
  The nil check of the signing loop does not protect it: a nil delegation at the head of the list
  makes the call panic, because the message it logs reads a field of the delegation.
\<close>

lemma AddCovenantSignatures_nil_panics:
  "fst (AddCovenantSignatures ce blib slib (None # dels) s) = Panic nil_deref"
  by (simp add: AddCovenantSignatures_nil)



text \<open>
  With a batch size of 0, which the validation of the configuration accepts, splitting a list that
  is not empty never returns.
\<close>

lemma delegationsToBatches_zero_diverges:
  assumes "SigsBatchSize (em_config ce) = 0" "dels \<noteq> []" "length dels < 2 ^ 64"
  shows "delegationsToBatches ce dels = None"
proof -
  have "(0 :: uint64) < word_of_nat (length dels)"
    using assms(2,3) unat_word_of_nat64 [of "length dels"] by (simp add: word_less_nat_alt)
  with assms(1) show ?thesis
    unfolding delegationsToBatches_def by (simp add: batchLoop_zero_diverges)
qed

lemma delegationsToBatches_zero_diverges_example:
  "delegationsToBatches ((sample_ce submit_ok)\<lparr>em_config := sample_config\<lparr>SigsBatchSize := 0\<rparr>\<rparr>)
     [sample_del] = None"
  by (rule delegationsToBatches_zero_diverges) simp_all

section \<open>One tick\<close>

lemma no_panic_submitBatches:
  assumes "outside_total ce blib" "stakinglib_total slib" "slashing_check_bounds slib"
    and "chain_fits16 ce" "\<forall>b \<in> set batches. \<forall>del \<in> set b. fits16 del"
  shows "no_panic (submitBatches ce blib slib batches)"
  using assms(5)
proof (induction batches)
  case Nil
  show ?case by (simp add: no_panic_def)
next
  case (Cons b batches)
  then show ?case
    unfolding submitBatches.simps logError_def
    by (intro no_panic_catchS no_panic_bindS no_panic_intros
        no_panic_AddCovenantSignatures [OF assms(1-4)]) auto
qed

lemma submitBatches_no_error: "submitBatches ce blib slib batches s \<noteq> (Err e, s')"
  by (induction batches arbitrary: s) (auto simp: act_simps logError_def elim!: catchS_Err_E)

text \<open>
  C20. A tick of the submission loop returns and leaves the loop running: if the query of pending
  delegations answers, with an error or with delegations whose staking times have at most 16 bits,
  the outside parties return their failures as errors, and the batch size is not 0, then the tick
  finishes without an error and without a panic. With no delegation pending it only resets the
  gauge, and after a failed query it changes nothing.
\<close>

theorem submissionTick_survives:
  assumes "outside_total ce blib" "stakinglib_total slib" "slashing_check_bounds slib"
    and "chain_fits16 ce" and "0 < SigsBatchSize (em_config ce)"
    and "CC_QueryPendingDelegations (em_cc ce) (DelegationLimit (em_config ce))
           (emAcceptDelegationToSign ce blib slib) s = Some (r, s1)"
    and "r = Err e \<or> r = Ok dels \<and> (\<forall>del \<in> set dels. fits16 del) \<and> length dels < 2 ^ 63"
  shows "\<exists>s'. submissionTick ce blib slib s = Some (Ok (), s')
    \<and> (dels = [] \<and> r = Ok dels \<longrightarrow> s' = s1\<lparr>currentPendingDelegations := 0\<rparr>)
    \<and> (r = Err e \<longrightarrow> s' = s1)"
proof (cases "r = Ok dels \<and> dels \<noteq> []")
  case False
  with assms(6,7) show ?thesis
    by (auto simp: submissionTick_def recorder_defs)
next
  case True
  let ?bs = "unat (SigsBatchSize (em_config ce))"
  let ?s2 = "s1\<lparr>currentPendingDelegations := length dels\<rparr>"
  from True assms(7) have d: "\<forall>del \<in> set dels. fits16 del" "length dels < 2 ^ 63" by auto
  have b: "delegationsToBatches ce dels = Some (Ok (chunks ?bs dels))"
    using batchLoop_chunks [of "SigsBatchSize (em_config ce)" dels 0 "[]"] assms(5) d(2)
    by (simp add: delegationsToBatches_def)
  have "0 < ?bs" using assms(5) by (simp add: word_less_nat_alt)
  then have "\<forall>b \<in> set (chunks ?bs dels). \<forall>del \<in> set b. fits16 del"
    using d(1) by (metis UN_I concat_chunks set_concat)
  note np = no_panic_submitBatches [OF assms(1-4) this]
  obtain q s' where q: "submitBatches ce blib slib (chunks ?bs dels) ?s2 = (q, s')"
    by (cases "submitBatches ce blib slib (chunks ?bs dels) ?s2")
  then have "q = Ok ()"
    using no_panicD [OF np, of ?s2] submitBatches_no_error [of ce blib slib "chunks ?bs dels" ?s2]
    by (cases q) auto
  with q b True assms(6) show ?thesis
    by (simp add: submissionTick_def recorder_defs)
qed

theorem submissionTick_survives_witness:
  "\<exists>s'. submissionTick (sample_ce submit_ok) sample_blib sample_slib sample_state = Some (Ok (), s')"
proof -
  have "outside_total (sample_ce submit_ok) sample_blib"
    by (auto simp: submit_ok_def intro!: outside_total_sample no_panic_basic simp del: act_apply)
  moreover have "CC_QueryPendingDelegations (em_cc (sample_ce submit_ok))
      (DelegationLimit (em_config (sample_ce submit_ok)))
      (emAcceptDelegationToSign (sample_ce submit_ok) sample_blib sample_slib) sample_state
      = Some (Ok [sample_del], sample_state)"
    by (simp add: sample_ce_def sample_cc_def)
  moreover have "0 < SigsBatchSize (em_config (sample_ce submit_ok))"
    by (simp add: sample_ce_def sample_config_def)
  ultimately show ?thesis
    using submissionTick_survives [of "sample_ce submit_ok" sample_blib sample_slib sample_state
        "Ok [sample_del]" sample_state "[]" "[sample_del]"] sample_slib_ok sample_fits16 by auto
qed

end
