(* ===== verification/BatchSend.thy ===== *)
theory BatchSend
  imports Samples "HOL-Library.Sublist"
begin

text \<open>
  Submission of covenant signatures to the chain (\<^verbatim>\<open>clientcontroller/babylon.go\<close> and
  \<^verbatim>\<open>clientcontroller/retry_utils.go\<close>): building one \<^verbatim>\<open>MsgAddCovenantSigs\<close> per delegation, and
  sending the batch again without a message the chain has rejected.

  The client of the Babylon node is a parameter: \<open>ReliablySendMsgs\<close> acts on the state \<open>'s\<close>
  of whoever calls. The texts of the chain's errors are fields of \<open>bbnlib\<close>.

  The lemmas show that the index of a rejected message is read back from the chain's error text,
  that only sub-batches of the given batch are ever sent, at most as many times as
  \<open>BatchRetries\<close> allows, and that on a chain that rejects a batch with the index of its first
  bad message exactly the good messages are delivered.
\<close>

section \<open>Data\<close>

datatype AccAddress = AccAddress bytes
datatype KeyRecord = KeyRecord bytes

record MsgAddCovenantSigs =
  Msg_Signer :: string
  Msg_Pk :: BIP340PubKey
  Msg_StakingTxHash :: string
  Msg_SlashingTxSigs :: "bytes list"
  Msg_UnbondingTxSig :: BIP340Signature
  Msg_SlashingUnbondingTxSigs :: "bytes list"
  Msg_StakeExpansionTxSig :: "BIP340Signature option"

record RelayerTxResponse =
  Relayer_TxHash :: string
  Relayer_Events :: "string list"

record bbnlib =
  NewBIP340SignatureFromBTCSig :: "SchnorrSignature \<Rightarrow> BIP340Signature"
  NewBIP340PubKeyFromBTCPK :: "PublicKey \<Rightarrow> BIP340PubKey"
  Record_GetAddress :: "KeyRecord \<Rightarrow> AccAddress result"
  MustBech32ifyAddressBytes :: "string \<Rightarrow> AccAddress \<Rightarrow> string result"
  ErrInvalidCovenantPK :: error
  ErrInvalidCovenantSig :: error
  ErrDuplicatedCovenantSig :: error

text \<open>The part of the configuration the controller reads, and its own field.\<close>

record BabylonController =
  Cfg_Key :: string
  Cfg_AccountPrefix :: string
  MaxRetiresBatchRemovingMsgs :: uint64

section \<open>The index of a failed message\<close>

text \<open>The class \<^verbatim>\<open>\s\<close> of the regular expression.\<close>

definition is_regex_space :: "char \<Rightarrow> bool" where
  "is_regex_space c \<longleftrightarrow> (of_char c :: nat) \<in> {9, 10, 12, 13, 32}"

text \<open>
  \<^verbatim>\<open>regexp.MustCompile(`message index:\s*(\d+)`).FindStringSubmatch\<close>: the digits of the
  leftmost match. Spaces and digits are disjoint, so the greedy match needs no backtracking.
\<close>

fun messageIndexRegex :: "string \<Rightarrow> string option" where
  "messageIndexRegex [] = None"
| "messageIndexRegex (c # s) =
     (if has_prefix (c # s) ''message index:''
      then (let ds = takeWhile is_digit (dropWhile is_regex_space (drop 14 (c # s)))
            in if ds \<noteq> [] then Some ds else messageIndexRegex s)
      else messageIndexRegex s)"

definition FailedMessageIndex :: "error \<Rightarrow> int \<times> bool" where
  "FailedMessageIndex err =
     (case messageIndexRegex err of
        Some ds \<Rightarrow> (case Atoi ds of Inr index \<Rightarrow> (index, True) | Inl _ \<Rightarrow> (0, False))
      | None \<Rightarrow> (0, False))"

definition RemoveMsgAtIndex :: "'m list \<Rightarrow> int \<Rightarrow> 'm list" where
  "RemoveMsgAtIndex msgs index =
     (if index < 0 \<or> index \<ge> int (length msgs) then msgs
      else take (nat index) msgs @ drop (nat index + 1) msgs)"

definition BatchRetries :: "'m list \<Rightarrow> uint64 \<Rightarrow> uint64" where
  "BatchRetries msgs maxRetiresBatchRemovingMsgs =
     (let maxRetriesByMsgLen = word_of_nat (length msgs)
      in if maxRetiresBatchRemovingMsgs = 0 then maxRetriesByMsgLen
         else if maxRetiresBatchRemovingMsgs > maxRetriesByMsgLen then maxRetriesByMsgLen
         else maxRetiresBatchRemovingMsgs)"

section \<open>Sending\<close>

definition unrecoverableErrors :: "bbnlib \<Rightarrow> error list" where
  "unrecoverableErrors lib = [ErrInvalidCovenantPK lib, ErrInvalidCovenantSig lib]"

definition expectedErrors :: "bbnlib \<Rightarrow> error list" where
  "expectedErrors lib = [ErrDuplicatedCovenantSig lib]"

definition errorContained :: "error \<Rightarrow> error list \<Rightarrow> bool" where
  "errorContained err errList \<longleftrightarrow> (\<exists>e \<in> set errList. str_contains err e)"

text \<open>
  The client's \<^verbatim>\<open>ReliablySendMsgs(ctx, msgs, expectedErrors, unrecoverableErrors)\<close>; a nil
  response with a nil error means that an expected error happened.
\<close>

type_synonym ('s, 'm) sender =
  "'m list \<Rightarrow> error list \<Rightarrow> error list \<Rightarrow> ('s, RelayerTxResponse option) act"

definition reliablySendMsgs :: "('s, 'm) sender \<Rightarrow> bbnlib \<Rightarrow> 'm list \<Rightarrow> ('s, RelayerTxResponse option) act" where
  "reliablySendMsgs sendMsgs lib msgs = sendMsgs msgs [] (unrecoverableErrors lib)"

definition emptyTxResponse :: TxResponse where
  "emptyTxResponse = \<lparr>TxResponse_TxHash = [], TxResponse_Events = []\<rparr>"

definition txResponse :: "RelayerTxResponse option \<Rightarrow> TxResponse" where
  "txResponse res = (case res of
      None \<Rightarrow> emptyTxResponse
    | Some r \<Rightarrow> \<lparr>TxResponse_TxHash = Relayer_TxHash r, TxResponse_Events = Relayer_Events r\<rparr>)"

text \<open>The loop; its first number is how many iterations are left.\<close>

fun resendLoop ::
  "('m list \<Rightarrow> ('s, RelayerTxResponse option) act) \<Rightarrow> error list \<Rightarrow> nat \<Rightarrow> error option \<Rightarrow> 'm list
    \<Rightarrow> ('s, TxResponse) act" where
  "resendLoop send expected 0 err msgs =
     (case err of
        Some e \<Rightarrow> if errorContained e expected then returnS emptyTxResponse
                  else failS (''failed to send batch of msgs: '' @ e)
      | None \<Rightarrow> failS ''failed to send batch of msgs: %!w(<nil>)'')"
| "resendLoop send expected (Suc k) err msgs =
     catchS (send msgs)
       (\<lambda>errSendMsg.
          if str_contains errSendMsg ''message index: '' then
            (case FailedMessageIndex errSendMsg of (failedIndex, found) \<Rightarrow>
               if \<not> found then failS errSendMsg
               else resendLoop send expected k (Some (errors_Join err errSendMsg))
                      (RemoveMsgAtIndex msgs failedIndex))
          else failS errSendMsg)
       (\<lambda>res. returnS (txResponse res))"

definition reliablySendMsgsResendingOnMsgErr ::
  "('s, 'm) sender \<Rightarrow> bbnlib \<Rightarrow> uint64 \<Rightarrow> 'm list \<Rightarrow> ('s, TxResponse) act" where
  "reliablySendMsgsResendingOnMsgErr sendMsgs lib maxRetires msgs =
     resendLoop (reliablySendMsgs sendMsgs lib) (expectedErrors lib)
       (unat (BatchRetries msgs maxRetires)) None msgs"

section \<open>Submitting signatures\<close>

definition GetKeyAddress ::
  "(string \<Rightarrow> ('s, KeyRecord) act) \<Rightarrow> bbnlib \<Rightarrow> BabylonController \<Rightarrow> ('s, AccAddress) act" where
  "GetKeyAddress keyringKey lib bc =
     catchS (keyringKey (Cfg_Key bc))
       (\<lambda>err. liftR (Panic (''Failed to get key address: '' @ err)))
       (\<lambda>keyRec. catchS (liftR (Record_GetAddress lib keyRec))
          (\<lambda>err. liftR (Panic (''Failed to get key address: '' @ err)))
          returnS)"

definition mustGetTxSigner ::
  "(string \<Rightarrow> ('s, KeyRecord) act) \<Rightarrow> bbnlib \<Rightarrow> BabylonController \<Rightarrow> ('s, string) act" where
  "mustGetTxSigner keyringKey lib bc =
     bindS (GetKeyAddress keyringKey lib bc) (\<lambda>signer.
       liftR (MustBech32ifyAddressBytes lib (Cfg_AccountPrefix bc) signer))"

definition covenantSigsMsg :: "btclib \<Rightarrow> bbnlib \<Rightarrow> string \<Rightarrow> CovenantSigs \<Rightarrow> MsgAddCovenantSigs" where
  "covenantSigsMsg blib lib signer covSig =
     \<lparr>Msg_Signer = signer,
      Msg_Pk = NewBIP340PubKeyFromBTCPK lib (CS_PublicKey covSig),
      Msg_StakingTxHash = Hash_String blib (CS_StakingTxHash covSig),
      Msg_SlashingTxSigs = CS_SlashingSigs covSig,
      Msg_UnbondingTxSig = NewBIP340SignatureFromBTCSig lib (CS_UnbondingSig covSig),
      Msg_SlashingUnbondingTxSigs = CS_SlashingUnbondingSigs covSig,
      Msg_StakeExpansionTxSig =
        (case CS_StkExpSig covSig of
           None \<Rightarrow> None
         | Some sig \<Rightarrow> Some (NewBIP340SignatureFromBTCSig lib sig))\<rparr>"

definition SubmitCovenantSigs ::
  "('s, MsgAddCovenantSigs) sender \<Rightarrow> (string \<Rightarrow> ('s, KeyRecord) act) \<Rightarrow> btclib \<Rightarrow> bbnlib
    \<Rightarrow> BabylonController \<Rightarrow> CovenantSigs list \<Rightarrow> ('s, TxResponse) act" where
  "SubmitCovenantSigs sendMsgs keyringKey blib lib bc covSigs =
     bindS (mapS (\<lambda>covSig. bindS (mustGetTxSigner keyringKey lib bc) (\<lambda>signer.
              returnS (covenantSigsMsg blib lib signer covSig))) covSigs)
       (\<lambda>msgs. reliablySendMsgsResendingOnMsgErr sendMsgs lib (MaxRetiresBatchRemovingMsgs bc) msgs)"

section \<open>Lemmas: indices and retries\<close>

lemma length_RemoveMsgAtIndex:
  "length (RemoveMsgAtIndex msgs i) =
     (if 0 \<le> i \<and> i < int (length msgs) then length msgs - 1 else length msgs)"
  by (auto simp: RemoveMsgAtIndex_def)

lemma RemoveMsgAtIndex_inside:
  "i < length msgs \<Longrightarrow> RemoveMsgAtIndex msgs (int i) = take i msgs @ drop (Suc i) msgs"
  by (simp add: RemoveMsgAtIndex_def)

lemma subseq_RemoveMsgAtIndex: "subseq (RemoveMsgAtIndex msgs i) msgs"
proof (cases "i < 0 \<or> i \<ge> int (length msgs)")
  case True
  then show ?thesis by (simp add: RemoveMsgAtIndex_def)
next
  case False
  have "subseq (take (nat i) msgs @ drop (nat i + 1) msgs) (take (nat i) msgs @ drop (nat i) msgs)"
    by (intro list_emb_append_mono subseq_order.refl)
       (metis Suc_eq_plus1 drop_Suc drop_tl subseq_Cons' list.exhaust_sel drop_Nil tl_Nil subseq_order.order_refl)
  with False show ?thesis by (simp add: RemoveMsgAtIndex_def)
qed

lemma unat_BatchRetries:
  assumes "length msgs < 2 ^ 64"
  shows "unat (BatchRetries msgs r) =
    (if r = 0 then length msgs else min (unat r) (length msgs))"
proof -
  have "unat (word_of_nat (length msgs) :: uint64) = length msgs"
    using assms by (simp add: unat_of_nat)
  then show ?thesis
    by (auto simp: BatchRetries_def Let_def word_less_nat_alt)
qed

lemma takeWhile_digits_show_nat:
  assumes "\<not> is_digit c"
  shows "takeWhile is_digit (show_nat n @ c # rest) = show_nat n"
  using assms show_nat_digits [of n] by (simp add: takeWhile_tail)

text \<open>The text the node wraps around the rejection of message \<open>i\<close> of a batch.\<close>

definition rejection :: "nat \<Rightarrow> error \<Rightarrow> error" where
  "rejection i reason =
     ''rpc error: code = Unknown desc = failed to execute message; message index: ''
       @ show_nat i @ '': '' @ reason"

lemma is_regex_space_digit: "is_digit c \<Longrightarrow> \<not> is_regex_space c"
  by (auto simp: is_digit_def is_regex_space_def)

lemma dropWhile_show_nat: "dropWhile is_regex_space (show_nat n @ s) = show_nat n @ s"
  using show_nat_hd [of n] by (auto dest: is_regex_space_digit)

lemma messageIndexRegex_rejection: "messageIndexRegex (rejection i reason) = Some (show_nat i)"
proof -
  have colon: "\<not> is_digit (CHR '':'')" by (simp add: is_digit_def)
  have space: "is_regex_space (CHR '' '')" by (simp add: is_regex_space_def)
  show ?thesis
    by (simp add: rejection_def space dropWhile_show_nat takeWhile_digits_show_nat [OF colon] Let_def)
qed

lemma FailedMessageIndex_rejection:
  "i < 2 ^ 63 \<Longrightarrow> FailedMessageIndex (rejection i reason) = (int i, True)"
  by (simp add: FailedMessageIndex_def messageIndexRegex_rejection Atoi_show_nat)

lemma rejection_contains_index: "str_contains (rejection i reason) ''message index: ''"
  unfolding str_contains_iff rejection_def
  by (rule exI [of _ "''rpc error: code = Unknown desc = failed to execute message; ''"]) simp

lemma rejection_contains_reason: "str_contains reason e \<Longrightarrow> str_contains (rejection i reason) e"
  unfolding rejection_def by (intro str_contains_append_right)

section \<open>Lemmas: the loop\<close>

text \<open>Only sub-batches of the given batch are sent: what such sends preserve, the loop preserves.\<close>

lemma keeps_resendLoop:
  assumes "\<And>ms. subseq ms msgs \<Longrightarrow> keeps I (send ms)"
  shows "keeps I (resendLoop send expected k err msgs)"
  using assms
proof (induction k arbitrary: err msgs)
  case 0
  show ?case by (cases err) (auto intro!: keeps_intros)
next
  case (Suc k)
  have "keeps I (resendLoop send expected k err' (RemoveMsgAtIndex msgs i))" for err' i
    using Suc.prems by (blast intro: Suc.IH subseq_RemoveMsgAtIndex subseq_order.trans)
  moreover have "keeps I (send msgs)" by (rule Suc.prems) simp
  ultimately show ?case by (auto intro!: keeps_intros split: prod.splits)
qed

text \<open>A sender that also counts its calls.\<close>

definition counted :: "('m list \<Rightarrow> ('s, 'a) act) \<Rightarrow> 'm list \<Rightarrow> (nat \<times> 's, 'a) act" where
  "counted send ms = (\<lambda>(n, s). case send ms s of (r, s') \<Rightarrow> (r, (Suc n, s')))"

lemma counted_apply: "send ms s = (r, s') \<Longrightarrow> counted send ms (n, s) = (r, (Suc n, s'))"
  by (simp add: counted_def)

lemma resendLoop_counted:
  assumes "resendLoop (counted send) expected k err msgs (n, s) = (r, (n', s'))"
  shows "n' \<le> n + k \<and> resendLoop send expected k err msgs s = (r, s')"
  using assms
proof (induction k arbitrary: err msgs n s)
  case 0
  then show ?case by (auto split: option.splits if_splits)
next
  case (Suc k)
  obtain q t where q: "send msgs s = (q, t)" by (cases "send msgs s")
  show ?case
  proof (cases q)
    case (Err e)
    obtain i found where i: "FailedMessageIndex e = (i, found)" by (cases "FailedMessageIndex e")
    have *: "counted send msgs (n, s) = (Err e, (Suc n, t))" and "send msgs s = (Err e, t)"
      using q Err by (simp_all add: counted_apply)
    then show ?thesis
      using Suc.prems Suc.IH [of "Some (errors_Join err e)" "RemoveMsgAtIndex msgs i" "Suc n" t] i
      by (auto split: if_splits)
  qed (use q Suc.prems in \<open>auto simp: counted_apply\<close>)
qed

text \<open>
  What a success means: a send of a sub-batch succeeded, or every iteration was used up and the
  accumulated error texts contain an expected one.
\<close>

lemma resendLoop_Ok:
  assumes "resendLoop send expected k err msgs s = (Ok r, s')"
  shows "(\<exists>ms t res. subseq ms msgs \<and> send ms t = (Ok res, s') \<and> r = txResponse res)
     \<or> (r = emptyTxResponse \<and> (\<exists>e. errorContained e expected))"
  using assms
proof (induction k arbitrary: err msgs s)
  case 0
  then show ?case by (auto split: option.splits if_splits)
next
  case (Suc k)
  from Suc.prems show ?case unfolding resendLoop.simps
  proof (cases rule: catchS_Ok_E)
    case (ok res t)
    then show ?thesis by (intro disjI1 exI [of _ msgs] exI [of _ s]) auto
  next
    case (err e t)
    then obtain i where "resendLoop send expected k (Some (errors_Join err e))
        (RemoveMsgAtIndex msgs i) t = (Ok r, s')"
      by (auto split: if_splits prod.splits)
    from Suc.IH [OF this] show ?thesis
      by (blast intro: subseq_order.trans subseq_RemoveMsgAtIndex)
  qed
qed

section \<open>Lemmas: a chain that reports the first bad message\<close>

text \<open>
  The behaviour the node documents for a batch: if every message is acceptable the batch is
  executed, otherwise nothing is executed and the error names the index of the first message
  that failed, with the reason.
\<close>

definition rejects_first_bad ::
  "('m list \<Rightarrow> ('s, RelayerTxResponse option) act) \<Rightarrow> ('m \<Rightarrow> bool) \<Rightarrow> ('m \<Rightarrow> error)
    \<Rightarrow> ('m list \<Rightarrow> RelayerTxResponse) \<Rightarrow> ('m list \<Rightarrow> 's \<Rightarrow> 's) \<Rightarrow> bool" where
  "rejects_first_bad send good reason resp deliver \<longleftrightarrow>
     (\<forall>ms s. send ms s =
        (let i = length (takeWhile good ms)
         in if i = length ms then (Ok (Some (resp ms)), deliver ms s)
            else (Err (rejection i (reason (ms ! i))), s)))"

lemma rejects_all_good:
  "rejects_first_bad send good reason resp deliver \<Longrightarrow> \<forall>m \<in> set ms. good m \<Longrightarrow>
   send ms s = (Ok (Some (resp ms)), deliver ms s)"
  by (simp add: rejects_first_bad_def takeWhile_eq_all_conv [THEN iffD2] Let_def)

lemma first_bad_less:
  "\<not> (\<forall>m \<in> set ms. good m) \<Longrightarrow> length (takeWhile good ms) < length ms"
  by (induction ms) auto

lemma remove_first_bad:
  assumes "\<not> (\<forall>m \<in> set ms. good m)"
  shows "RemoveMsgAtIndex ms (int (length (takeWhile good ms)))
    = takeWhile good ms @ tl (dropWhile good ms)"
  using first_bad_less [OF assms]
  by (simp add: RemoveMsgAtIndex_inside takeWhile_eq_take [symmetric] dropWhile_eq_drop drop_Suc drop_tl)

lemma filter_remove_first_bad:
  "filter good (takeWhile good ms @ tl (dropWhile good ms)) = filter good ms"
  "\<not> (\<forall>m \<in> set ms. good m) \<Longrightarrow>
     Suc (length (filter (\<lambda>m. \<not> good m) (takeWhile good ms @ tl (dropWhile good ms))))
       = length (filter (\<lambda>m. \<not> good m) ms)"
  by (induction ms) auto

lemma resendLoop_reject:
  assumes "rejects_first_bad send good reason resp deliver" "length ms < 2 ^ 63"
    and bad: "\<not> (\<forall>m \<in> set ms. good m)"
  shows "resendLoop send expected (Suc k) err ms s =
    resendLoop send expected k
      (Some (errors_Join err (rejection (length (takeWhile good ms))
         (reason (ms ! length (takeWhile good ms))))))
      (takeWhile good ms @ tl (dropWhile good ms)) s"
proof -
  define i where "i = length (takeWhile good ms)"
  have less: "i < length ms" using first_bad_less [OF bad] by (simp add: i_def)
  then have idx: "FailedMessageIndex (rejection i (reason (ms ! i))) = (int i, True)"
    using assms(2) by (intro FailedMessageIndex_rejection) simp
  have "send ms s = (Err (rejection i (reason (ms ! i))), s)"
    using assms(1) less by (simp add: rejects_first_bad_def i_def Let_def)
  then show ?thesis
    using remove_first_bad [OF bad]
    by (simp add: rejection_contains_index idx i_def [symmetric])
qed

lemma resendLoop_delivers_good:
  assumes chain: "rejects_first_bad send good reason resp deliver"
    and "length ms < 2 ^ 63" "length (filter (\<lambda>m. \<not> good m) ms) < k" "filter good ms \<noteq> []"
  shows "resendLoop send expected k err ms s =
    (Ok (txResponse (Some (resp (filter good ms)))), deliver (filter good ms) s)"
  using assms(2-)
proof (induction k arbitrary: err ms)
  case 0
  then show ?case by simp
next
  case (Suc k)
  show ?case
  proof (cases "\<forall>m \<in> set ms. good m")
    case True
    then have "filter good ms = ms" by (simp add: filter_id_conv)
    moreover from True have "send ms s = (Ok (Some (resp ms)), deliver ms s)"
      by (rule rejects_all_good [OF chain])
    ultimately show ?thesis by simp
  next
    case False
    define ms' where "ms' = takeWhile good ms @ tl (dropWhile good ms)"
    note f = filter_remove_first_bad(1) [of good ms, folded ms'_def]
      filter_remove_first_bad(2) [OF False, folded ms'_def]
    have "length ms' \<le> length ms"
      unfolding ms'_def remove_first_bad [OF False, symmetric] by (simp add: length_RemoveMsgAtIndex)
    then have "length ms' < 2 ^ 63" using Suc.prems(1) by linarith
    moreover have "length (filter (\<lambda>m. \<not> good m) ms') < k" using f(2) Suc.prems(2) by simp
    moreover have "filter good ms' \<noteq> []" using f(1) Suc.prems(3) by simp
    ultimately show ?thesis
      unfolding resendLoop_reject [OF chain Suc.prems(1) False]
      using Suc.IH f(1) by (simp add: ms'_def [symmetric])
  qed
qed


lemma resendLoop_all_bad:
  assumes chain: "rejects_first_bad send good reason resp deliver"
    and "length ms < 2 ^ 63" "\<forall>m \<in> set ms. \<not> good m" "length ms = k"
    and dup: "d \<in> set expected"
    and "(\<exists>m \<in> set ms. str_contains (reason m) d) \<or> (\<exists>e. err = Some e \<and> str_contains e d)"
  shows "resendLoop send expected k err ms s = (Ok emptyTxResponse, s)"
  using assms(2-4,6)
proof (induction k arbitrary: err ms)
  case 0
  then show ?case using dup by (auto simp: errorContained_def)
next
  case (Suc k)
  then obtain m ms' where ms: "ms = m # ms'" by (cases ms) auto
  then have bad: "\<not> good m" "takeWhile good ms = []" "\<not> (\<forall>m \<in> set ms. good m)"
    using Suc.prems(2) by auto
  define e where "e = errors_Join err (rejection 0 (reason m))"
  have "(\<exists>m \<in> set ms'. str_contains (reason m) d) \<or> (\<exists>x. Some e = Some x \<and> str_contains x d)"
    using Suc.prems(4) unfolding ms e_def
    by (auto intro: errors_Join_contains errors_Join_contains_acc rejection_contains_reason)
  then have "resendLoop send expected k (Some e) ms' s = (Ok emptyTxResponse, s)"
    using Suc.prems ms by (intro Suc.IH) auto
  then show ?case
    unfolding resendLoop_reject [OF chain Suc.prems(1) bad(3)] using bad ms by (simp add: e_def)
qed

section \<open>Lemmas: the batches sent\<close>

text \<open>A client that also keeps the batches it was asked to send.\<close>

definition logged :: "('s, 'm) sender \<Rightarrow> ('m list list \<times> 's, 'm) sender" where
  "logged sendMsgs ms ex un =
     (\<lambda>(sent, s). case sendMsgs ms ex un s of (r, s') \<Rightarrow> (r, (sent @ [ms], s')))"

lemma reliablySendMsgs_logged:
  "reliablySendMsgs sendMsgs lib ms s = (r, s') \<Longrightarrow>
   reliablySendMsgs (logged sendMsgs) lib ms (sent, s) = (r, (sent @ [ms], s'))"
  by (simp add: reliablySendMsgs_def logged_def)

lemma resendLoop_logged:
  assumes "resendLoop (reliablySendMsgs (logged sendMsgs) lib) expected k err msgs (sent, s) = (r, (sent', s'))"
  shows "\<exists>batches. sent' = sent @ batches \<and> length batches \<le> k
    \<and> sorted_wrt (\<lambda>a b. subseq b a) (msgs # batches)
    \<and> resendLoop (reliablySendMsgs sendMsgs lib) expected k err msgs s = (r, s')"
  using assms
proof (induction k arbitrary: err msgs sent s)
  case 0
  then show ?case by (auto split: option.splits if_splits)
next
  case (Suc k)
  obtain q t where q: "reliablySendMsgs sendMsgs lib msgs s = (q, t)" by fastforce
  note l = reliablySendMsgs_logged [OF q, of sent]
  show ?case
  proof (cases "\<exists>e i. q = Err e \<and> str_contains e ''message index: '' \<and> FailedMessageIndex e = (i, True)")
    case True
    then obtain e i where e: "q = Err e" "str_contains e ''message index: ''"
      "FailedMessageIndex e = (i, True)" by blast
    with Suc.prems l have "resendLoop (reliablySendMsgs (logged sendMsgs) lib) expected k
        (Some (errors_Join err e)) (RemoveMsgAtIndex msgs i) (sent @ [msgs], t) = (r, (sent', s'))"
      by simp
    from Suc.IH [OF this] obtain bs where bs: "sent' = (sent @ [msgs]) @ bs" "length bs \<le> k"
      "sorted_wrt (\<lambda>a b. subseq b a) (RemoveMsgAtIndex msgs i # bs)"
      "resendLoop (reliablySendMsgs sendMsgs lib) expected k (Some (errors_Join err e))
         (RemoveMsgAtIndex msgs i) t = (r, s')" by blast
    then have "\<forall>b \<in> set bs. subseq b msgs"
      by (auto intro: subseq_order.trans [OF _ subseq_RemoveMsgAtIndex])
    with bs e q show ?thesis by (intro exI [of _ "msgs # bs"]) simp
  next
    case False
    then have "sent' = sent @ [msgs] \<and> s' = t
      \<and> resendLoop (reliablySendMsgs sendMsgs lib) expected (Suc k) err msgs s = (r, s')"
      using Suc.prems l q by (cases q) (auto split: prod.splits if_splits)
    then show ?thesis by (intro exI [of _ "[msgs]"]) simp
  qed
qed

section \<open>Lemmas: the messages\<close>

lemma SubmitCovenantSigs_signer:
  assumes "keyringKey (Cfg_Key bc) s = (Ok rec, s)" "Record_GetAddress lib rec = Ok addr"
    and "MustBech32ifyAddressBytes lib (Cfg_AccountPrefix bc) addr = Ok signer"
  shows "SubmitCovenantSigs sendMsgs keyringKey blib lib bc covSigs s =
    reliablySendMsgsResendingOnMsgErr sendMsgs lib (MaxRetiresBatchRemovingMsgs bc)
      (map (covenantSigsMsg blib lib signer) covSigs) s"
proof -
  have "mustGetTxSigner keyringKey lib bc s = (Ok signer, s)"
    using assms by (simp add: mustGetTxSigner_def GetKeyAddress_def)
  then have "mapS (\<lambda>covSig. bindS (mustGetTxSigner keyringKey lib bc) (\<lambda>signer.
      returnS (covenantSigsMsg blib lib signer covSig))) covSigs s
    = (Ok (map (covenantSigsMsg blib lib signer) covSigs), s)"
    by (intro mapS_Ok_map) simp
  then show ?thesis by (simp add: SubmitCovenantSigs_def)
qed

section \<open>Properties\<close>

text \<open>A key, a signature and a chain for the witnesses: the chain rejects the messages of one key.\<close>

definition sample_lib :: bbnlib where
  "sample_lib = \<lparr>NewBIP340SignatureFromBTCSig = (\<lambda>s. case s of SchnorrSignature b \<Rightarrow> BIP340Signature b),
     NewBIP340PubKeyFromBTCPK = (\<lambda>k. case k of PublicKey b \<Rightarrow> BIP340PubKey b),
     Record_GetAddress = (\<lambda>r. case r of KeyRecord b \<Rightarrow> Ok (AccAddress b)),
     MustBech32ifyAddressBytes = (\<lambda>p a. Ok p),
     ErrInvalidCovenantPK = ''the covenant public key is invalid'',
     ErrInvalidCovenantSig = ''the covenant signature is invalid'',
     ErrDuplicatedCovenantSig = ''already submitted''\<rparr>"

definition sample_bc :: BabylonController where
  "sample_bc = \<lparr>Cfg_Key = ''k'', Cfg_AccountPrefix = ''bbn'', MaxRetiresBatchRemovingMsgs = 0\<rparr>"

definition sample_msg_ok :: "MsgAddCovenantSigs \<Rightarrow> bool" where
  "sample_msg_ok m \<longleftrightarrow> Msg_Pk m = BIP340PubKey [1]"

definition sample_send :: "(MsgAddCovenantSigs list, MsgAddCovenantSigs) sender" where
  "sample_send ms ex un s =
     (let i = length (takeWhile sample_msg_ok ms)
      in if i = length ms
         then (Ok (Some \<lparr>Relayer_TxHash = ''aa'', Relayer_Events = []\<rparr>), s @ ms)
         else (Err (rejection i ''already submitted''), s))"

definition sample_cov :: "byte \<Rightarrow> CovenantSigs" where
  "sample_cov k = \<lparr>CS_PublicKey = PublicKey [k], CS_StakingTxHash = Hash [5], CS_SlashingSigs = [],
     CS_UnbondingSig = SchnorrSignature [], CS_SlashingUnbondingSigs = [], CS_StkExpSig = None\<rparr>"

lemma sample_send_rejects:
  "rejects_first_bad (reliablySendMsgs sample_send sample_lib) sample_msg_ok (\<lambda>_. ''already submitted'')
     (\<lambda>_. \<lparr>Relayer_TxHash = ''aa'', Relayer_Events = []\<rparr>) (\<lambda>ms s. s @ ms)"
  by (simp add: rejects_first_bad_def reliablySendMsgs_def sample_send_def Let_def)

text \<open>
  C6. Good signatures are not lost to bad ones. On a chain that answers a batch with the index of
  its first bad message, and with enough attempts (the default 0 allows one per message), submitting
  a list of signatures delivers exactly the messages the chain accepts, in order and in one
  transaction, whose hash is the answer.
\<close>

theorem SubmitCovenantSigs_delivers_good:
  assumes "rejects_first_bad (reliablySendMsgs sendMsgs lib) good reason resp deliver"
    and "keyringKey (Cfg_Key bc) s = (Ok rec, s)" "Record_GetAddress lib rec = Ok addr"
    and "MustBech32ifyAddressBytes lib (Cfg_AccountPrefix bc) addr = Ok signer"
    and "msgs = map (covenantSigsMsg blib lib signer) covSigs"
    and "length covSigs < 2 ^ 63" "filter good msgs \<noteq> []"
    and "MaxRetiresBatchRemovingMsgs bc = 0
       \<or> length (filter (\<lambda>m. \<not> good m) msgs) < unat (MaxRetiresBatchRemovingMsgs bc)"
  shows "SubmitCovenantSigs sendMsgs keyringKey blib lib bc covSigs s =
    (Ok \<lparr>TxResponse_TxHash = Relayer_TxHash (resp (filter good msgs)),
         TxResponse_Events = Relayer_Events (resp (filter good msgs))\<rparr>, deliver (filter good msgs) s)"
proof -
  let ?r = "MaxRetiresBatchRemovingMsgs bc" and ?bad = "filter (\<lambda>m. \<not> good m) msgs"
  have len: "length msgs < 2 ^ 63" using assms(5,6) by simp
  have "length (filter good msgs) + length ?bad = length msgs"
    by (rule sum_length_filter_compl)
  moreover have "0 < length (filter good msgs)" using assms(7) by simp
  ultimately have "length ?bad < length msgs" by linarith
  then have "length ?bad < unat (BatchRetries msgs ?r)"
    using assms(8) len by (subst unat_BatchRetries) auto
  from resendLoop_delivers_good [OF assms(1) len this assms(7)]
  have "reliablySendMsgsResendingOnMsgErr sendMsgs lib ?r msgs s =
      (Ok \<lparr>TxResponse_TxHash = Relayer_TxHash (resp (filter good msgs)),
           TxResponse_Events = Relayer_Events (resp (filter good msgs))\<rparr>, deliver (filter good msgs) s)"
    by (simp add: reliablySendMsgsResendingOnMsgErr_def txResponse_def)
  moreover have "SubmitCovenantSigs sendMsgs keyringKey blib lib bc covSigs s =
      reliablySendMsgsResendingOnMsgErr sendMsgs lib ?r msgs s"
    unfolding assms(5) by (rule SubmitCovenantSigs_signer) (rule assms)+
  ultimately show ?thesis by simp
qed

theorem SubmitCovenantSigs_delivers_good_witness:
  "SubmitCovenantSigs sample_send (\<lambda>_. returnS (KeyRecord [])) sample_blib sample_lib sample_bc
     [sample_cov 2, sample_cov 1] [] =
   (Ok \<lparr>TxResponse_TxHash = ''aa'', TxResponse_Events = []\<rparr>,
    [covenantSigsMsg sample_blib sample_lib ''bbn'' (sample_cov 1)])"
proof -
  have "filter sample_msg_ok (map (covenantSigsMsg sample_blib sample_lib ''bbn'') [sample_cov 2, sample_cov 1])
    = [covenantSigsMsg sample_blib sample_lib ''bbn'' (sample_cov 1)]"
    by (simp add: sample_msg_ok_def covenantSigsMsg_def sample_cov_def sample_lib_def)
  then show ?thesis
    using SubmitCovenantSigs_delivers_good [OF sample_send_rejects, of "\<lambda>_. returnS (KeyRecord [])"
        sample_bc "[]" "KeyRecord []" "AccAddress []" "''bbn''" _ sample_blib "[sample_cov 2, sample_cov 1]", OF _ _ _ refl]
    by (simp add: sample_bc_def) (simp add: sample_lib_def)
qed

text \<open>
  Sending again is bounded, whatever the client answers. Every batch sent is obtained from the
  previous one by dropping messages, the first being the given one; at most BatchRetries
  batches are sent: never more than there are messages, nor more than the configured maximum if one
  is set.
\<close>

lemma resend_bounded:
  assumes "reliablySendMsgsResendingOnMsgErr (logged sendMsgs) lib maxRetires msgs ([], s) = (r, (batches, s'))"
    and "length msgs < 2 ^ 64"
  shows "length batches \<le> length msgs \<and> (maxRetires \<noteq> 0 \<longrightarrow> length batches \<le> unat maxRetires)
    \<and> sorted_wrt (\<lambda>a b. subseq b a) (msgs # batches)
    \<and> reliablySendMsgsResendingOnMsgErr sendMsgs lib maxRetires msgs s = (r, s')"
  using resendLoop_logged [OF assms(1) [unfolded reliablySendMsgsResendingOnMsgErr_def]]
    unat_BatchRetries [OF assms(2), of maxRetires]
  by (auto simp: reliablySendMsgsResendingOnMsgErr_def split: if_splits)

lemma resend_bounded_example:
  "\<exists>r batches s'. reliablySendMsgsResendingOnMsgErr (logged (\<lambda>_ _ _ s. (Err (rejection 0 ''no''), s)))
       sample_lib 1 [True, False] ([], ()) = (r, (batches, s'))
     \<and> length batches \<le> 1"
proof -
  let ?send = "\<lambda>_ _ _ s. (Err (rejection 0 ''no'') :: RelayerTxResponse option result, s :: unit)"
  obtain r batches s' where r: "reliablySendMsgsResendingOnMsgErr (logged ?send) sample_lib 1
      [True, False] ([], ()) = (r, (batches, s'))"
    by (metis surj_pair)
  from resend_bounded [OF r] r show ?thesis by auto
qed

text \<open>
  C29. A batch none of whose messages was accepted is reported as submitted, with an empty response
  and nothing delivered, as soon as one of the rejections contains an expected error: the errors of
  all attempts are joined before the test, so a duplicate masks every other failure.
\<close>

theorem resend_masks_failures:
  assumes "rejects_first_bad (reliablySendMsgs sendMsgs lib) good reason resp deliver"
    and "length msgs < 2 ^ 63" "\<forall>m \<in> set msgs. \<not> good m"
    and "\<exists>m \<in> set msgs. str_contains (reason m) (ErrDuplicatedCovenantSig lib)"
  shows "reliablySendMsgsResendingOnMsgErr sendMsgs lib 0 msgs s = (Ok emptyTxResponse, s)"
proof -
  have "unat (BatchRetries msgs 0) = length msgs"
    using assms(2) by (subst unat_BatchRetries) auto
  then show ?thesis
    unfolding reliablySendMsgsResendingOnMsgErr_def
    using assms by (intro resendLoop_all_bad [where d = "ErrDuplicatedCovenantSig lib"])
      (auto simp: expectedErrors_def)
qed

lemma takeWhile_False: "takeWhile (\<lambda>_. False) xs = []"
  by (cases xs) simp_all

text \<open>Here one message is a duplicate and the other has an invalid signature.\<close>

definition sample_reject :: "(nat list, bool) sender" where
  "sample_reject ms ex un s =
     (if ms = [] then (Ok (Some \<lparr>Relayer_TxHash = ''aa'', Relayer_Events = []\<rparr>), s)
      else (Err (rejection 0 (if ms ! 0 then ''already submitted'' else ''the covenant signature is invalid'')), s))"

theorem resend_masks_failures_witness:
  "reliablySendMsgsResendingOnMsgErr sample_reject sample_lib 0 [False, True] [7] = (Ok emptyTxResponse, [7])"
proof (rule resend_masks_failures [where good = "\<lambda>_. False" and deliver = "\<lambda>_ s. s"
      and resp = "\<lambda>_. \<lparr>Relayer_TxHash = ''aa'', Relayer_Events = []\<rparr>"
      and reason = "\<lambda>b. if b then ''already submitted'' else ''the covenant signature is invalid''"])
  show "rejects_first_bad (reliablySendMsgs sample_reject sample_lib) (\<lambda>_. False)
      (\<lambda>b. if b then ''already submitted'' else ''the covenant signature is invalid'')
      (\<lambda>_. \<lparr>Relayer_TxHash = ''aa'', Relayer_Events = []\<rparr>) (\<lambda>_ s. s)"
    by (simp add: rejects_first_bad_def reliablySendMsgs_def sample_reject_def takeWhile_False
        Let_def)
qed (simp_all add: sample_lib_def)

end
