(* ===== verification/ChainQueries.thy ===== *)
theory ChainQueries
  imports Samples
begin

text \<open>
  The queries of the Babylon node (\<^verbatim>\<open>clientcontroller/babylon.go\<close>): staking parameters of a
  version, one delegation, and the paginated scan for delegations of a status with a filter; and
  the translation of the node's answers into the program's own types.

  The node client (\<open>bbnclient\<close>) and the key and signature parsers of the babylon packages
  (\<open>querylib\<close>) are parameters. The scan follows the pages for as long as the node hands them
  out, so it is a partial function: \<open>None\<close> is a scan that never returns.
\<close>

section \<open>Answers of the node\<close>

record CovenantAdaptorSignatures =
  CovPk :: BIP340PubKey
  AdaptorSigs :: "bytes list"

record SignatureInfo =
  SigInfo_Pk :: BIP340PubKey
  SigInfo_Sig :: BIP340Signature

record BTCUndelegationResponse =
  UR_UnbondingTxHex :: string
  UR_SlashingTxHex :: string
  UR_CovenantUnbondingSigList :: "SignatureInfo list"
  UR_CovenantSlashingSigs :: "CovenantAdaptorSignatures list"
  UR_DelegatorUnbondingInfo :: "string option"

record StakeExpansionResponse =
  SER_PreviousStakingTxHashHex :: string
  SER_OtherFundingTxOutHex :: string

record BTCDelegationResponse =
  R_BtcPk :: BIP340PubKey
  R_FpBtcPkList :: "BIP340PubKey list"
  R_StakingTime :: uint32
  R_StartHeight :: uint32
  R_EndHeight :: uint32
  R_TotalSat :: uint64
  R_StakingTxHex :: string
  R_SlashingTxHex :: string
  R_CovenantSigs :: "CovenantAdaptorSignatures list"
  R_StakingOutputIdx :: uint32
  R_UnbondingTime :: uint32
  R_UndelegationResponse :: "BTCUndelegationResponse option"
  R_ParamsVersion :: uint32
  R_StkExp :: "StakeExpansionResponse option"

record BTCCheckpointParams =
  BtcConfirmationDepth :: uint32
  CheckpointFinalizationTimeout :: uint32

record BTCStakingParams =
  P_CovenantPks :: "BIP340PubKey list"
  P_CovenantQuorum :: uint32
  P_MinStakingValueSat :: int64
  P_MaxStakingValueSat :: int64
  P_MinStakingTimeBlocks :: uint32
  P_MaxStakingTimeBlocks :: uint32
  P_SlashingPkScript :: bytes
  P_MinSlashingTxFeeSat :: int64
  P_SlashingRate :: LegacyDec
  P_UnbondingTimeBlocks :: uint32
  P_UnbondingFeeSat :: int64
  P_MinCommissionRate :: LegacyDec

text \<open>A page request; the empty key (nil) asks for the first page.\<close>

record PageRequest =
  PR_Key :: bytes
  PR_Limit :: uint64

text \<open>A page; its \<open>Pagination\<close> is a pointer that may be nil.\<close>

record QueryBTCDelegationsResponse =
  BtcDelegations :: "BTCDelegationResponse list"
  Pagination_NextKey :: "bytes option"

datatype BTCDelegationStatus = PENDING | VERIFIED | ACTIVE | UNBONDED | EXPIRED | ANY

record 's bbnclient =
  Client_BTCCheckpointParams :: "('s, BTCCheckpointParams) act"
  Client_BTCStakingParamsByVersion :: "uint32 \<Rightarrow> ('s, BTCStakingParams) act"
  Client_BTCDelegation :: "string \<Rightarrow> ('s, BTCDelegationResponse) act"
  Client_BTCDelegations :: "BTCDelegationStatus \<Rightarrow> PageRequest \<Rightarrow> ('s, QueryBTCDelegationsResponse) act"

record querylib =
  ToBTCPK :: "BIP340PubKey \<Rightarrow> PublicKey result"
  MustToBTCPK :: "BIP340PubKey \<Rightarrow> PublicKey result"
  ToBTCSig :: "BIP340Signature \<Rightarrow> SchnorrSignature result"

section \<open>Translations\<close>

definition covenantAdaptorSigInfo ::
  "querylib \<Rightarrow> CovenantAdaptorSignatures \<Rightarrow> CovenantAdaptorSigInfo result" where
  "covenantAdaptorSigInfo lib s =
     bindR (MustToBTCPK lib (CovPk s)) (\<lambda>pk. Ok \<lparr>Adaptor_Pk = pk, Adaptor_Sigs = AdaptorSigs s\<rparr>)"

definition UndelegationRespToUndelegation ::
  "querylib \<Rightarrow> BTCUndelegationResponse \<Rightarrow> Undelegation result" where
  "UndelegationRespToUndelegation lib undel =
     (if UR_UnbondingTxHex undel = [] then Err ''staking tx should not be empty in undelegation''
      else if UR_SlashingTxHex undel = [] then Err ''slashing tx should not be empty in undelegation''
      else
        bindR (mapR (\<lambda>unbondingSig.
             bindR (ToBTCSig lib (SigInfo_Sig unbondingSig)) (\<lambda>sig.
             bindR (MustToBTCPK lib (SigInfo_Pk unbondingSig)) (\<lambda>pk.
             Ok \<lparr>Schnorr_Pk = pk, Schnorr_Sig = sig\<rparr>))) (UR_CovenantUnbondingSigList undel))
          (\<lambda>covenantUnbondingSigs.
        bindR (mapR (covenantAdaptorSigInfo lib) (UR_CovenantSlashingSigs undel))
          (\<lambda>covenantSlashingSigs.
        Ok \<lparr>UnbondingTxHex = UR_UnbondingTxHex undel,
            Undel_SlashingTxHex = UR_SlashingTxHex undel,
            CovenantSlashingSigs = covenantSlashingSigs,
            CovenantUnbondingSigs = covenantUnbondingSigs,
            DelegatorUnbondingSig = None,
            SpendStakeTxHex =
              (case UR_DelegatorUnbondingInfo undel of None \<Rightarrow> [] | Some spend \<Rightarrow> spend)\<rparr>)))"

definition DelegationRespToDelegation :: "querylib \<Rightarrow> BTCDelegationResponse \<Rightarrow> Delegation result" where
  "DelegationRespToDelegation lib del =
     (if R_StakingTxHex del = [] then Err ''staking tx should not be empty in delegation''
      else if R_SlashingTxHex del = [] then Err ''slashing tx should not be empty in delegation''
      else
        bindR (mapR (covenantAdaptorSigInfo lib) (R_CovenantSigs del)) (\<lambda>covenantSigs.
        bindR (case R_UndelegationResponse del of
                 None \<Rightarrow> Ok None
               | Some undel \<Rightarrow> bindR (UndelegationRespToUndelegation lib undel) (\<lambda>u. Ok (Some u)))
          (\<lambda>undelegation.
        bindR (mapR (MustToBTCPK lib) (R_FpBtcPkList del)) (\<lambda>fpBtcPks.
        if unat (R_UnbondingTime del) > MaxUint16
        then Err ''unbonding time should be smaller than max uint16''
        else if uint (R_TotalSat del) > 2 ^ 63 - 1
        then Err (''total sat ('' @ show_nat (unat (R_TotalSat del)) @ '') is larger than the maximum int64'')
        else
        bindR (MustToBTCPK lib (R_BtcPk del)) (\<lambda>btcPk.
        Ok \<lparr>BtcPk = btcPk,
            FpBtcPks = fpBtcPks,
            StakingTime = R_StakingTime del,
            StartHeight = R_StartHeight del,
            EndHeight = R_EndHeight del,
            TotalSat = R_TotalSat del,
            StakingTxHex = R_StakingTxHex del,
            StakingOutputIdx = R_StakingOutputIdx del,
            SlashingTxHex = R_SlashingTxHex del,
            UnbondingTime = ucast (R_UnbondingTime del),
            Del_CovenantSigs = covenantSigs,
            BtcUndelegation = undelegation,
            ParamsVersion = R_ParamsVersion del,
            StakeExpansion =
              (case R_StkExp del of
                 None \<Rightarrow> None
               | Some stkExp \<Rightarrow> Some
                   \<lparr>PreviousStakingTxHashHex = SER_PreviousStakingTxHashHex stkExp,
                    OtherFundingTxOutHex = SER_OtherFundingTxOutHex stkExp\<rparr>)\<rparr>)))))"

section \<open>Single queries\<close>

definition stakingParams :: "querylib \<Rightarrow> BTCCheckpointParams \<Rightarrow> BTCStakingParams \<Rightarrow> StakingParams result" where
  "stakingParams lib ckpt params =
     bindR (mapErr (\<lambda>_. ''invalid covenant public key'') (mapR (ToBTCPK lib) (P_CovenantPks params)))
       (\<lambda>covenantPks.
     if unat (P_MinStakingTimeBlocks params) > MaxUint16
     then Err (''babylon min staking time blocks ('' @ show_nat (unat (P_MinStakingTimeBlocks params))
                @ '') is larger than the maximum uint16'')
     else if unat (P_MaxStakingTimeBlocks params) > MaxUint16
     then Err (''babylon max staking time blocks ('' @ show_nat (unat (P_MaxStakingTimeBlocks params))
                @ '') is larger than the maximum uint16'')
     else Ok \<lparr>ComfirmationTimeBlocks = BtcConfirmationDepth ckpt,
              FinalizationTimeoutBlocks = CheckpointFinalizationTimeout ckpt,
              MinSlashingTxFeeSat = P_MinSlashingTxFeeSat params,
              CovenantPks = covenantPks,
              SlashingPkScript = P_SlashingPkScript params,
              CovenantQuorum = P_CovenantQuorum params,
              SlashingRate = P_SlashingRate params,
              MinComissionRate = P_MinCommissionRate params,
              UnbondingTimeBlocks = P_UnbondingTimeBlocks params,
              UnbondingFee = P_UnbondingFeeSat params,
              MinStakingTime = ucast (P_MinStakingTimeBlocks params),
              MaxStakingTime = ucast (P_MaxStakingTimeBlocks params),
              MinStakingValue = P_MinStakingValueSat params,
              MaxStakingValue = P_MaxStakingValueSat params\<rparr>)"

definition QueryStakingParamsByVersion ::
  "'s bbnclient \<Rightarrow> querylib \<Rightarrow> uint32 \<Rightarrow> ('s, StakingParams) act" where
  "QueryStakingParamsByVersion bbn lib version =
     bindS (mapErrS (\<lambda>e. ''failed to query params of the btccheckpoint module: '' @ e)
              (Client_BTCCheckpointParams bbn)) (\<lambda>ckptParamRes.
     bindS (mapErrS (\<lambda>e. ''failed to query staking params with version ''
                          @ show_nat (unat version) @ '': '' @ e)
              (Client_BTCStakingParamsByVersion bbn version)) (\<lambda>stakingParamRes.
     liftR (stakingParams lib ckptParamRes stakingParamRes)))"

definition QueryBTCDelegation :: "'s bbnclient \<Rightarrow> querylib \<Rightarrow> string \<Rightarrow> ('s, Delegation) act" where
  "QueryBTCDelegation bbn lib stakingTxHashHex =
     bindS (mapErrS (\<lambda>e. ''failed to query BTC delegation '' @ stakingTxHashHex @ '': '' @ e)
              (Client_BTCDelegation bbn stakingTxHashHex)) (\<lambda>resp.
     liftR (DelegationRespToDelegation lib resp))"

section \<open>The paginated scan\<close>

definition MaxPaginationLimit :: uint64 where
  "MaxPaginationLimit = 1000"

type_synonym 's filterFn = "Delegation \<Rightarrow> ('s, bool) act"

text \<open>
  The inner loop over one page. \<open>Inl\<close>: the limit was reached and the scan returns these
  delegations; \<open>Inr\<close>: the page is finished, with the delegations and their number so far.
\<close>

fun scanPage ::
  "querylib \<Rightarrow> 's filterFn option \<Rightarrow> uint64 \<Rightarrow> Delegation list \<Rightarrow> uint64 \<Rightarrow> BTCDelegationResponse list
    \<Rightarrow> ('s, Delegation list + Delegation list \<times> uint64) act" where
  "scanPage lib flt delsLimit dels indexDels [] = returnS (Inr (dels, indexDels))"
| "scanPage lib flt delsLimit dels indexDels (delResp # rest) =
     bindS (liftR (DelegationRespToDelegation lib delResp)) (\<lambda>del.
     bindS (case flt of None \<Rightarrow> returnS True | Some f \<Rightarrow> f del) (\<lambda>accept.
       if \<not> accept then scanPage lib flt delsLimit dels indexDels rest
       else if indexDels + 1 = delsLimit then returnS (Inl (dels @ [del]))
       else scanPage lib flt delsLimit (dels @ [del]) (indexDels + 1) rest))"

text \<open>
  The body of the outer loop: one page is requested and scanned. \<open>Inl\<close>: the function returns;
  \<open>Inr\<close>: the next iteration, with the key of the next page.
\<close>

definition scanStep ::
  "'s bbnclient \<Rightarrow> querylib \<Rightarrow> 's filterFn option \<Rightarrow> BTCDelegationStatus \<Rightarrow> uint64 \<Rightarrow> uint64
    \<Rightarrow> bytes \<Rightarrow> Delegation list \<Rightarrow> uint64 \<Rightarrow> 's
    \<Rightarrow> (Delegation list result \<times> 's) + (bytes \<times> Delegation list \<times> uint64 \<times> 's)" where
  "scanStep bbn lib flt status pgLimit delsLimit key dels indexDels s =
     (case Client_BTCDelegations bbn status \<lparr>PR_Key = key, PR_Limit = pgLimit\<rparr> s of
        (Err e, s1) \<Rightarrow> Inl (Err (''failed to query BTC delegations: '' @ e), s1)
      | (Panic p, s1) \<Rightarrow> Inl (Panic p, s1)
      | (Ok res, s1) \<Rightarrow>
          (case scanPage lib flt delsLimit dels indexDels (BtcDelegations res) s1 of
             (Err e, s2) \<Rightarrow> Inl (Err e, s2)
           | (Panic p, s2) \<Rightarrow> Inl (Panic p, s2)
           | (Ok (Inl dels'), s2) \<Rightarrow> Inl (Ok dels', s2)
           | (Ok (Inr (dels', indexDels')), s2) \<Rightarrow>
               if word_of_nat (length (BtcDelegations res)) \<noteq> pgLimit then Inl (Ok dels', s2)
               else (case Pagination_NextKey res of
                       None \<Rightarrow> Inl (Panic nil_deref, s2)
                     | Some nextKey \<Rightarrow> Inr (nextKey, dels', indexDels', s2))))"

partial_function (option) scanPages ::
  "'s bbnclient \<Rightarrow> querylib \<Rightarrow> 's filterFn option \<Rightarrow> BTCDelegationStatus \<Rightarrow> uint64 \<Rightarrow> uint64
    \<Rightarrow> bytes \<Rightarrow> Delegation list \<Rightarrow> uint64 \<Rightarrow> 's \<Rightarrow> (Delegation list result \<times> 's) option" where
  "scanPages bbn lib flt status pgLimit delsLimit key dels indexDels s =
     (if indexDels < delsLimit then
        (case scanStep bbn lib flt status pgLimit delsLimit key dels indexDels s of
           Inl out \<Rightarrow> Some out
         | Inr (key', dels', indexDels', s') \<Rightarrow>
             scanPages bbn lib flt status pgLimit delsLimit key' dels' indexDels' s')
      else Some (Ok dels, s))"

definition queryDelegationsWithStatus ::
  "'s bbnclient \<Rightarrow> querylib \<Rightarrow> BTCDelegationStatus \<Rightarrow> uint64 \<Rightarrow> 's filterFn option
    \<Rightarrow> 's \<Rightarrow> (Delegation list result \<times> 's) option" where
  "queryDelegationsWithStatus bbn lib status delsLimit flt =
     scanPages bbn lib flt status (min MaxPaginationLimit delsLimit) delsLimit [] [] 0"

definition QueryPendingDelegations ::
  "'s bbnclient \<Rightarrow> querylib \<Rightarrow> uint64 \<Rightarrow> 's filterFn \<Rightarrow> 's \<Rightarrow> (Delegation list result \<times> 's) option" where
  "QueryPendingDelegations bbn lib limit flt =
     queryDelegationsWithStatus bbn lib PENDING limit (Some flt)"

definition QueryActiveDelegations ::
  "'s bbnclient \<Rightarrow> querylib \<Rightarrow> uint64 \<Rightarrow> 's \<Rightarrow> (Delegation list result \<times> 's) option" where
  "QueryActiveDelegations bbn lib limit = queryDelegationsWithStatus bbn lib ACTIVE limit None"

definition QueryVerifiedDelegations ::
  "'s bbnclient \<Rightarrow> querylib \<Rightarrow> uint64 \<Rightarrow> 's \<Rightarrow> (Delegation list result \<times> 's) option" where
  "QueryVerifiedDelegations bbn lib limit = queryDelegationsWithStatus bbn lib VERIFIED limit None"

section \<open>Lemmas: translations\<close>

lemma covenantAdaptorSigInfo_Ok:
  "covenantAdaptorSigInfo lib s = Ok i \<Longrightarrow>
     MustToBTCPK lib (CovPk s) = Ok (Adaptor_Pk i) \<and> Adaptor_Sigs i = AdaptorSigs s"
  by (auto simp: covenantAdaptorSigInfo_def act_simps)

lemma DelegationRespToDelegation_OkE:
  assumes "DelegationRespToDelegation lib r = Ok d"
  obtains sigs undel fps pk where
    "R_StakingTxHex r \<noteq> []" "R_SlashingTxHex r \<noteq> []"
    "mapR (covenantAdaptorSigInfo lib) (R_CovenantSigs r) = Ok sigs"
    "mapR (MustToBTCPK lib) (R_FpBtcPkList r) = Ok fps"
    "MustToBTCPK lib (R_BtcPk r) = Ok pk"
    "unat (R_UnbondingTime r) \<le> 65535" "uint (R_TotalSat r) \<le> 2 ^ 63 - 1"
    "BtcPk d = pk" "FpBtcPks d = fps" "Del_CovenantSigs d = sigs" "BtcUndelegation d = undel"
    "undel = None \<longleftrightarrow> R_UndelegationResponse r = None"
    "StakingTime d = R_StakingTime r" "TotalSat d = R_TotalSat r"
    "StakingTxHex d = R_StakingTxHex r" "SlashingTxHex d = R_SlashingTxHex r"
    "StakingOutputIdx d = R_StakingOutputIdx r" "ParamsVersion d = R_ParamsVersion r"
    "UnbondingTime d = ucast (R_UnbondingTime r)"
    "StakeExpansion d = None \<longleftrightarrow> R_StkExp r = None"
  using assms
  by (auto simp: DelegationRespToDelegation_def act_simps MaxUint16_def not_less
      split: if_splits option.splits)

section \<open>Lemmas: the scan with an arbitrary filter\<close>

text \<open>
  A delegation translated from an answer of the node, and accepted by the filter in some state.
\<close>

definition accepted :: "querylib \<Rightarrow> 's filterFn option \<Rightarrow> Delegation \<Rightarrow> bool" where
  "accepted lib flt d \<longleftrightarrow> (\<exists>r. DelegationRespToDelegation lib r = Ok d) \<and>
     (case flt of None \<Rightarrow> True | Some f \<Rightarrow> \<exists>s s'. f d s = (Ok True, s'))"

lemma unat_Suc_word:
  assumes "(i :: uint64) < n"
  shows "unat (i + 1) = unat i + 1"
proof -
  have "unat n < 2 ^ LENGTH(64)" by (rule unsigned_less)
  with assms show ?thesis by (simp add: word_less_nat_alt unat_word_ariths)
qed

lemma scanPage_sound:
  assumes "scanPage lib flt lim dels i page s = (Ok out, s')"
    and "unat i = length dels" "i < lim" "list_all (accepted lib flt) dels"
  shows "case out of
      Inl ds \<Rightarrow> length ds = unat lim \<and> list_all (accepted lib flt) ds
    | Inr (ds, j) \<Rightarrow> unat j = length ds \<and> j < lim \<and> list_all (accepted lib flt) ds"
  using assms
proof (induction page arbitrary: dels i s)
  case Nil
  then show ?case by auto
next
  case (Cons r page)
  from Cons.prems(1) obtain d acc t where d: "DelegationRespToDelegation lib r = Ok d"
    and acc: "(case flt of None \<Rightarrow> returnS True | Some f \<Rightarrow> f d) s = (Ok acc, t)"
    and rest: "(if \<not> acc then scanPage lib flt lim dels i page
       else if i + 1 = lim then returnS (Inl (dels @ [d]))
       else scanPage lib flt lim (dels @ [d]) (i + 1) page) t = (Ok out, s')"
    by (auto simp: act_simps)
  show ?case
  proof (cases acc)
    case False
    with rest Cons.prems show ?thesis by (auto intro: Cons.IH)
  next
    case True
    with acc d have a: "accepted lib flt d"
      by (auto simp: accepted_def split: option.splits)
    have i1: "unat (i + 1) = length (dels @ [d])"
      using unat_Suc_word [OF Cons.prems(3)] Cons.prems(2) by simp
    show ?thesis
    proof (cases "i + 1 = lim")
      case True
      with rest \<open>acc\<close> a Cons.prems(4) i1 show ?thesis by auto
    next
      case False
      with Cons.prems(3) have "i + 1 < lim"
        by (metis inc_le order_le_neq_trans)
      with False rest \<open>acc\<close> a Cons.prems(4) i1 show ?thesis
        by (intro Cons.IH [of "dels @ [d]" "i + 1" t]) auto
    qed
  qed
qed

text \<open>
  The rule for the loop: an invariant of the loop variables gives a property of whatever the scan
  returns. With \<open>Q = (\<lambda>_. False)\<close> it shows that a scan does not return.
\<close>

lemma scanPages_rule:
  assumes ret: "scanPages bbn lib flt st pg lim key dels i s = Some r"
    and start: "I key dels i s"
    and step: "\<And>key dels i s key' dels' i' s'. I key dels i s \<Longrightarrow> i < lim \<Longrightarrow>
       scanStep bbn lib flt st pg lim key dels i s = Inr (key', dels', i', s') \<Longrightarrow> I key' dels' i' s'"
    and stop: "\<And>key dels i s r. I key dels i s \<Longrightarrow> i < lim \<Longrightarrow>
       scanStep bbn lib flt st pg lim key dels i s = Inl r \<Longrightarrow> Q r"
    and final: "\<And>key dels i s. I key dels i s \<Longrightarrow> \<not> i < lim \<Longrightarrow> Q (Ok dels, s)"
  shows "Q r"
proof -
  let ?P = "\<lambda>bbn' lib' flt' st' pg' lim' key dels i s r. bbn' = bbn \<longrightarrow> lib' = lib \<longrightarrow> flt' = flt
      \<longrightarrow> st' = st \<longrightarrow> pg' = pg \<longrightarrow> lim' = lim \<longrightarrow> I key dels i s \<longrightarrow> Q r"
  have "?P bbn' lib' flt' st' pg' lim' key dels i s r"
    if "scanPages bbn' lib' flt' st' pg' lim' key dels i s = Some r"
    for bbn' lib' flt' st' pg' lim' key dels i s r
  proof (rule scanPages.raw_induct [where P = ?P, OF _ that], intro impI, goal_cases)
    case (1 f bbn' lib' flt' st' pg' lim' key dels i s r)
    note IH = 1(1) and eq = 1(2) and I = 1(9) and [simp] = 1(3-8)
    show "Q r"
    proof (cases "i < lim")
      case False
      with eq final [OF I False] show ?thesis by simp
    next
      case True
      show ?thesis
      proof (cases "scanStep bbn lib flt st pg lim key dels i s")
        case (Inl out)
        with eq True stop [OF I True Inl] show ?thesis by simp
      next
        case (Inr x)
        obtain k ds j t where x: "x = (k, ds, j, t)" by (cases x)
        with eq True Inr have "f bbn lib flt st pg lim k ds j t = Some r" by simp
        moreover have "I k ds j t" by (rule step [OF I True]) (simp add: Inr x)
        ultimately show ?thesis using IH by blast
      qed
    qed
  qed
  with ret start show ?thesis by blast
qed

lemma scanStep_sound:
  assumes "unat i = length dels" "i < lim" "list_all (accepted lib flt) dels"
  shows "case scanStep bbn lib flt st pg lim key dels i s of
      Inl (Ok ds, s') \<Rightarrow> length ds \<le> unat lim \<and> list_all (accepted lib flt) ds
    | Inl _ \<Rightarrow> True
    | Inr (key', ds, j, s') \<Rightarrow> unat j = length ds \<and> j < lim \<and> list_all (accepted lib flt) ds"
  using assms unfolding scanStep_def
  by (auto split: prod.splits result.splits sum.splits option.splits
      dest!: scanPage_sound simp: word_less_nat_alt)

lemma scanPages_sound:
  assumes "scanPages bbn lib flt st pg lim key dels i s = Some (Ok ds, s')"
    and "unat i = length dels" "i \<le> lim" "list_all (accepted lib flt) dels"
  shows "length ds \<le> unat lim \<and> list_all (accepted lib flt) ds"
proof -
  have "case (Ok ds, s') of (Ok ds, _) \<Rightarrow> length ds \<le> unat lim \<and> list_all (accepted lib flt) ds | _ \<Rightarrow> True"
    using assms(1)
  proof (rule scanPages_rule [where
        I = "\<lambda>key dels i s. unat i = length dels \<and> i \<le> lim \<and> list_all (accepted lib flt) dels"])
    show "unat i = length dels \<and> i \<le> lim \<and> list_all (accepted lib flt) dels" using assms by blast
  next
    fix key dels i s key' dels' i' s'
    assume "unat i = length dels \<and> i \<le> lim \<and> list_all (accepted lib flt) dels" and "i < lim"
      and "scanStep bbn lib flt st pg lim key dels i s = Inr (key', dels', i', s')"
    then show "unat i' = length dels' \<and> i' \<le> lim \<and> list_all (accepted lib flt) dels'"
      using scanStep_sound [of i dels lim lib flt bbn st pg key s] by (simp add: less_imp_le)
  next
    fix key dels i s r
    assume "unat i = length dels \<and> i \<le> lim \<and> list_all (accepted lib flt) dels" and "i < lim"
      and "scanStep bbn lib flt st pg lim key dels i s = Inl r"
    then show "case r of (Ok ds, _) \<Rightarrow> length ds \<le> unat lim \<and> list_all (accepted lib flt) ds | _ \<Rightarrow> True"
      using scanStep_sound [of i dels lim lib flt bbn st pg key s] by simp
  next
    fix key :: bytes and dels i s
    assume "unat i = length dels \<and> i \<le> lim \<and> list_all (accepted lib flt) dels"
    then show "case (Ok dels, s) of (Ok ds, _) \<Rightarrow> length ds \<le> unat lim \<and> list_all (accepted lib flt) ds | _ \<Rightarrow> True"
      by (simp add: word_le_nat_alt)
  qed
  then show ?thesis by simp
qed

section \<open>Lemmas: the scan of a paginated store\<close>

text \<open>
  The documented pagination of the node: the answer to the key of position \<open>i\<close> is the next
  \<open>pgLimit\<close> entries of the store from \<open>i\<close> on; the next key is the key of the entry after
  them, and it is empty when there are no more results. The empty key asks for the first page.
\<close>

definition paged_store ::
  "'s bbnclient \<Rightarrow> BTCDelegationStatus \<Rightarrow> uint64 \<Rightarrow> BTCDelegationResponse list \<Rightarrow> (nat \<Rightarrow> bytes) \<Rightarrow> bool" where
  "paged_store bbn status pgLimit store keyOf \<longleftrightarrow> keyOf 0 = [] \<and>
     (\<forall>i s. i \<le> length store \<longrightarrow>
        Client_BTCDelegations bbn status \<lparr>PR_Key = keyOf i, PR_Limit = pgLimit\<rparr> s =
          (Ok \<lparr>BtcDelegations = take (unat pgLimit) (drop i store),
               Pagination_NextKey = Some (if i + unat pgLimit < length store
                                          then keyOf (i + unat pgLimit) else [])\<rparr>, s))"

text \<open>A filter whose answer only depends on the delegation.\<close>

definition pure_filter :: "(Delegation \<Rightarrow> bool) \<Rightarrow> 's filterFn option" where
  "pure_filter acc = Some (\<lambda>d. returnS (acc d))"

lemma scanPage_pure:
  assumes "mapR (DelegationRespToDelegation lib) page = Ok ds"
    and "length dels < unat lim"
  shows "scanPage lib (pure_filter acc) lim dels (word_of_nat (length dels)) page s =
    (if unat lim \<le> length (dels @ filter acc ds)
     then (Ok (Inl (take (unat lim) (dels @ filter acc ds))), s)
     else (Ok (Inr (dels @ filter acc ds, word_of_nat (length (dels @ filter acc ds)))), s))"
  using assms
proof (induction page arbitrary: ds dels)
  case Nil
  then show ?case by simp
next
  case (Cons r page)
  from Cons.prems(1) obtain d ds' where d: "DelegationRespToDelegation lib r = Ok d"
    and ds': "mapR (DelegationRespToDelegation lib) page = Ok ds'" and ds: "ds = d # ds'"
    by (auto simp: act_simps)
  note eq = word_of_nat_Suc_eq_iff [OF Cons.prems(2)]
  show ?case
  proof (cases "acc d")
    case False
    with Cons.IH [OF ds' Cons.prems(2)] d ds show ?thesis
      by (simp add: pure_filter_def)
  next
    case True
    show ?thesis
    proof (cases "Suc (length dels) = unat lim")
      case True
      then have "take (unat lim) (dels @ d # filter acc ds') = dels @ [d]"
        by (metis append_take_drop_id butlast_snoc length_append_singleton append.assoc append_Cons
            append_Nil append_eq_conv_conj)
      with True \<open>acc d\<close> d ds eq show ?thesis
        by (simp add: pure_filter_def del: take_append)
    next
      case False
      with Cons.prems(2) have "length (dels @ [d]) < unat lim" by simp
      from Cons.IH [OF ds' this] \<open>acc d\<close> False d ds eq show ?thesis
        by (simp add: pure_filter_def add.commute)
    qed
  qed
qed

lemma mapR_take_drop:
  "mapR f xs = Ok ys \<Longrightarrow> mapR f (take n (drop i xs)) = Ok (take n (drop i ys))"
  by (simp add: mapR_Ok_iff list_all2_takeI list_all2_dropI)

lemma word_of_nat_length_neq_iff:
  "n \<le> unat (m :: uint64) \<Longrightarrow> word_of_nat n \<noteq> m \<longleftrightarrow> n \<noteq> unat m"
  using unat_uint64_less [of m] by (simp add: word_unat_eq_iff unat_word_of_nat64)

lemma scanStep_paged:
  assumes "paged_store bbn st pg store keyOf"
    and conv: "mapR (DelegationRespToDelegation lib) store = Ok ds"
    and "i \<le> length ds" "length dels < unat lim"
  shows "scanStep bbn lib (pure_filter acc) st pg lim (keyOf i) dels (word_of_nat (length dels)) s =
    (let page = take (unat pg) (drop i ds); out = dels @ filter acc page
     in if unat lim \<le> length out then Inl (Ok (take (unat lim) out), s)
        else if length page \<noteq> unat pg then Inl (Ok out, s)
        else Inr (if i + unat pg < length ds then keyOf (i + unat pg) else keyOf 0,
                  out, word_of_nat (length out), s))"
proof -
  have len: "length ds = length store" using conv by (rule mapR_Ok_length)
  have page: "mapR (DelegationRespToDelegation lib) (take (unat pg) (drop i store))
      = Ok (take (unat pg) (drop i ds))"
    using conv by (rule mapR_take_drop)
  have q: "Client_BTCDelegations bbn st \<lparr>PR_Key = keyOf i, PR_Limit = pg\<rparr> s =
      (Ok \<lparr>BtcDelegations = take (unat pg) (drop i store),
           Pagination_NextKey = Some (if i + unat pg < length ds then keyOf (i + unat pg) else keyOf 0)\<rparr>, s)"
    using assms(1,3) len by (simp add: paged_store_def)
  have "word_of_nat (length (take (unat pg) (drop i store))) \<noteq> pg
      \<longleftrightarrow> length (take (unat pg) (drop i ds)) \<noteq> unat pg"
    using len by (subst word_of_nat_length_neq_iff) auto
  then show ?thesis
    unfolding scanStep_def
    by (simp only: q scanPage_pure [OF page assms(4)] prod.case result.case
        QueryBTCDelegationsResponse.select_convs option.case Let_def split: if_split) simp
qed

lemma scanPages_paged:
  assumes "paged_store bbn st pg store keyOf"
    and "mapR (DelegationRespToDelegation lib) store = Ok ds"
    and "i \<le> length ds" "length dels < unat lim"
  shows "scanPages bbn lib (pure_filter acc) st pg lim (keyOf i) dels (word_of_nat (length dels)) s =
    (let page = take (unat pg) (drop i ds); out = dels @ filter acc page
     in if unat lim \<le> length out then Some (Ok (take (unat lim) out), s)
        else if length page \<noteq> unat pg then Some (Ok out, s)
        else scanPages bbn lib (pure_filter acc) st pg lim
               (keyOf (if i + unat pg < length ds then i + unat pg else 0))
               out (word_of_nat (length out)) s)"
proof -
  have "(word_of_nat (length dels) :: uint64) < lim"
    using assms(4) unat_uint64_less [of lim] by (simp add: word_less_nat_alt unat_word_of_nat64)
  then show ?thesis
    by (subst scanPages.simps) (simp add: scanStep_paged [OF assms] Let_def)
qed

lemma filter_drop_page:
  "filter acc (take n (drop i ds)) @ filter acc (drop (i + n) ds) = filter acc (drop i ds)"
  by (metis append_take_drop_id drop_drop add.commute filter_append)

lemma take_append_prefix: "n \<le> length xs \<Longrightarrow> take n (xs @ ys) = take n xs"
  by simp

text \<open>
  If the entries that are left are not a whole number of pages, or the limit is reached among
  them, the scan returns the first \<open>lim\<close> accepted ones.
\<close>

lemma scanPages_complete:
  assumes store: "paged_store bbn st pg store keyOf"
    "mapR (DelegationRespToDelegation lib) store = Ok ds" and pg: "0 < unat pg"
    and "i \<le> length ds" "length dels < unat lim"
    and "i = length ds \<or> (length ds - i) mod unat pg \<noteq> 0
       \<or> unat lim \<le> length (dels @ filter acc (drop i ds))"
  shows "scanPages bbn lib (pure_filter acc) st pg lim (keyOf i) dels (word_of_nat (length dels)) s
    = Some (Ok (take (unat lim) (dels @ filter acc (drop i ds))), s)"
  using assms(4-)
proof (induction "length ds - i" arbitrary: i dels rule: less_induct)
  case less
  define page where "page = take (unat pg) (drop i ds)"
  define out where "out = dels @ filter acc page"
  have split: "dels @ filter acc (drop i ds) = out @ filter acc (drop (i + unat pg) ds)"
    unfolding out_def page_def by (simp add: filter_drop_page)
  note unf = scanPages_paged [OF store less.prems(1,2), of acc s, folded page_def, unfolded Let_def, folded out_def]
  consider (limit) "unat lim \<le> length out" | (last) "length out < unat lim" "length page \<noteq> unat pg"
    | (more) "length out < unat lim" "length page = unat pg" by linarith
  then show ?case
  proof cases
    case limit
    then show ?thesis unfolding unf split by simp
  next
    case last
    then have "drop (i + unat pg) ds = []" by (auto simp: page_def)
    with last show ?thesis unfolding unf split by simp
  next
    case more
    then have le: "i + unat pg \<le> length ds" using pg by (auto simp: page_def)
    have "i + unat pg < length ds"
    proof (rule ccontr)
      assume "\<not> ?thesis"
      with le have "length ds - i = unat pg" by linarith
      then have "(length ds - i) mod unat pg = 0" "i \<noteq> length ds" "drop (i + unat pg) ds = []"
        using pg by auto
      with less.prems(3) split more(1) show False by simp
    qed
    moreover have "(length ds - (i + unat pg)) mod unat pg = (length ds - i) mod unat pg"
      using le by (metis add_le_imp_le_diff diff_diff_left le_mod_geq add.commute)
    moreover have "i \<noteq> length ds" using le pg by simp
    ultimately have "scanPages bbn lib (pure_filter acc) st pg lim (keyOf (i + unat pg)) out
        (word_of_nat (length out)) s
      = Some (Ok (take (unat lim) (out @ filter acc (drop (i + unat pg) ds))), s)"
      using less.hyps [of "i + unat pg" out] less.prems(3) more le pg split by auto
    with more \<open>i + unat pg < length ds\<close> show ?thesis unfolding unf split by simp
  qed
qed

text \<open>
  If the entries that are left are a whole number of pages and the limit is not reached among
  them, the next key of the last page is empty, and the scan goes on at the first page again.
\<close>

lemma scanPages_wraps:
  assumes store: "paged_store bbn st pg store keyOf"
    "mapR (DelegationRespToDelegation lib) store = Ok ds" and pg: "0 < unat pg"
    and "i < length ds" "(length ds - i) mod unat pg = 0"
    and "length (dels @ filter acc (drop i ds)) < unat lim"
  shows "scanPages bbn lib (pure_filter acc) st pg lim (keyOf i) dels (word_of_nat (length dels)) s
    = scanPages bbn lib (pure_filter acc) st pg lim (keyOf 0) (dels @ filter acc (drop i ds))
        (word_of_nat (length (dels @ filter acc (drop i ds)))) s"
  using assms(4-)
proof (induction "length ds - i" arbitrary: i dels rule: less_induct)
  case less
  define page where "page = take (unat pg) (drop i ds)"
  define out where "out = dels @ filter acc page"
  have split: "dels @ filter acc (drop i ds) = out @ filter acc (drop (i + unat pg) ds)"
    unfolding out_def page_def by (simp add: filter_drop_page)
  have "length dels < unat lim" using less.prems(3) by simp
  note unf = scanPages_paged [OF store less_imp_le [OF less.prems(1)] this, of acc s,
      folded page_def, unfolded Let_def, folded out_def]
  have le: "i + unat pg \<le> length ds"
    using less.prems(1,2) by (metis add.commute le_diff_conv2 less_imp_le mod_less not_less zero_less_diff
        less_numeral_extra(3))
  then have full: "length page = unat pg" by (simp add: page_def)
  have out: "length out < unat lim" using less.prems(3) split by simp
  show ?case
  proof (cases "i + unat pg < length ds")
    case True
    have "(length ds - (i + unat pg)) mod unat pg = 0"
      using less.prems(2) le by (metis add_le_imp_le_diff diff_diff_left le_mod_geq add.commute)
    with less.hyps [of "i + unat pg" out] True pg less.prems(3) split show ?thesis
      unfolding unf using full out by simp
  next
    case False
    then have "drop (i + unat pg) ds = []" by simp
    with False full out show ?thesis unfolding unf split by simp
  qed
qed

text \<open>Then nothing accepted means that the scan never returns.\<close>

lemma scanStep_paged_none:
  assumes store: "paged_store bbn st pg store keyOf"
    "mapR (DelegationRespToDelegation lib) store = Ok ds"
    and none: "filter acc ds = []" and lim: "0 < unat lim" and "unat pg dvd length ds"
    and "i < length ds" "unat pg dvd i"
  shows "scanStep bbn lib (pure_filter acc) st pg lim (keyOf i) [] 0 s
    = Inr (keyOf (if i + unat pg < length ds then i + unat pg else 0), [], 0, s)"
proof -
  have "unat pg dvd length ds - i" using assms(5-7) by (simp add: dvd_diff_nat)
  then have "unat pg \<le> length ds - i" using assms(6) by (simp add: dvd_imp_le)
  then have full: "length (take (unat pg) (drop i ds)) = unat pg" by simp
  have nil: "filter acc (take (unat pg) (drop i ds)) = []"
    using none by (auto simp: filter_empty_conv dest!: in_set_takeD in_set_dropD)
  note step = scanStep_paged [OF store, of i "[]" lim acc s]
  show ?thesis
    using step lim assms(6) unfolding Let_def nil full by simp
qed

lemma scanPages_diverges:
  assumes store: "paged_store bbn st pg store keyOf"
    "mapR (DelegationRespToDelegation lib) store = Ok ds"
    and none: "filter acc ds = []" and lim: "0 < unat lim" and whole: "unat pg dvd length ds" "ds \<noteq> []"
  shows "scanPages bbn lib (pure_filter acc) st pg lim (keyOf 0) [] 0 s = None"
proof (rule ccontr)
  assume "\<not> ?thesis"
  then obtain r where ret: "scanPages bbn lib (pure_filter acc) st pg lim (keyOf 0) [] 0 s = Some r"
    by blast
  let ?I = "\<lambda>key dels i (s :: 'a). \<exists>n < length ds. unat pg dvd n \<and> key = keyOf n \<and> dels = [] \<and> i = 0"
  from ret have False
  proof (rule scanPages_rule [where I = ?I])
    show "?I (keyOf 0) [] 0 s" using whole by auto
  next
    fix key dels i s key' dels' i' s'
    assume "?I key dels i s"
      and "scanStep bbn lib (pure_filter acc) st pg lim key dels i s = Inr (key', dels', i', s')"
    then obtain n where n: "n < length ds" "unat pg dvd n"
      and "(keyOf (if n + unat pg < length ds then n + unat pg else 0), [], 0, s) = (key', dels', i', s')"
      using scanStep_paged_none [OF store none lim whole(1)] by fastforce
    then show "?I key' dels' i' s'"
      using whole by (cases "n + unat pg < length ds") auto
  next
    fix key dels i s r
    assume "?I key dels i s" and "scanStep bbn lib (pure_filter acc) st pg lim key dels i s = Inl r"
    then show False using scanStep_paged_none [OF store none lim whole(1)] by fastforce
  next
    fix key :: bytes and dels :: "Delegation list" and i and s :: 'a
    assume "?I key dels i s" and "\<not> i < lim"
    then show False using lim by (auto simp: word_less_nat_alt)
  qed
  then show False .
qed

text \<open>And something accepted, but less than the limit, is returned again and again.\<close>

lemma take_concat_replicate:
  assumes "fs \<noteq> []" "n \<le> m"
  shows "n \<le> length (concat (replicate m fs))"
  using assms(2)
proof (induction m arbitrary: n)
  case 0
  then show ?case by simp
next
  case (Suc m)
  have "1 \<le> length fs" using assms(1) by (simp add: Suc_le_eq)
  moreover have "n - 1 \<le> length (concat (replicate m fs))"
    using Suc by simp
  ultimately show ?case by simp
qed

lemma scanPages_repeats:
  assumes store: "paged_store bbn st pg store keyOf"
    "mapR (DelegationRespToDelegation lib) store = Ok ds" and pg: "0 < unat pg"
    and some: "filter acc ds \<noteq> []" and "length dels < unat lim" and whole: "unat pg dvd length ds"
  shows "scanPages bbn lib (pure_filter acc) st pg lim (keyOf 0) dels (word_of_nat (length dels)) s
    = Some (Ok (take (unat lim) (dels @ concat (replicate (unat lim) (filter acc ds)))), s)"
  using assms(5)
proof (induction "unat lim - length dels" arbitrary: dels rule: less_induct)
  case less
  define fs where "fs = filter acc ds"
  obtain n where n: "unat lim = Suc n" using less.prems by (cases "unat lim") auto
  show ?case
  proof (cases "unat lim \<le> length (dels @ fs)")
    case True
    have "scanPages bbn lib (pure_filter acc) st pg lim (keyOf 0) dels (word_of_nat (length dels)) s
      = Some (Ok (take (unat lim) (dels @ fs)), s)"
      using scanPages_complete [OF store pg, of 0 dels lim acc s] less.prems True by (simp add: fs_def)
    moreover have "take (unat lim) (dels @ concat (replicate (unat lim) fs)) = take (unat lim) (dels @ fs)"
      using True n take_append_prefix [of "unat lim" "dels @ fs" "concat (replicate n fs)"]
      by (simp del: take_append)
    ultimately show ?thesis by (simp add: fs_def)
  next
    case False
    then have small: "length (dels @ filter acc (drop 0 ds)) < unat lim" by (simp add: fs_def)
    have "0 < length ds" using some by (cases ds) auto
    moreover have "(length ds - 0) mod unat pg = 0" using whole by simp
    ultimately have "scanPages bbn lib (pure_filter acc) st pg lim (keyOf 0) dels (word_of_nat (length dels)) s
      = scanPages bbn lib (pure_filter acc) st pg lim (keyOf 0) (dels @ fs) (word_of_nat (length (dels @ fs))) s"
      using scanPages_wraps [OF store pg _ _ small] by (simp add: fs_def)
    also have "\<dots> = Some (Ok (take (unat lim) ((dels @ fs) @ concat (replicate (unat lim) fs))), s)"
    proof (unfold fs_def, rule less.hyps)
      have "0 < length (filter acc ds)" using some by simp
      then show "unat lim - length (dels @ filter acc ds) < unat lim - length dels"
        using less.prems unfolding length_append by linarith
    qed (use False in \<open>simp add: fs_def\<close>)
    also have "(dels @ fs) @ concat (replicate (unat lim) fs)
        = (dels @ concat (replicate (unat lim) fs)) @ fs"
      by (simp flip: concat_append replicate_Suc replicate_append_same)
         (metis append.right_neutral concat.simps concat_append replicate_Suc replicate_append_same)
    also have "take (unat lim) \<dots> = take (unat lim) (dels @ concat (replicate (unat lim) fs))"
      using take_concat_replicate [of fs "unat lim" "unat lim"] some
      by (intro take_append_prefix) (simp add: fs_def)
    finally show ?thesis by (simp add: fs_def)
  qed
qed


section \<open>Properties\<close>

text \<open>A node with a list of delegations for the witnesses; the key of a page is its position.\<close>

definition sample_key :: "nat \<Rightarrow> bytes" where
  "sample_key i = (if i = 0 then [] else [word_of_nat i])"

definition sample_pos :: "bytes \<Rightarrow> nat" where
  "sample_pos k = (case k of [] \<Rightarrow> 0 | b # _ \<Rightarrow> unat b)"

definition sample_btcstaking :: BTCStakingParams where
  "sample_btcstaking = \<lparr>P_CovenantPks = [BIP340PubKey [2], BIP340PubKey [1]], P_CovenantQuorum = 1,
     P_MinStakingValueSat = 500, P_MaxStakingValueSat = 2000, P_MinStakingTimeBlocks = 50,
     P_MaxStakingTimeBlocks = 200, P_SlashingPkScript = [], P_MinSlashingTxFeeSat = 1,
     P_SlashingRate = LegacyDec 0, P_UnbondingTimeBlocks = 10, P_UnbondingFeeSat = 5,
     P_MinCommissionRate = LegacyDec 0\<rparr>"

definition sample_bbn :: "BTCDelegationResponse list \<Rightarrow> unit bbnclient" where
  "sample_bbn store = \<lparr>
     Client_BTCCheckpointParams = returnS \<lparr>BtcConfirmationDepth = 1, CheckpointFinalizationTimeout = 1\<rparr>,
     Client_BTCStakingParamsByVersion = (\<lambda>_. returnS sample_btcstaking),
     Client_BTCDelegation = (\<lambda>_. returnS (store ! 0)),
     Client_BTCDelegations = (\<lambda>_ pr.
       let i = sample_pos (PR_Key pr); n = unat (PR_Limit pr)
       in returnS \<lparr>BtcDelegations = take n (drop i store),
            Pagination_NextKey = Some (if i + n < length store then sample_key (i + n) else [])\<rparr>)\<rparr>"

definition sample_qlib :: querylib where
  "sample_qlib = \<lparr>ToBTCPK = (\<lambda>k. case k of BIP340PubKey b \<Rightarrow> Ok (PublicKey b)),
     MustToBTCPK = (\<lambda>k. case k of BIP340PubKey b \<Rightarrow> Ok (PublicKey b)),
     ToBTCSig = (\<lambda>s. case s of BIP340Signature b \<Rightarrow> Ok (SchnorrSignature b))\<rparr>"

definition sample_response :: BTCDelegationResponse where
  "sample_response = \<lparr>R_BtcPk = BIP340PubKey [2], R_FpBtcPkList = [BIP340PubKey [2]], R_StakingTime = 100,
     R_StartHeight = 1, R_EndHeight = 101, R_TotalSat = 1000, R_StakingTxHex = ''00'',
     R_SlashingTxHex = ''01'', R_CovenantSigs = [], R_StakingOutputIdx = 0, R_UnbondingTime = 10,
     R_UndelegationResponse = Some \<lparr>UR_UnbondingTxHex = ''05'', UR_SlashingTxHex = ''06'',
       UR_CovenantUnbondingSigList = [], UR_CovenantSlashingSigs = [], UR_DelegatorUnbondingInfo = None\<rparr>,
     R_ParamsVersion = 0, R_StkExp = None\<rparr>"

lemma sample_response_translates: "DelegationRespToDelegation sample_qlib sample_response = Ok sample_del"
  by (simp add: DelegationRespToDelegation_def UndelegationRespToUndelegation_def sample_response_def
      sample_qlib_def sample_del_def sample_undel_def key_b_def MaxUint16_def)

lemma sample_bbn_paged:
  assumes "length store < 256"
  shows "paged_store (sample_bbn store) st pg store sample_key"
proof -
  have "sample_pos (sample_key i) = i" if "i \<le> length store" for i
    using that assms by (simp add: sample_pos_def sample_key_def unat_of_nat)
  then show ?thesis
    by (simp add: paged_store_def sample_bbn_def Let_def) (simp add: sample_key_def)
qed

lemma min_pagination_pos: "0 < unat lim \<Longrightarrow> 0 < unat (min MaxPaginationLimit lim)"
  by (auto simp: min_def MaxPaginationLimit_def)


text \<open>
  C22. A scan is complete. On a node that keeps its delegations in pages, the scan returns the first
  accepted delegations up to the limit, provided their number is not a whole number of pages or the
  limit is reached.
\<close>

theorem queryDelegations_complete:
  assumes "paged_store bbn status (min MaxPaginationLimit delsLimit) store keyOf"
    and "mapR (DelegationRespToDelegation lib) store = Ok ds" and "0 < unat delsLimit"
    and "ds = [] \<or> length ds mod unat (min MaxPaginationLimit delsLimit) \<noteq> 0
       \<or> unat delsLimit \<le> length (filter acc ds)"
  shows "queryDelegationsWithStatus bbn lib status delsLimit (pure_filter acc) s
    = Some (Ok (take (unat delsLimit) (filter acc ds)), s)"
  using scanPages_complete [OF assms(1,2) min_pagination_pos [OF assms(3)], of 0 "[]" delsLimit acc s] assms
  by (auto simp: queryDelegationsWithStatus_def paged_store_def)

text \<open>
  Otherwise the scan starts again at the first page, because the key after the last page is
  empty: if something was accepted, the same delegations are returned again and again until the
  limit is reached.
\<close>

lemma queryDelegations_repeats:
  assumes "paged_store bbn status (min MaxPaginationLimit delsLimit) store keyOf"
    and "mapR (DelegationRespToDelegation lib) store = Ok ds" and "0 < unat delsLimit"
    and "unat (min MaxPaginationLimit delsLimit) dvd length ds" "filter acc ds \<noteq> []"
  shows "queryDelegationsWithStatus bbn lib status delsLimit (pure_filter acc) s
    = Some (Ok (take (unat delsLimit) (concat (replicate (unat delsLimit) (filter acc ds)))), s)"
  using scanPages_repeats [OF assms(1,2) min_pagination_pos [OF assms(3)] assms(5), of "[]" delsLimit s] assms
  by (simp add: queryDelegationsWithStatus_def paged_store_def)

text \<open>
  C28. And if nothing was accepted, the scan never returns: a node whose pending delegations are a
  whole number of pages, all of them to be skipped, stops the emulator.
\<close>

theorem queryDelegations_diverges:
  assumes "paged_store bbn status (min MaxPaginationLimit delsLimit) store keyOf"
    and "mapR (DelegationRespToDelegation lib) store = Ok ds" and "0 < unat delsLimit" "ds \<noteq> []"
    and "unat (min MaxPaginationLimit delsLimit) dvd length ds" "filter acc ds = []"
  shows "queryDelegationsWithStatus bbn lib status delsLimit (pure_filter acc) s = None"
  using scanPages_diverges [OF assms(1,2,6,3,5,4)] assms(1)
  by (simp add: queryDelegationsWithStatus_def paged_store_def)


lemma sample_translates:
  "mapR (DelegationRespToDelegation sample_qlib) [sample_response] = Ok [sample_del]"
  "mapR (DelegationRespToDelegation sample_qlib) [sample_response, sample_response] = Ok [sample_del, sample_del]"
  by (simp_all add: sample_response_translates)

theorem queryDelegations_complete_witness:
  "queryDelegationsWithStatus (sample_bbn [sample_response]) sample_qlib PENDING 2
     (pure_filter (\<lambda>d. TotalSat d = 1000)) () = Some (Ok [sample_del], ())"
  using queryDelegations_complete [OF sample_bbn_paged sample_translates(1), of 2 "\<lambda>d. TotalSat d = 1000" PENDING "()"]
  by (simp add: MaxPaginationLimit_def min_def sample_del_def)

lemma sample_translates_two:
  "mapR (DelegationRespToDelegation sample_qlib) [sample_response, sample_response\<lparr>R_TotalSat := 7\<rparr>]
    = Ok [sample_del, sample_del\<lparr>TotalSat := 7\<rparr>]"
  using sample_response_translates
  by (simp add: DelegationRespToDelegation_def UndelegationRespToUndelegation_def sample_response_def
      sample_qlib_def sample_del_def sample_undel_def key_b_def MaxUint16_def)

text \<open>With a limit of two, a delegation that is accepted beside one that is not is returned twice.\<close>

lemma queryDelegations_repeats_example:
  "queryDelegationsWithStatus (sample_bbn [sample_response, sample_response\<lparr>R_TotalSat := 7\<rparr>]) sample_qlib
     PENDING 2 (pure_filter (\<lambda>d. TotalSat d = 1000)) () = Some (Ok [sample_del, sample_del], ())"
proof -
  have "filter (\<lambda>d. TotalSat d = 1000) [sample_del, sample_del\<lparr>TotalSat := 7\<rparr>] = [sample_del]"
    by (simp add: sample_del_def)
  moreover have "take 2 (concat (replicate 2 [sample_del])) = [sample_del, sample_del]"
    by (simp add: numeral_2_eq_2)
  ultimately show ?thesis
    using queryDelegations_repeats [OF sample_bbn_paged sample_translates_two, of 2 "\<lambda>d. TotalSat d = 1000" PENDING "()"]
    by (simp add: MaxPaginationLimit_def min_def)
qed

theorem queryDelegations_diverges_witness:
  "queryDelegationsWithStatus (sample_bbn [sample_response, sample_response]) sample_qlib PENDING 2
     (pure_filter (\<lambda>d. TotalSat d = 0)) () = None"
  using queryDelegations_diverges [OF sample_bbn_paged sample_translates(2), of 2 "\<lambda>d. TotalSat d = 0" PENDING "()"]
  by (simp add: MaxPaginationLimit_def min_def sample_del_def)

text \<open>
  The parameters the emulator works with are those of the chain: a successful query keeps the
  committee, the quorum, the script and every amount, and its staking times are the chain's times
  without loss although they are narrowed from 32 to 16 bits.
\<close>

lemma QueryStakingParamsByVersion_lossless:
  assumes "QueryStakingParamsByVersion bbn lib version s = (Ok p, s')"
  shows "\<exists>ckpt params s1. Client_BTCCheckpointParams bbn s = (Ok ckpt, s1)
    \<and> Client_BTCStakingParamsByVersion bbn version s1 = (Ok params, s')
    \<and> mapR (ToBTCPK lib) (P_CovenantPks params) = Ok (CovenantPks p)
    \<and> unat (MinStakingTime p) = unat (P_MinStakingTimeBlocks params)
    \<and> unat (MaxStakingTime p) = unat (P_MaxStakingTimeBlocks params)
    \<and> (CovenantQuorum p, SlashingPkScript p, SlashingRate p, UnbondingTimeBlocks p)
      = (P_CovenantQuorum params, P_SlashingPkScript params, P_SlashingRate params, P_UnbondingTimeBlocks params)
    \<and> (MinStakingValue p, MaxStakingValue p, UnbondingFee p, MinSlashingTxFeeSat p)
      = (P_MinStakingValueSat params, P_MaxStakingValueSat params, P_UnbondingFeeSat params,
         P_MinSlashingTxFeeSat params)"
proof -
  have cast: "unat (ucast n :: uint16) = unat n" if "unat (n :: uint32) \<le> 65535" for n
    using that by (simp add: unat_ucast_uint16)
  show ?thesis
    using assms
    by (auto simp: QueryStakingParamsByVersion_def stakingParams_def act_simps MaxUint16_def not_less cast
        split: if_splits)
qed

lemma QueryStakingParamsByVersion_lossless_example:
  "\<exists>p. QueryStakingParamsByVersion (sample_bbn []) sample_qlib 0 () = (Ok p, ()) \<and> unat (MaxStakingTime p) = 200"
proof -
  have "\<exists>p. QueryStakingParamsByVersion (sample_bbn []) sample_qlib 0 () = (Ok p, ())"
    by (simp add: QueryStakingParamsByVersion_def sample_bbn_def stakingParams_def sample_btcstaking_def
        sample_qlib_def MaxUint16_def)
  then obtain p where p: "QueryStakingParamsByVersion (sample_bbn []) sample_qlib 0 () = (Ok p, ())" by blast
  from QueryStakingParamsByVersion_lossless [OF p] have "unat (MaxStakingTime p) = 200"
    by (auto simp: sample_bbn_def sample_btcstaking_def)
  with p show ?thesis by blast
qed

end
