(* ===== verification/Controller.thy ===== *)
theory Controller
  imports Emulator BatchSend ChainQueries
begin

text \<open>
  The Babylon controller as a whole (\<^verbatim>\<open>clientcontroller/interface.go\<close> and the rest of
  \<^verbatim>\<open>clientcontroller/babylon.go\<close>): its constructors, the instance of the interface
  \<^verbatim>\<open>ClientController\<close> the emulator works with, and the operations that only the end-to-end tests
  call.

  The lemmas show that the list of finality providers is complete on a store that hands out pages.
\<close>

section \<open>Construction\<close>

record ('s, 'c) bbnclientlib =
  BabylonConfig_Validate :: "BabylonConfig \<Rightarrow> unit result"
  bbnclient_New :: "BabylonConfig \<Rightarrow> ('s, 'c) act"

definition NewBabylonController ::
  "('s, 'c) bbnclientlib \<Rightarrow> BBNConfig \<Rightarrow> uint64 \<Rightarrow> ('s, 'c \<times> BabylonController) act" where
  "NewBabylonController clib cfg maxRetiresBatchRemovingMsgs =
     (let bbnConfig = BBNConfigToBabylonConfig cfg in
      bindS (mapErrS (\<lambda>e. ''invalid config for Babylon client: '' @ e)
               (liftR (BabylonConfig_Validate clib bbnConfig))) (\<lambda>_.
      bindS (mapErrS (\<lambda>e. ''failed to create Babylon client: '' @ e) (bbnclient_New clib bbnConfig)) (\<lambda>bc.
      returnS (bc, \<lparr>Cfg_Key = BBN_Key cfg, Cfg_AccountPrefix = BBN_AccountPrefix cfg,
                    MaxRetiresBatchRemovingMsgs = maxRetiresBatchRemovingMsgs\<rparr>))))"

definition NewClientController ::
  "('s, 'c) bbnclientlib \<Rightarrow> string \<Rightarrow> BBNConfig \<Rightarrow> uint64 \<Rightarrow> ('s, 'c \<times> BabylonController) act" where
  "NewClientController clib chainName bbnConfig maxRetiresBatchRemovingMsgs =
     (if chainName = ''babylon''
      then mapErrS (\<lambda>e. ''failed to create Babylon rpc client: '' @ e)
             (NewBabylonController clib bbnConfig maxRetiresBatchRemovingMsgs)
      else failS ''unsupported consumer chain'')"

section \<open>The controller as the emulator's client\<close>

text \<open>The client of the node in a state that holds more than the outside world.\<close>

definition liftClient :: "'w bbnclient \<Rightarrow> ('w, 'z) pcache_scheme bbnclient" where
  "liftClient bbn = \<lparr>Client_BTCCheckpointParams = onWorld (Client_BTCCheckpointParams bbn),
     Client_BTCStakingParamsByVersion = (\<lambda>v. onWorld (Client_BTCStakingParamsByVersion bbn v)),
     Client_BTCDelegation = (\<lambda>h. onWorld (Client_BTCDelegation bbn h)),
     Client_BTCDelegations = (\<lambda>st pr. onWorld (Client_BTCDelegations bbn st pr))\<rparr>"

definition babylonClient ::
  "'w bbnclient \<Rightarrow> querylib \<Rightarrow> ('w, MsgAddCovenantSigs) sender \<Rightarrow> (string \<Rightarrow> ('w, KeyRecord) act)
    \<Rightarrow> btclib \<Rightarrow> bbnlib \<Rightarrow> BabylonController \<Rightarrow> 'w ClientController" where
  "babylonClient bbn qlib sendMsgs keyringKey blib lib bc =
     \<lparr>CC_SubmitCovenantSigs = SubmitCovenantSigs sendMsgs keyringKey blib lib bc,
      CC_QueryPendingDelegations = (\<lambda>limit flt. QueryPendingDelegations (liftClient bbn) qlib limit flt),
      CC_QueryBTCDelegation = QueryBTCDelegation bbn qlib,
      CC_QueryStakingParamsByVersion = QueryStakingParamsByVersion bbn qlib\<rparr>"

text \<open>\<^verbatim>\<open>Close\<close> stops a client that runs.\<close>

definition CloseClient :: "('s \<Rightarrow> bool) \<Rightarrow> ('s, unit) act \<Rightarrow> ('s, unit) act" where
  "CloseClient isRunning stop = (\<lambda>s. if \<not> isRunning s then (Ok (), s) else stop s)"

section \<open>Operations of the end-to-end tests\<close>

datatype ProofOfPossessionBTC = ProofOfPossessionBTC bytes
datatype InclusionProof = InclusionProof bytes bytes
datatype Description = Description bytes
datatype CommissionRates = CommissionRates LegacyDec LegacyDec LegacyDec
datatype BTCHeaderBytes = BTCHeaderBytes bytes

record TransactionInfo =
  TI_Key :: bytes
  TI_Transaction :: bytes
  TI_Proof :: bytes

record MsgCreateBTCDelegation =
  MC_StakerAddr :: string
  MC_Pop :: ProofOfPossessionBTC
  MC_BtcPk :: BIP340PubKey
  MC_FpBtcPkList :: "BIP340PubKey list"
  MC_StakingTime :: uint32
  MC_StakingValue :: int64
  MC_StakingTx :: bytes
  MC_StakingTxInclusionProof :: "InclusionProof option"
  MC_SlashingTx :: BTCSlashingTx
  MC_DelegatorSlashingSig :: BIP340Signature
  MC_UnbondingTx :: bytes
  MC_UnbondingTime :: uint32
  MC_UnbondingValue :: int64
  MC_UnbondingSlashingTx :: BTCSlashingTx
  MC_DelegatorUnbondingSlashingSig :: BIP340Signature

record MsgBtcStakeExpand = MsgCreateBTCDelegation +
  ME_PreviousStakingTxHash :: string
  ME_FundingTx :: bytes

record MsgCreateFinalityProvider =
  MF_Addr :: string
  MF_Commission :: CommissionRates
  MF_BtcPk :: BIP340PubKey
  MF_Description :: Description
  MF_Pop :: ProofOfPossessionBTC

record MsgInsertHeaders =
  MI_Signer :: string
  MI_Headers :: "BTCHeaderBytes list"

datatype sdkMsg =
    CreateBTCDelegationMsg MsgCreateBTCDelegation
  | BtcStakeExpandMsg MsgBtcStakeExpand
  | CreateFinalityProviderMsg MsgCreateFinalityProvider
  | InsertHeadersMsg MsgInsertHeaders

text \<open>The sender, the keyring and the libraries of a controller.\<close>

record 's ctl =
  ctl_send :: "('s, sdkMsg) sender"
  ctl_key :: "string \<Rightarrow> ('s, KeyRecord) act"
  ctl_lib :: bbnlib
  ctl_bc :: BabylonController
  ctl_decAdd :: "LegacyDec \<Rightarrow> LegacyDec \<Rightarrow> LegacyDec"
  ctl_decOne :: LegacyDec

definition reliablySendMsg :: "'s ctl \<Rightarrow> sdkMsg \<Rightarrow> ('s, RelayerTxResponse option) act" where
  "reliablySendMsg ctl msg = reliablySendMsgs (ctl_send ctl) (ctl_lib ctl) [msg]"

definition ctlSigner :: "'s ctl \<Rightarrow> ('s, string) act" where
  "ctlSigner ctl = mustGetTxSigner (ctl_key ctl) (ctl_lib ctl) (ctl_bc ctl)"

text \<open>The hash of a response; a nil response is followed.\<close>

definition txHashOnly :: "RelayerTxResponse option \<Rightarrow> TxResponse result" where
  "txHashOnly res =
     bindR (derefR res) (\<lambda>r. Ok \<lparr>TxResponse_TxHash = Relayer_TxHash r, TxResponse_Events = []\<rparr>)"

definition CreateBTCDelegation ::
  "'s ctl \<Rightarrow> BIP340PubKey \<Rightarrow> PublicKey list \<Rightarrow> ProofOfPossessionBTC \<Rightarrow> uint32 \<Rightarrow> int64 \<Rightarrow> TransactionInfo option
    \<Rightarrow> BTCSlashingTx \<Rightarrow> BIP340Signature \<Rightarrow> bytes \<Rightarrow> uint32 \<Rightarrow> int64 \<Rightarrow> BTCSlashingTx \<Rightarrow> BIP340Signature
    \<Rightarrow> bool \<Rightarrow> ('s, TxResponse) act" where
  "CreateBTCDelegation ctl delBtcPk fpPks pop stakingTime stakingValue stakingTxInfo slashingTx delSlashingSig
     unbondingTx unbondingTime unbondingValue unbondingSlashingTx delUnbondingSlashingSig isPreApproval =
     bindS (liftR (derefR stakingTxInfo)) (\<lambda>info.
     bindS (ctlSigner ctl) (\<lambda>addr.
     bindS (reliablySendMsg ctl (CreateBTCDelegationMsg
       \<lparr>MC_StakerAddr = addr, MC_Pop = pop, MC_BtcPk = delBtcPk,
        MC_FpBtcPkList = map (NewBIP340PubKeyFromBTCPK (ctl_lib ctl)) fpPks,
        MC_StakingTime = stakingTime, MC_StakingValue = stakingValue, MC_StakingTx = TI_Transaction info,
        MC_StakingTxInclusionProof =
          (if \<not> isPreApproval then Some (InclusionProof (TI_Key info) (TI_Proof info)) else None),
        MC_SlashingTx = slashingTx, MC_DelegatorSlashingSig = delSlashingSig, MC_UnbondingTx = unbondingTx,
        MC_UnbondingTime = unbondingTime, MC_UnbondingValue = unbondingValue,
        MC_UnbondingSlashingTx = unbondingSlashingTx,
        MC_DelegatorUnbondingSlashingSig = delUnbondingSlashingSig\<rparr>)) (\<lambda>res.
     liftR (txHashOnly res))))"

definition CreateStakeExpansionDelegation ::
  "'s ctl \<Rightarrow> BIP340PubKey \<Rightarrow> PublicKey list \<Rightarrow> ProofOfPossessionBTC \<Rightarrow> uint32 \<Rightarrow> int64 \<Rightarrow> TransactionInfo option
    \<Rightarrow> BTCSlashingTx \<Rightarrow> BIP340Signature \<Rightarrow> bytes \<Rightarrow> uint32 \<Rightarrow> int64 \<Rightarrow> BTCSlashingTx \<Rightarrow> BIP340Signature
    \<Rightarrow> string \<Rightarrow> bytes \<Rightarrow> ('s, TxResponse) act" where
  "CreateStakeExpansionDelegation ctl delBtcPk fpPks pop stakingTime stakingValue stakingTxInfo slashingTx
     delSlashingSig unbondingTx unbondingTime unbondingValue unbondingSlashingTx delUnbondingSlashingSig
     previousStakingTxHash fundingTx =
     bindS (liftR (derefR stakingTxInfo)) (\<lambda>info.
     bindS (ctlSigner ctl) (\<lambda>addr.
     bindS (reliablySendMsg ctl (BtcStakeExpandMsg
       \<lparr>MC_StakerAddr = addr, MC_Pop = pop, MC_BtcPk = delBtcPk,
        MC_FpBtcPkList = map (NewBIP340PubKeyFromBTCPK (ctl_lib ctl)) fpPks,
        MC_StakingTime = stakingTime, MC_StakingValue = stakingValue, MC_StakingTx = TI_Transaction info,
        MC_StakingTxInclusionProof = None,
        MC_SlashingTx = slashingTx, MC_DelegatorSlashingSig = delSlashingSig, MC_UnbondingTx = unbondingTx,
        MC_UnbondingTime = unbondingTime, MC_UnbondingValue = unbondingValue,
        MC_UnbondingSlashingTx = unbondingSlashingTx,
        MC_DelegatorUnbondingSlashingSig = delUnbondingSlashingSig,
        ME_PreviousStakingTxHash = previousStakingTxHash, ME_FundingTx = fundingTx\<rparr>)) (\<lambda>res.
     liftR (txHashOnly res))))"

definition RegisterFinalityProvider ::
  "'s ctl \<Rightarrow> BIP340PubKey \<Rightarrow> LegacyDec option \<Rightarrow> Description \<Rightarrow> ProofOfPossessionBTC
    \<Rightarrow> ('s, RelayerTxResponse option) act" where
  "RegisterFinalityProvider ctl btcPubKey commission description pop =
     bindS (ctlSigner ctl) (\<lambda>addr.
     bindS (liftR (derefR commission)) (\<lambda>c.
     reliablySendMsgs (ctl_send ctl) (ctl_lib ctl) [CreateFinalityProviderMsg
       \<lparr>MF_Addr = addr,
        MF_Commission = CommissionRates c (ctl_decAdd ctl c (ctl_decOne ctl)) (ctl_decOne ctl),
        MF_BtcPk = btcPubKey, MF_Description = description, MF_Pop = pop\<rparr>]))"

definition InsertBtcBlockHeaders ::
  "'s ctl \<Rightarrow> BTCHeaderBytes list \<Rightarrow> ('s, RelayerTxResponse option) act" where
  "InsertBtcBlockHeaders ctl headers =
     bindS (ctlSigner ctl) (\<lambda>addr.
     reliablySendMsg ctl (InsertHeadersMsg \<lparr>MI_Signer = addr, MI_Headers = headers\<rparr>))"

section \<open>Queries of the end-to-end tests\<close>

text \<open>A page of finality providers; both the pagination and its next key may be nil.\<close>

record 'p fpPage =
  FP_FinalityProviders :: "'p list"
  FP_Pagination :: "bytes option option"

text \<open>The loop over the pages, which goes on for as long as there is a next key.\<close>

partial_function (option) fpPages ::
  "(PageRequest \<Rightarrow> ('s, 'p fpPage) act) \<Rightarrow> bytes \<Rightarrow> 'p list \<Rightarrow> 's \<Rightarrow> ('p list result \<times> 's) option" where
  "fpPages query key fps s =
     (case query \<lparr>PR_Key = key, PR_Limit = 100\<rparr> s of
        (Err e, s1) \<Rightarrow> Some (Err (''failed to query finality providers: '' @ e), s1)
      | (Panic p, s1) \<Rightarrow> Some (Panic p, s1)
      | (Ok res, s1) \<Rightarrow>
          (case Option.bind (FP_Pagination res) (\<lambda>k. k) of
             None \<Rightarrow> Some (Ok (fps @ FP_FinalityProviders res), s1)
           | Some nextKey \<Rightarrow> fpPages query nextKey (fps @ FP_FinalityProviders res) s1))"

definition QueryFinalityProviders ::
  "(PageRequest \<Rightarrow> ('s, 'p fpPage) act) \<Rightarrow> 's \<Rightarrow> ('p list result \<times> 's) option" where
  "QueryFinalityProviders query = fpPages query [] []"

definition QueryBtcLightClientTip :: "('s, 'h) act \<Rightarrow> ('s, 'h) act" where
  "QueryBtcLightClientTip tip = mapErrS (\<lambda>e. ''failed to query BTC tip: '' @ e) tip"

section \<open>Lemmas: finality providers\<close>

text \<open>A store that hands out pages of 100 and a next key exactly while there is more.\<close>

definition fp_store ::
  "(PageRequest \<Rightarrow> ('s, 'p fpPage) act) \<Rightarrow> 'p list \<Rightarrow> (nat \<Rightarrow> bytes) \<Rightarrow> bool" where
  "fp_store query store keyOf \<longleftrightarrow> keyOf 0 = [] \<and>
     (\<forall>i s. i \<le> length store \<longrightarrow>
        query \<lparr>PR_Key = keyOf i, PR_Limit = 100\<rparr> s =
          (Ok \<lparr>FP_FinalityProviders = take 100 (drop i store),
               FP_Pagination = Some (if i + 100 < length store then Some (keyOf (i + 100)) else None)\<rparr>, s))"

lemma fpPages_rest:
  assumes "fp_store query store keyOf" "i \<le> length store"
  shows "fpPages query (keyOf i) fps s = Some (Ok (fps @ drop i store), s)"
  using assms(2)
proof (induction "length store - i" arbitrary: i fps rule: less_induct)
  case less
  have q: "query \<lparr>PR_Key = keyOf i, PR_Limit = 100\<rparr> s =
      (Ok \<lparr>FP_FinalityProviders = take 100 (drop i store),
           FP_Pagination = Some (if i + 100 < length store then Some (keyOf (i + 100)) else None)\<rparr>, s)"
    using assms(1) less.prems by (simp add: fp_store_def)
  have split: "take 100 (drop i store) @ drop (i + 100) store = drop i store"
    by (metis add.commute append_take_drop_id drop_drop)
  show ?case
  proof (cases "i + 100 < length store")
    case True
    then have "fpPages query (keyOf (i + 100)) (fps @ take 100 (drop i store)) s
        = Some (Ok ((fps @ take 100 (drop i store)) @ drop (i + 100) store), s)"
      by (intro less.hyps) auto
    then have "fpPages query (keyOf (i + 100)) (fps @ take 100 (drop i store)) s
        = Some (Ok (fps @ drop i store), s)" by (simp add: split)
    then show ?thesis using True q by (subst fpPages.simps) simp
  next
    case False
    then show ?thesis using q by (subst fpPages.simps) simp
  qed
qed

section \<open>Properties\<close>

text \<open>
  The query of finality providers returns, with all of them. On a store that hands out pages of
  100 and a next key exactly while there is more, the loop ends and its result is the whole store, in
  order and without repetition, whatever its size.
\<close>

lemma QueryFinalityProviders_complete:
  assumes "fp_store query store keyOf"
  shows "QueryFinalityProviders query s = Some (Ok store, s)"
  using fpPages_rest [OF assms, of 0 "[]" s] assms by (simp add: QueryFinalityProviders_def fp_store_def)

text \<open>A store of 250 numbers whose keys are as long as their position.\<close>

definition sample_fp_query :: "PageRequest \<Rightarrow> (unit, nat fpPage) act" where
  "sample_fp_query pr = (let i = length (PR_Key pr) in
     returnS \<lparr>FP_FinalityProviders = take 100 (drop i [0..<250]),
              FP_Pagination = Some (if i + 100 < 250 then Some (replicate (i + 100) 0) else None)\<rparr>)"

lemma QueryFinalityProviders_complete_example:
  "QueryFinalityProviders sample_fp_query () = Some (Ok [0..<250], ())"
proof (rule QueryFinalityProviders_complete)
  show "fp_store sample_fp_query [0..<250] (\<lambda>i. replicate i 0)"
    by (simp add: fp_store_def sample_fp_query_def Let_def)
qed

end
