(* ===== verification/SignerApp.thy ===== *)
theory SignerApp
  imports Samples
begin

text \<open>
  The signer (\<^verbatim>\<open>covenant-signer/signerapp/\<close>) and its two sources of the private key: the keyring
  retriever (\<^verbatim>\<open>covenant-signer/keystore/cosmos/cosmoskeyretriever.go\<close> with
  \<^verbatim>\<open>GetChainPrivKey\<close> of \<^verbatim>\<open>keyringcontroller.go\<close>) and the hardcoded one.

  A retriever hands out a pointer to the key, and locking overwrites the memory behind it. The
  model therefore has a store of keys: pointers are addresses, \<open>loadKey\<close> reads the store at the
  moment of each signature.

  The locale \<open>key_retriever\<close> is the contract of the interface \<^verbatim>\<open>PrivKeyRetriever\<close>, and
  \<open>lockable_retriever\<close> extends it with what locking promises. The signing lemmas are proved once
  for the interface; the keyring retriever is an instance of the second, the hardcoded one of the
  first.
\<close>

section \<open>Requests and responses\<close>

record ParsedSigningRequestStkExp =
  PSE_PreviousActiveStakeTx :: MsgTx
  PSE_OtherFundingOutput :: TxOutput
  PSE_PreviousStakingOutputIdx :: uint32
  PreviousActiveStakeUnbondingScript :: bytes

record ParsedSigningRequest =
  PSR_StakingTx :: MsgTx
  PSR_SlashingTx :: MsgTx
  PSR_UnbondingTx :: MsgTx
  PSR_SlashUnbondingTx :: MsgTx
  PSR_StakeExp :: "ParsedSigningRequestStkExp option"
  PSR_StakingOutputIdx :: uint32
  SlashingScript :: bytes
  UnbondingScript :: bytes
  UnbondingSlashingScript :: bytes
  PSR_FpEncKeys :: "EncryptionKey list"

record ParsedSigningResponse =
  SlashAdaptorSigs :: "bytes list"
  PSP_UnbondingSig :: SchnorrSignature
  SlashUnbondingAdaptorSigs :: "bytes list"
  StakeExpSig :: "SchnorrSignature option"

section \<open>Signing with a key\<close>

text \<open>The bytes of the encryption key are printed with \<^verbatim>\<open>%s\<close>, as a string.\<close>

definition bytes_string :: "bytes \<Rightarrow> string" where
  "bytes_string bs = map (\<lambda>b. char_of (unat b)) bs"

definition slashUnbondSig ::
  "btclib \<Rightarrow> signlib \<Rightarrow> PrivateKey \<Rightarrow> ParsedSigningRequest \<Rightarrow> EncryptionKey
    \<Rightarrow> (AdaptorSignature \<times> AdaptorSignature) result" where
  "slashUnbondSig blib sl covenantPrivKey signingTxReq fpEncKey =
     bindR (wrapErr (''failed to sign adaptor slash signature with finality provider public key ''
                      @ bytes_string (EncryptionKey_ToBytes blib fpEncKey))
              (EncSignTxWithOneScriptSpendInputStrict sl (PSR_SlashingTx signingTxReq)
                 (PSR_StakingTx signingTxReq) (PSR_StakingOutputIdx signingTxReq)
                 (SlashingScript signingTxReq) covenantPrivKey fpEncKey)) (\<lambda>slashSig.
     bindR (wrapErr (''failed to sign adaptor slash unbonding signature with finality provider public key ''
                      @ bytes_string (EncryptionKey_ToBytes blib fpEncKey))
              (EncSignTxWithOneScriptSpendInputStrict sl (PSR_SlashUnbondingTx signingTxReq)
                 (PSR_UnbondingTx signingTxReq) 0 (UnbondingSlashingScript signingTxReq)
                 covenantPrivKey fpEncKey)) (\<lambda>slashUnbondingSig.
     Ok (slashSig, slashUnbondingSig)))"

definition unbondSig ::
  "signlib \<Rightarrow> PrivateKey \<Rightarrow> ParsedSigningRequest \<Rightarrow> SchnorrSignature result" where
  "unbondSig sl covenantPrivKey signingTxReq =
     wrapErr ''failed to sign unbonding tx''
       (SignTxWithOneScriptSpendInputStrict sl (PSR_UnbondingTx signingTxReq)
          (PSR_StakingTx signingTxReq) (PSR_StakingOutputIdx signingTxReq)
          (UnbondingScript signingTxReq) covenantPrivKey)"

text \<open>The index into the outputs of the previous stake is not checked: out of range is a panic.\<close>

definition stkExpSig ::
  "btclib \<Rightarrow> signlib \<Rightarrow> PrivateKey \<Rightarrow> ParsedSigningRequest \<Rightarrow> SchnorrSignature result" where
  "stkExpSig blib sl covenantPrivKey signingTxReq =
     bindR (derefR (PSR_StakeExp signingTxReq)) (\<lambda>stkExp.
     bindR (indexR (TxOut (PSE_PreviousActiveStakeTx stkExp))
              (unat (PSE_PreviousStakingOutputIdx stkExp))) (\<lambda>prevOut.
     wrapErr (''failed to sign spend of previous stake ''
               @ Hash_String blib (TxHash blib (PSE_PreviousActiveStakeTx stkExp))
               @ '' with stake expansion tx ''
               @ Hash_String blib (TxHash blib (PSR_StakingTx signingTxReq)))
       (SignTxForFirstScriptSpendWithTwoInputsFromScript sl (PSR_StakingTx signingTxReq) prevOut
          (PSE_OtherFundingOutput stkExp) covenantPrivKey
          (PreviousActiveStakeUnbondingScript stkExp))))"

section \<open>Key retrievers and the signer application\<close>

type_synonym keyptr = nat

record 's PrivKeyRetriever =
  R_PrivKey :: "('s, keyptr) act"
  R_Unlock :: "string \<Rightarrow> ('s, unit) act"
  R_Lock :: "('s, unit) act"

text \<open>One iteration of the loop over the encryption keys: both signatures, marshalled.\<close>

definition signForKey ::
  "btclib \<Rightarrow> signlib \<Rightarrow> PrivateKey \<Rightarrow> ParsedSigningRequest \<Rightarrow> EncryptionKey \<Rightarrow> (bytes \<times> bytes) result" where
  "signForKey blib sl privKey req fpEncKey =
     bindR (slashUnbondSig blib sl privKey req fpEncKey) (\<lambda>(slashSig, slashUnbondingSig).
     bindR (AdaptorSignature_MustMarshal sl slashSig) (\<lambda>b1.
     bindR (AdaptorSignature_MustMarshal sl slashUnbondingSig) (\<lambda>b2.
     Ok (b1, b2))))"

text \<open>What \<^verbatim>\<open>SignTransactions\<close> does once it has the pointer to the key.\<close>

definition signWithPtr ::
  "('s \<Rightarrow> keyptr \<Rightarrow> PrivateKey) \<Rightarrow> btclib \<Rightarrow> signlib \<Rightarrow> ParsedSigningRequest \<Rightarrow> keyptr
    \<Rightarrow> ('s, ParsedSigningResponse) act" where
  "signWithPtr loadKey blib sl req privKey =
     bindS (mapS (\<lambda>fpEncKey s. (signForKey blib sl (loadKey s privKey) req fpEncKey, s))
              (PSR_FpEncKeys req)) (\<lambda>sigs.
     bindS (\<lambda>s. (unbondSig sl (loadKey s privKey) req, s)) (\<lambda>unbondingSig.
     bindS (if PSR_StakeExp req \<noteq> None
            then bindS (\<lambda>s. (stkExpSig blib sl (loadKey s privKey) req, s)) (\<lambda>sg. returnS (Some sg))
            else returnS None) (\<lambda>stakeExpSig.
     returnS \<lparr>SlashAdaptorSigs = map fst sigs, PSP_UnbondingSig = unbondingSig,
              SlashUnbondingAdaptorSigs = map snd sigs, StakeExpSig = stakeExpSig\<rparr>)))"

definition SignTransactionsApp ::
  "('s \<Rightarrow> keyptr \<Rightarrow> PrivateKey) \<Rightarrow> 's PrivKeyRetriever \<Rightarrow> btclib \<Rightarrow> signlib \<Rightarrow> ParsedSigningRequest
    \<Rightarrow> ('s, ParsedSigningResponse) act" where
  "SignTransactionsApp loadKey pkr blib sl req =
     bindS (R_PrivKey pkr) (\<lambda>privKey. signWithPtr loadKey blib sl req privKey)"

definition UnlockApp :: "'s PrivKeyRetriever \<Rightarrow> string \<Rightarrow> ('s, unit) act" where
  "UnlockApp pkr passphrase = R_Unlock pkr passphrase"

definition LockApp :: "'s PrivKeyRetriever \<Rightarrow> ('s, unit) act" where
  "LockApp pkr = R_Lock pkr"

definition PubKeyApp ::
  "('s \<Rightarrow> keyptr \<Rightarrow> PrivateKey) \<Rightarrow> 's PrivKeyRetriever \<Rightarrow> signlib \<Rightarrow> ('s, PublicKey) act" where
  "PubKeyApp loadKey pkr sl =
     bindS (R_PrivKey pkr) (\<lambda>privKey s. (Ok (PrivKey_PubKey sl (loadKey s privKey)), s))"

section \<open>The keyring retriever\<close>

text \<open>
  The keyring itself (package cosmos-sdk/crypto/keyring) is a parameter: a lookup by name, with
  the passphrase in its input, gives a record. The record of a key that is not stored locally has
  no private key, and \<^verbatim>\<open>GetLocal\<close> is nil.
\<close>

datatype CachedPrivKey = Secp256k1Key bytes | UnsupportedKey
datatype KeyringRecord = LocalRecord CachedPrivKey | RemoteRecord

record keylib =
  PrivKeyFromBytes :: "bytes \<Rightarrow> PrivateKey"
  PrivKey_Serialize :: "PrivateKey \<Rightarrow> bytes"
  PrivKey_Zeroed :: "PrivateKey \<Rightarrow> PrivateKey"

record 'w ChainKeyringController =
  keyringKey :: "string \<Rightarrow> string \<Rightarrow> ('w, KeyringRecord) act"
  kc_keyName :: string

record 'w krstate =
  keyHeap :: "keyptr \<Rightarrow> PrivateKey"
  keyNext :: keyptr
  btcecPrivKey :: "keyptr option"
  kworld :: 'w

definition loadKey :: "('w, 'z) krstate_scheme \<Rightarrow> keyptr \<Rightarrow> PrivateKey" where
  "loadKey s p = keyHeap s p"

definition onKeyring :: "('w, 'a) act \<Rightarrow> (('w, 'z) krstate_scheme, 'a) act" where
  "onKeyring m = (\<lambda>s. case m (kworld s) of (r, w) \<Rightarrow> (r, s\<lparr>kworld := w\<rparr>))"

definition GetChainPrivKey ::
  "'w ChainKeyringController \<Rightarrow> string \<Rightarrow> (('w, 'z) krstate_scheme, bytes) act" where
  "GetChainPrivKey kc passphrase =
     bindS (mapErrS (\<lambda>e. ''failed to get private key: '' @ e)
              (onKeyring (keyringKey kc passphrase (kc_keyName kc)))) (\<lambda>k.
     case k of
       RemoteRecord \<Rightarrow> liftR (Panic nil_deref)
     | LocalRecord (Secp256k1Key v) \<Rightarrow> returnS v
     | LocalRecord UnsupportedKey \<Rightarrow> failS ''unsupported key type in keyring'')"

definition PrivKeyKr :: "(('w, 'z) krstate_scheme, keyptr) act" where
  "PrivKeyKr = (\<lambda>s. case btcecPrivKey s of
      None \<Rightarrow> (Err ''private key is not unlocked. Please call Unlock() first'', s)
    | Some p \<Rightarrow> (Ok p, s))"

definition UnlockKr ::
  "keylib \<Rightarrow> 'w ChainKeyringController \<Rightarrow> string \<Rightarrow> (('w, 'z) krstate_scheme, unit) act" where
  "UnlockKr kl kc passphrase = (\<lambda>s.
     if btcecPrivKey s \<noteq> None then (Ok (), s)
     else
       bindS (mapErrS (\<lambda>e. ''failed to unlock the key ring: '' @ e) (GetChainPrivKey kc passphrase)) (\<lambda>key.
       modifyS (\<lambda>s. s\<lparr>keyHeap := (keyHeap s)(keyNext s := PrivKeyFromBytes kl key),
                      btcecPrivKey := Some (keyNext s), keyNext := Suc (keyNext s)\<rparr>)) s)"

definition LockKr :: "keylib \<Rightarrow> (('w, 'z) krstate_scheme, unit) act" where
  "LockKr kl = (\<lambda>s. case btcecPrivKey s of
      None \<Rightarrow> (Ok (), s)
    | Some p \<Rightarrow> (Ok (), s\<lparr>keyHeap := (keyHeap s)(p := PrivKey_Zeroed kl (keyHeap s p)),
                         btcecPrivKey := None\<rparr>))"

definition KeyringRetriever ::
  "keylib \<Rightarrow> 'w ChainKeyringController \<Rightarrow> ('w, 'z) krstate_scheme PrivKeyRetriever" where
  "KeyringRetriever kl kc = \<lparr>R_PrivKey = PrivKeyKr, R_Unlock = UnlockKr kl kc, R_Lock = LockKr kl\<rparr>"

section \<open>The hardcoded retriever\<close>

text \<open>It hands out a fresh copy of its key and ignores locking and unlocking.\<close>

definition HardcodedPrivKeyRetriever ::
  "keylib \<Rightarrow> PrivateKey \<Rightarrow> ('w, 'z) krstate_scheme PrivKeyRetriever" where
  "HardcodedPrivKeyRetriever kl privKey = \<lparr>
     R_PrivKey = (\<lambda>s. (Ok (keyNext s),
       s\<lparr>keyHeap := (keyHeap s)(keyNext s := PrivKeyFromBytes kl (PrivKey_Serialize kl privKey)),
         keyNext := Suc (keyNext s)\<rparr>)),
     R_Unlock = (\<lambda>_. returnS ()),
     R_Lock = returnS ()\<rparr>"

section \<open>The reference: signing with one key, without state\<close>

definition signAll ::
  "btclib \<Rightarrow> signlib \<Rightarrow> PrivateKey \<Rightarrow> ParsedSigningRequest \<Rightarrow> ParsedSigningResponse result" where
  "signAll blib sl key req =
     bindR (mapR (signForKey blib sl key req) (PSR_FpEncKeys req)) (\<lambda>sigs.
     bindR (unbondSig sl key req) (\<lambda>ub.
     bindR (case PSR_StakeExp req of None \<Rightarrow> Ok None
            | Some _ \<Rightarrow> bindR (stkExpSig blib sl key req) (\<lambda>sg. Ok (Some sg))) (\<lambda>se.
     Ok \<lparr>SlashAdaptorSigs = map fst sigs, PSP_UnbondingSig = ub,
         SlashUnbondingAdaptorSigs = map snd sigs, StakeExpSig = se\<rparr>)))"

lemma mapS_pure: "mapS (\<lambda>x s. (f s x, s)) xs s = (mapR (f s) xs, s)"
proof (induction xs)
  case Nil
  show ?case by simp
next
  case (Cons x xs)
  then show ?case by (cases "f s x"; cases "mapR (f s) xs") simp_all
qed

text \<open>With the pointer in hand, signing is the reference with the key in memory.\<close>

lemma signWithPtr_signAll:
  "signWithPtr load blib sl req p s = (signAll blib sl (load s p) req, s)"
proof -
  let ?k = "load s p"
  have m: "mapS (\<lambda>fpEncKey s. (signForKey blib sl (load s p) req fpEncKey, s)) (PSR_FpEncKeys req) s
      = (mapR (signForKey blib sl ?k req) (PSR_FpEncKeys req), s)"
    using mapS_pure [of "\<lambda>s. signForKey blib sl (load s p) req" "PSR_FpEncKeys req" s] by simp
  show ?thesis
  proof (cases "mapR (signForKey blib sl ?k req) (PSR_FpEncKeys req)")
    case (Ok sigs)
    with m show ?thesis
      unfolding signWithPtr_def signAll_def
      by (cases "unbondSig sl ?k req"; cases "stkExpSig blib sl ?k req"; cases "PSR_StakeExp req")
         simp_all
  qed (use m in \<open>simp_all add: signWithPtr_def signAll_def\<close>)
qed

lemma signAll_Ok:
  assumes "signAll blib sl key req = Ok resp"
  shows "length (SlashAdaptorSigs resp) = length (PSR_FpEncKeys req)"
    and "length (SlashUnbondingAdaptorSigs resp) = length (PSR_FpEncKeys req)"
    and "(StakeExpSig resp \<noteq> None) = (PSR_StakeExp req \<noteq> None)"
    and "unbondSig sl key req = Ok (PSP_UnbondingSig resp)"
  using assms by (auto simp: signAll_def act_simps dest: mapR_Ok_length split: option.splits)

section \<open>The contract of a key retriever\<close>

locale key_retriever =
  fixes pkr :: "'s PrivKeyRetriever"
    and load :: "'s \<Rightarrow> keyptr \<Rightarrow> PrivateKey"
    and current :: "'s \<Rightarrow> PrivateKey option"
  assumes privKey_Ok: "R_PrivKey pkr s = (Ok p, s') \<Longrightarrow> current s = Some (load s' p)"
    and privKey_available: "current s = Some k \<Longrightarrow> \<exists>p s'. R_PrivKey pkr s = (Ok p, s')"
    and privKey_keeps: "R_PrivKey pkr s = (r, s') \<Longrightarrow> current s' = current s"
    and unlock_Ok: "R_Unlock pkr pw s = (Ok (), s') \<Longrightarrow> current s' \<noteq> None"
    and unlock_keeps: "current s = Some k \<Longrightarrow> R_Unlock pkr pw s = (u, s') \<Longrightarrow> current s' = Some k"
begin

lemma sign_current:
  assumes "current s = Some k"
  obtains s' where "SignTransactionsApp load pkr blib sl req s = (signAll blib sl k req, s')"
    "current s' = Some k"
proof -
  from privKey_available [OF assms] obtain p s' where p: "R_PrivKey pkr s = (Ok p, s')" by blast
  with privKey_Ok [OF p] assms have "load s' p = k" by simp
  with p privKey_keeps [OF p] assms show thesis
    by (intro that [of s']) (simp_all add: SignTransactionsApp_def signWithPtr_signAll)
qed

lemma sign_Ok_current:
  assumes "SignTransactionsApp load pkr blib sl req s = (Ok resp, s')"
  obtains k where "current s = Some k" "signAll blib sl k req = Ok resp" "current s' = Some k"
proof -
  from assms obtain p t where p: "R_PrivKey pkr s = (Ok p, t)"
    and "signWithPtr load blib sl req p t = (Ok resp, s')"
    by (auto simp: SignTransactionsApp_def act_simps)
  then have "signAll blib sl (load t p) req = Ok resp" "s' = t"
    by (auto simp: signWithPtr_signAll)
  then show thesis
    using privKey_Ok [OF p] privKey_keeps [OF p] by (intro that [of "load t p"]) simp_all
qed

lemma pubkey_current:
  assumes "current s = Some k"
  shows "fst (PubKeyApp load pkr sl s) = Ok (PrivKey_PubKey sl k)"
proof -
  from privKey_available [OF assms] obtain p s' where p: "R_PrivKey pkr s = (Ok p, s')" by blast
  with privKey_Ok [OF p] assms show ?thesis by (simp add: PubKeyApp_def)
qed

end

locale lockable_retriever = key_retriever +
  assumes lock_locks: "R_Lock pkr s = (r, s') \<Longrightarrow> r = Ok () \<and> current s' = None"
    and privKey_locked: "current s = None \<Longrightarrow> \<exists>e. R_PrivKey pkr s = (Err e, s)"
begin

lemma sign_locked:
  "current s = None \<Longrightarrow> \<exists>e. SignTransactionsApp load pkr blib sl req s = (Err e, s)"
  using privKey_locked [of s] by (auto simp: SignTransactionsApp_def)

lemma lock_then_sign:
  assumes "LockApp pkr s = (r, s')"
  shows "r = Ok () \<and> (\<exists>e. SignTransactionsApp load pkr blib sl req s' = (Err e, s'))
    \<and> (\<exists>e. PubKeyApp load pkr sl s' = (Err e, s'))"
  using lock_locks [of s r s'] assms sign_locked [of s'] privKey_locked [of s']
  by (auto simp: LockApp_def PubKeyApp_def)

lemma unlock_then_sign:
  assumes "UnlockApp pkr pw s = (Ok (), s')"
  obtains k s'' where "current s' = Some k"
    "SignTransactionsApp load pkr blib sl req s' = (signAll blib sl k req, s'')"
proof -
  from unlock_Ok [of pw s s'] assms obtain k where "current s' = Some k" by (auto simp: UnlockApp_def)
  then show thesis by (metis that sign_current)
qed

end

definition krCurrent :: "('w, 'z) krstate_scheme \<Rightarrow> PrivateKey option" where
  "krCurrent s = map_option (keyHeap s) (btcecPrivKey s)"

lemma GetChainPrivKey_frame:
  assumes "GetChainPrivKey kc pw s = (r, s')"
  obtains w where "s' = s\<lparr>kworld := w\<rparr>"
proof -
  from assms obtain q w where "onKeyring (keyringKey kc pw (kc_keyName kc)) s = (q, s\<lparr>kworld := w\<rparr>)"
    by (cases "keyringKey kc pw (kc_keyName kc) (kworld s)") (auto simp: onKeyring_def)
  with assms that show thesis
    by (cases q)
       (auto simp: GetChainPrivKey_def split: KeyringRecord.splits CachedPrivKey.splits)
qed

text \<open>The keyring retriever after an unlock: unchanged when unlocked, else a fresh key or none.\<close>

lemma UnlockKr_cases [consumes 1, case_names already new failed]:
  assumes "UnlockKr kl kc pw s = (r, s')"
  obtains "btcecPrivKey s \<noteq> None" "r = Ok ()" "s' = s"
    | key w where "btcecPrivKey s = None" "r = Ok ()" "GetChainPrivKey kc pw s = (Ok key, s\<lparr>kworld := w\<rparr>)"
        "s' = s\<lparr>kworld := w, keyHeap := (keyHeap s)(keyNext s := PrivKeyFromBytes kl key),
               btcecPrivKey := Some (keyNext s), keyNext := Suc (keyNext s)\<rparr>"
    | w where "btcecPrivKey s = None" "r \<noteq> Ok ()" "s' = s\<lparr>kworld := w\<rparr>"
proof (cases "btcecPrivKey s = None")
  case False
  with assms that(1) show thesis by (auto simp: UnlockKr_def)
next
  case True
  obtain q t where q: "GetChainPrivKey kc pw s = (q, t)" by (cases "GetChainPrivKey kc pw s")
  then obtain w where "t = s\<lparr>kworld := w\<rparr>" by (rule GetChainPrivKey_frame)
  with True q assms that(2,3) show thesis by (cases q) (auto simp: UnlockKr_def)
qed

interpretation kr: lockable_retriever "KeyringRetriever kl kc" loadKey krCurrent
  for kl and kc :: "'w ChainKeyringController"
proof unfold_locales
  show "R_PrivKey (KeyringRetriever kl kc) s = (Ok p, s') \<Longrightarrow> krCurrent s = Some (loadKey s' p)" for s p s'
    by (auto simp: KeyringRetriever_def PrivKeyKr_def krCurrent_def loadKey_def split: option.splits)
  show "krCurrent s = Some k \<Longrightarrow> \<exists>p s'. R_PrivKey (KeyringRetriever kl kc) s = (Ok p, s')" for s k
    by (auto simp: KeyringRetriever_def PrivKeyKr_def krCurrent_def)
  show "R_PrivKey (KeyringRetriever kl kc) s = (r, s') \<Longrightarrow> krCurrent s' = krCurrent s" for s r s'
    by (auto simp: KeyringRetriever_def PrivKeyKr_def split: option.splits)
  show "R_Unlock (KeyringRetriever kl kc) pw s = (Ok (), s') \<Longrightarrow> krCurrent s' \<noteq> None" for pw s s'
    by (auto simp: KeyringRetriever_def krCurrent_def elim!: UnlockKr_cases)
  show "krCurrent s = Some k \<Longrightarrow> R_Unlock (KeyringRetriever kl kc) pw s = (r, s') \<Longrightarrow> krCurrent s' = Some k"
    for s k pw r s'
    by (auto simp: KeyringRetriever_def krCurrent_def elim!: UnlockKr_cases)
  show "R_Lock (KeyringRetriever kl kc) s = (r, s') \<Longrightarrow> r = Ok () \<and> krCurrent s' = None" for s r s'
    by (auto simp: KeyringRetriever_def LockKr_def krCurrent_def split: option.splits)
  show "krCurrent s = None \<Longrightarrow> \<exists>e. R_PrivKey (KeyringRetriever kl kc) s = (Err e, s)" for s
    by (auto simp: KeyringRetriever_def PrivKeyKr_def krCurrent_def)
qed

interpretation hardcoded: key_retriever "HardcodedPrivKeyRetriever kl key" loadKey
    "\<lambda>s. Some (PrivKeyFromBytes kl (PrivKey_Serialize kl key))"
  for kl key
  by unfold_locales (auto simp: HardcodedPrivKeyRetriever_def loadKey_def)

section \<open>Everything that can happen to the keyring retriever\<close>

text \<open>
  The calls of a running signer, each under the mutex of the retriever, in any order: the steps of
  the state machine. A signing call only reads.
\<close>

inductive krStep :: "keylib \<Rightarrow> 'w ChainKeyringController \<Rightarrow> 'w krstate \<Rightarrow> 'w krstate \<Rightarrow> bool"
  for kl kc where
  unlock: "UnlockKr kl kc pw s = (r, s') \<Longrightarrow> krStep kl kc s s'"
| lock: "LockKr kl s = (r, s') \<Longrightarrow> krStep kl kc s s'"
| sign: "SignTransactionsApp loadKey (KeyringRetriever kl kc) blib sl req s = (q, s') \<Longrightarrow> krStep kl kc s s'"
| pubkey: "PubKeyApp loadKey (KeyringRetriever kl kc) sl s = (k, s') \<Longrightarrow> krStep kl kc s s'"

inductive_cases krStepE: "krStep kl kc s s'"

text \<open>A retriever as the constructor makes it: locked, and nothing allocated.\<close>

definition krInit :: "'w krstate \<Rightarrow> bool" where
  "krInit s \<longleftrightarrow> btcecPrivKey s = None \<and> keyNext s = 0"

text \<open>
  The pointer of the retriever is allocated and the key behind it came from the keyring; every
  other key that was ever in memory has been zeroed.
\<close>

definition keyFromKeyring :: "keylib \<Rightarrow> 'w ChainKeyringController \<Rightarrow> PrivateKey \<Rightarrow> bool" where
  "keyFromKeyring kl kc k \<longleftrightarrow>
     (\<exists>pw w w' key. keyringKey kc pw (kc_keyName kc) w = (Ok (LocalRecord (Secp256k1Key key)), w')
        \<and> k = PrivKeyFromBytes kl key)"

definition krInv :: "keylib \<Rightarrow> 'w ChainKeyringController \<Rightarrow> 'w krstate \<Rightarrow> bool" where
  "krInv kl kc s \<longleftrightarrow>
     (\<forall>p. btcecPrivKey s = Some p \<longrightarrow> p < keyNext s \<and> keyFromKeyring kl kc (keyHeap s p))
     \<and> (\<forall>p < keyNext s. btcecPrivKey s \<noteq> Some p \<longrightarrow> (\<exists>k. keyHeap s p = PrivKey_Zeroed kl k))"

lemma GetChainPrivKey_Ok:
  assumes "GetChainPrivKey kc pw s = (Ok key, s')"
  shows "\<exists>w w'. keyringKey kc pw (kc_keyName kc) w = (Ok (LocalRecord (Secp256k1Key key)), w')"
proof -
  from assms obtain k t where k: "onKeyring (keyringKey kc pw (kc_keyName kc)) s = (Ok k, t)"
    and r: "(case k of RemoteRecord \<Rightarrow> liftR (Panic nil_deref)
       | LocalRecord (Secp256k1Key v) \<Rightarrow> returnS v
       | LocalRecord UnsupportedKey \<Rightarrow> failS ''unsupported key type in keyring'') t = (Ok key, s')"
    by (auto simp: GetChainPrivKey_def act_simps)
  from r have "k = LocalRecord (Secp256k1Key key)"
    by (cases k) (auto split: CachedPrivKey.splits)
  with k show ?thesis by (auto simp: onKeyring_def split: prod.splits)
qed

lemma read_only:
  "SignTransactionsApp loadKey (KeyringRetriever kl kc) blib sl req s = (q, s') \<Longrightarrow> s' = s"
  "PubKeyApp loadKey (KeyringRetriever kl kc) sl s = (r, s') \<Longrightarrow> s' = s"
  by (auto simp: SignTransactionsApp_def PubKeyApp_def KeyringRetriever_def PrivKeyKr_def
      signWithPtr_signAll bindS_def catchS_def split: option.splits)

lemma krInv_unlock:
  assumes "UnlockKr kl kc pw s = (r, s')" "krInv kl kc s"
  shows "krInv kl kc s'"
  using assms(1)
proof (cases rule: UnlockKr_cases)
  case (new key w)
  with GetChainPrivKey_Ok [of kc pw s key] have "keyFromKeyring kl kc (PrivKeyFromBytes kl key)"
    unfolding keyFromKeyring_def by blast
  with new assms(2) show ?thesis by (auto simp: krInv_def less_Suc_eq)
qed (use assms(2) in \<open>auto simp: krInv_def\<close>)

lemma krInv_lock: "LockKr kl s = (r, s') \<Longrightarrow> krInv kl kc s \<Longrightarrow> krInv kl kc s'"
  by (auto simp: LockKr_def krInv_def split: option.splits)

lemma krInv_step: "krStep kl kc s s' \<Longrightarrow> krInv kl kc s \<Longrightarrow> krInv kl kc s'"
  by (auto elim!: krStepE dest: krInv_unlock krInv_lock read_only)

interpretation krs: step_invariant "krStep kl kc" "krInv kl kc"
  for kl kc
  by unfold_locales (rule krInv_step)

lemma krInv_init: "krInit s \<Longrightarrow> krInv kl kc s"
  by (simp add: krInit_def krInv_def)

lemma krInv_reachable: "(krStep kl kc)\<^sup>*\<^sup>* s s' \<Longrightarrow> krInit s \<Longrightarrow> krInv kl kc s'"
  using krs.reach krInv_init by blast

section \<open>Properties\<close>

definition sample_sl :: signlib where
  "sample_sl = \<lparr>
     EncSignTxWithOneScriptSpendInputStrict = (\<lambda>tx f i sc k e. case k of PrivateKey b \<Rightarrow> Ok (AdaptorSignature b)),
     SignTxWithOneScriptSpendInputStrict = (\<lambda>tx f i sc k. case k of PrivateKey b \<Rightarrow> Ok (SchnorrSignature b)),
     SignTxForFirstScriptSpendWithTwoInputsFromScript =
       (\<lambda>tx o1 o2 k sc. case k of PrivateKey b \<Rightarrow> Ok (SchnorrSignature b)),
     AdaptorSignature_MustMarshal = (\<lambda>sg. case sg of AdaptorSignature b \<Rightarrow> Ok b),
     PrivKey_PubKey = (\<lambda>k. case k of PrivateKey b \<Rightarrow> PublicKey b)\<rparr>"

definition sample_kl :: keylib where
  "sample_kl = \<lparr>PrivKeyFromBytes = PrivateKey, PrivKey_Serialize = (\<lambda>k. case k of PrivateKey b \<Rightarrow> b),
     PrivKey_Zeroed = (\<lambda>k. PrivateKey [0])\<rparr>"

definition sample_kc :: "unit ChainKeyringController" where
  "sample_kc = \<lparr>keyringKey = (\<lambda>pw name.
       if pw = ''secret'' then returnS (LocalRecord (Secp256k1Key [42])) else failS ''invalid passphrase''),
     kc_keyName = ''covenant''\<rparr>"

definition sample_kr :: "unit krstate" where
  "sample_kr = \<lparr>keyHeap = (\<lambda>p. PrivateKey []), keyNext = 0, btcecPrivKey = None, kworld = ()\<rparr>"

definition sample_preq :: ParsedSigningRequest where
  "sample_preq = \<lparr>PSR_StakingTx = tx_of 0, PSR_SlashingTx = tx_of 1, PSR_UnbondingTx = tx_of 5,
     PSR_SlashUnbondingTx = tx_of 6, PSR_StakeExp = None, PSR_StakingOutputIdx = 0,
     SlashingScript = [1], UnbondingScript = [2], UnbondingSlashingScript = [3],
     PSR_FpEncKeys = [EncryptionKey [2]]\<rparr>"

definition sample_unlocked :: "unit krstate" where
  "sample_unlocked = sample_kr\<lparr>keyHeap := (keyHeap sample_kr)(0 := PrivateKey [42]),
     btcecPrivKey := Some 0, keyNext := 1\<rparr>"

lemma unlock_sample: "UnlockKr sample_kl sample_kc ''secret'' sample_kr = (Ok (), sample_unlocked)"
  by (simp add: UnlockKr_def GetChainPrivKey_def onKeyring_def sample_kl_def sample_kc_def sample_kr_def
      sample_unlocked_def)

text \<open>
  Signing with the keyring retriever is the reference signing function applied to the key it
  holds: in an unlocked state the answer is that function's, error or panic included, in a locked
  state it is the error that asks for an unlock, and in neither case does the state change.
\<close>

lemma SignTransactionsApp_keyring:
  "SignTransactionsApp loadKey (KeyringRetriever kl kc) blib sl req s =
     (case krCurrent s of
        None \<Rightarrow> Err ''private key is not unlocked. Please call Unlock() first''
      | Some k \<Rightarrow> signAll blib sl k req, s)"
proof (cases "btcecPrivKey s")
  case None
  then show ?thesis
    by (simp add: SignTransactionsApp_def KeyringRetriever_def PrivKeyKr_def krCurrent_def)
next
  case (Some p)
  then show ?thesis
    by (simp add: SignTransactionsApp_def KeyringRetriever_def PrivKeyKr_def krCurrent_def
        signWithPtr_signAll loadKey_def)
qed


definition sample_presp :: ParsedSigningResponse where
  "sample_presp = \<lparr>SlashAdaptorSigs = [[42]], PSP_UnbondingSig = SchnorrSignature [42],
     SlashUnbondingAdaptorSigs = [[42]], StakeExpSig = None\<rparr>"

lemma signAll_sample:
  "signAll sample_blib sample_sl (PrivateKey [42]) sample_preq = Ok sample_presp"
  by (simp add: signAll_def signForKey_def slashUnbondSig_def unbondSig_def sample_preq_def sample_sl_def
      sample_presp_def)




text \<open>
  C30. The retriever hands out a pointer to its key, not a copy: when the signer is locked between the
  moment a signing call took the pointer and the moment it signs, it signs with the zeroed key.
\<close>

theorem lock_during_signing:
  assumes "R_PrivKey (KeyringRetriever kl kc) s = (Ok p, s1)" and "LockApp (KeyringRetriever kl kc) s1 = (r, s2)"
  shows "signWithPtr loadKey blib sl req p s2 = (signAll blib sl (PrivKey_Zeroed kl (keyHeap s p)) req, s2)"
proof -
  from assms(1) have "btcecPrivKey s = Some p" "s1 = s"
    by (auto simp: KeyringRetriever_def PrivKeyKr_def split: option.splits)
  with assms(2) have "loadKey s2 p = PrivKey_Zeroed kl (keyHeap s p)"
    by (auto simp: LockApp_def KeyringRetriever_def LockKr_def loadKey_def)
  then show ?thesis by (simp add: signWithPtr_signAll)
qed

theorem lock_during_signing_witness:
  "fst (signWithPtr loadKey sample_blib sample_sl sample_preq 0 (snd (LockKr sample_kl sample_unlocked)))
     = signAll sample_blib sample_sl (PrivateKey [0]) sample_preq"
proof -
  have "R_PrivKey (KeyringRetriever sample_kl sample_kc) sample_unlocked = (Ok 0, sample_unlocked)"
    by (simp add: KeyringRetriever_def PrivKeyKr_def sample_unlocked_def)
  moreover have "LockApp (KeyringRetriever sample_kl sample_kc) sample_unlocked
      = (fst (LockKr sample_kl sample_unlocked), snd (LockKr sample_kl sample_unlocked))"
    by (simp add: LockApp_def KeyringRetriever_def)
  ultimately have "signWithPtr loadKey sample_blib sample_sl sample_preq 0
      (snd (LockKr sample_kl sample_unlocked))
    = (signAll sample_blib sample_sl (PrivKey_Zeroed sample_kl (keyHeap sample_unlocked 0)) sample_preq,
       snd (LockKr sample_kl sample_unlocked))"
    by (rule lock_during_signing)
  then show ?thesis by (simp add: sample_kl_def)
qed

text \<open>
  C27. A successful unlock makes the signer able to sign, and locking always succeeds and makes every
  later signing or public key call fail until the next unlock. An unlock while unlocked succeeds with
  any passphrase and changes nothing.
\<close>

theorem lock_unlock:
  "(\<forall>s'. UnlockKr kl kc pw s = (Ok (), s') \<longrightarrow> krCurrent s' \<noteq> None)
   \<and> (krCurrent s \<noteq> None \<longrightarrow> UnlockKr kl kc pw s = (Ok (), s))
   \<and> (\<exists>s'. LockKr kl s = (Ok (), s') \<and> krCurrent s' = None
        \<and> (\<exists>e. SignTransactionsApp loadKey (KeyringRetriever kl kc) blib sl req s' = (Err e, s'))
        \<and> (\<exists>e. PubKeyApp loadKey (KeyringRetriever kl kc) sl s' = (Err e, s')))"
proof (intro conjI allI impI)
  show "krCurrent s' \<noteq> None" if "UnlockKr kl kc pw s = (Ok (), s')" for s'
    using kr.unlock_Ok [of kl kc pw s s'] that by (simp add: KeyringRetriever_def)
  show "UnlockKr kl kc pw s = (Ok (), s)" if "krCurrent s \<noteq> None"
    using that by (auto simp: UnlockKr_def krCurrent_def)
  obtain r s' where l: "LockApp (KeyringRetriever kl kc) s = (r, s')"
    by (cases "LockApp (KeyringRetriever kl kc) s")
  then have "LockKr kl s = (r, s')" by (simp add: LockApp_def KeyringRetriever_def)
  moreover have "r = Ok () \<and> krCurrent s' = None"
    using l by (intro kr.lock_locks) (simp add: LockApp_def)
  moreover note kr.lock_then_sign [OF l, of blib sl req]
  ultimately show "\<exists>s'. LockKr kl s = (Ok (), s') \<and> krCurrent s' = None
        \<and> (\<exists>e. SignTransactionsApp loadKey (KeyringRetriever kl kc) blib sl req s' = (Err e, s'))
        \<and> (\<exists>e. PubKeyApp loadKey (KeyringRetriever kl kc) sl s' = (Err e, s'))"
    by blast
qed

theorem lock_unlock_witness:
  "krCurrent sample_unlocked \<noteq> None \<and> UnlockKr sample_kl sample_kc ''wrong'' sample_unlocked = (Ok (), sample_unlocked)"
proof -
  have "krCurrent sample_unlocked \<noteq> None"
    using lock_unlock [of sample_kl sample_kc "''secret''" sample_kr] unlock_sample by blast
  then show ?thesis
    using lock_unlock [of sample_kl sample_kc "''wrong''" sample_unlocked] by blast
qed

end
