(* ===== verification/SignerTypes.thy ===== *)
theory SignerTypes
  imports SignerApp
begin

text \<open>
  The wire format of the signer service (\<^verbatim>\<open>covenant-signer/signerservice/types/signtransactions.go\<close>
  and \<^verbatim>\<open>covenant-signer/utils/btc.go\<close>): requests and responses with every binary field in
  hexadecimal, and their translation from and to the signer's own types.

  The lemmas are the two round trips. A request survives serialisation and parsing when its
  transactions, outputs and keys do and no script is empty; a response survives when its
  signatures do and it has at least one adaptor signature of each kind. The empty cases are
  refused with an error.
\<close>

section \<open>Hexadecimal helpers\<close>

definition NewBTCTxFromBytes :: "btclib \<Rightarrow> bytes \<Rightarrow> MsgTx result" where
  "NewBTCTxFromBytes blib txBytes = Tx_Deserialize blib txBytes"

definition NewBTCTxFromHex :: "btclib \<Rightarrow> string \<Rightarrow> (MsgTx \<times> bytes) result" where
  "NewBTCTxFromHex blib txHex =
     bindR (DecodeString txHex) (\<lambda>txBytes.
     bindR (NewBTCTxFromBytes blib txBytes) (\<lambda>parsed.
     Ok (parsed, txBytes)))"

definition SerializeBTCTx :: "btclib \<Rightarrow> MsgTx \<Rightarrow> bytes result" where
  "SerializeBTCTx blib tx = Tx_Serialize blib tx"

definition SerializeBTCTxToHex :: "btclib \<Rightarrow> MsgTx \<Rightarrow> string result" where
  "SerializeBTCTxToHex blib tx = bindR (SerializeBTCTx blib tx) (\<lambda>bytes. Ok (EncodeToString bytes))"

definition PubKeyFromHex :: "(bytes \<Rightarrow> PublicKey result) \<Rightarrow> string \<Rightarrow> PublicKey result" where
  "PubKeyFromHex schnorrParsePubKey hexString = bindR (DecodeString hexString) schnorrParsePubKey"

definition SchnorSignatureFromHex :: "btclib \<Rightarrow> string \<Rightarrow> SchnorrSignature result" where
  "SchnorSignatureFromHex blib hexString = bindR (DecodeString hexString) (ParseSignature blib)"

section \<open>Messages\<close>

record StakeExpansionRequest =
  SER_PreviousActiveStakeTxHex :: string
  SER_OtherFundingOutputHex :: string
  SER_PrevStakingOutputIdx :: uint32
  SER_PreviousActiveStakeUnbondingScriptHex :: string

record SignTransactionsRequest =
  STR_StakingTxHex :: string
  STR_SlashingTxHex :: string
  STR_UnbondingTxHex :: string
  STR_SlashUnbondingTxHex :: string
  STR_StakingOutputIdx :: uint32
  STR_SlashingScriptHex :: string
  STR_UnbondingScriptHex :: string
  STR_UnbondingSlashingScriptHex :: string
  STR_FpEncKeys :: "string list"
  STR_StakeExpansion :: "StakeExpansionRequest option"

record SignTransactionsResponse =
  SlashingTransactionsAdaptorSignatures :: "string list"
  UnbondingTransactionSignature :: string
  SlashUnbondingTransactionsAdaptorSignatures :: "string list"
  StakeExpansionTransactionSignature :: string

definition IsStakeExpansionReq :: "SignTransactionsRequest \<Rightarrow> bool" where
  "IsStakeExpansionReq req \<longleftrightarrow> STR_StakeExpansion req \<noteq> None"

section \<open>Parsing a request\<close>

definition parseScript :: "string \<Rightarrow> string \<Rightarrow> bytes result" where
  "parseScript name h =
     bindR (wrapErr (''invalid '' @ name @ '' in request'') (DecodeString h)) (\<lambda>script.
     if length script = 0 then Err (name @ '' is empty'') else Ok script)"

definition parseFpEncKey :: "btclib \<Rightarrow> string \<Rightarrow> EncryptionKey result" where
  "parseFpEncKey blib key =
     bindR (wrapErr ''invalid fp encryption key in request'' (DecodeString key)) (\<lambda>encKeyBytes.
     wrapErr ''invalid fp encryption key in request'' (NewEncryptionKeyFromBytes blib encKeyBytes))"

definition parseStakeExpansion ::
  "btclib \<Rightarrow> StakeExpansionRequest \<Rightarrow> ParsedSigningRequestStkExp result" where
  "parseStakeExpansion blib se =
     bindR (wrapErr (''invalid previous active staking transaction '' @ SER_PreviousActiveStakeTxHex se
                      @ '' in request'')
              (NewBTCTxFromHex blib (SER_PreviousActiveStakeTxHex se))) (\<lambda>(previousActiveStakeTx, _).
     bindR (wrapErr (''invalid other funding output hex '' @ SER_OtherFundingOutputHex se @ '' in request'')
              (DecodeString (SER_OtherFundingOutputHex se))) (\<lambda>otherFundingTxOutBz.
     bindR (wrapErr (''failed to deserialize other funding output from hex ''
                      @ SER_OtherFundingOutputHex se @ '' in request'')
              (DeserializeTxOut blib otherFundingTxOutBz)) (\<lambda>otherFundingTxOut.
     bindR (wrapErr (''invalid previous active stake unbonding script hex ''
                      @ SER_PreviousActiveStakeUnbondingScriptHex se @ '' in request'')
              (DecodeString (SER_PreviousActiveStakeUnbondingScriptHex se))) (\<lambda>prevStakeUnbondScriptBz.
     Ok \<lparr>PSE_PreviousActiveStakeTx = previousActiveStakeTx, PSE_OtherFundingOutput = otherFundingTxOut,
         PSE_PreviousStakingOutputIdx = SER_PrevStakingOutputIdx se,
         PreviousActiveStakeUnbondingScript = prevStakeUnbondScriptBz\<rparr>))))"

definition ParseSigningRequest ::
  "btclib \<Rightarrow> SignTransactionsRequest \<Rightarrow> ParsedSigningRequest result" where
  "ParseSigningRequest blib req =
     bindR (wrapErr ''invalid staking transaction in request''
              (NewBTCTxFromHex blib (STR_StakingTxHex req))) (\<lambda>(stakingTx, _).
     bindR (wrapErr ''invalid slashing transaction in request''
              (NewBTCTxFromHex blib (STR_SlashingTxHex req))) (\<lambda>(slashingTx, _).
     bindR (wrapErr ''invalid unbonding transaction in request''
              (NewBTCTxFromHex blib (STR_UnbondingTxHex req))) (\<lambda>(unbondingTx, _).
     bindR (wrapErr ''invalid slash unbonding transaction in request''
              (NewBTCTxFromHex blib (STR_SlashUnbondingTxHex req))) (\<lambda>(slashUnbondingTx, _).
     bindR (parseScript ''slashing script'' (STR_SlashingScriptHex req)) (\<lambda>slashingScript.
     bindR (parseScript ''unbonding script'' (STR_UnbondingScriptHex req)) (\<lambda>unbondingScript.
     bindR (parseScript ''unbonding slashing script'' (STR_UnbondingSlashingScriptHex req))
       (\<lambda>unbondingSlashingScript.
     bindR (mapR (parseFpEncKey blib) (STR_FpEncKeys req)) (\<lambda>fpEncKeys.
     bindR (case STR_StakeExpansion req of
              None \<Rightarrow> Ok None
            | Some se \<Rightarrow> bindR (parseStakeExpansion blib se) (\<lambda>e. Ok (Some e))) (\<lambda>stakeExp.
     Ok \<lparr>PSR_StakingTx = stakingTx, PSR_SlashingTx = slashingTx, PSR_UnbondingTx = unbondingTx,
         PSR_SlashUnbondingTx = slashUnbondingTx, PSR_StakeExp = stakeExp,
         PSR_StakingOutputIdx = STR_StakingOutputIdx req, SlashingScript = slashingScript,
         UnbondingScript = unbondingScript, UnbondingSlashingScript = unbondingSlashingScript,
         PSR_FpEncKeys = fpEncKeys\<rparr>)))))))))"

section \<open>Printing a request\<close>

definition printStakeExpansion ::
  "btclib \<Rightarrow> ParsedSigningRequestStkExp \<Rightarrow> StakeExpansionRequest result" where
  "printStakeExpansion blib e =
     bindR (wrapErr ''failed to serialize previous active stake transaction''
              (SerializeBTCTxToHex blib (PSE_PreviousActiveStakeTx e))) (\<lambda>pasTxHex.
     bindR (wrapErr ''failed to serialize other funding output''
              (SerializeTxOut blib (PSE_OtherFundingOutput e))) (\<lambda>ofoBz.
     Ok \<lparr>SER_PreviousActiveStakeTxHex = pasTxHex, SER_OtherFundingOutputHex = EncodeToString ofoBz,
         SER_PrevStakingOutputIdx = PSE_PreviousStakingOutputIdx e,
         SER_PreviousActiveStakeUnbondingScriptHex =
           EncodeToString (PreviousActiveStakeUnbondingScript e)\<rparr>))"

definition ToSignTransactionRequest ::
  "btclib \<Rightarrow> ParsedSigningRequest \<Rightarrow> SignTransactionsRequest result" where
  "ToSignTransactionRequest blib preq =
     bindR (wrapErr ''failed to serialize staking transaction''
              (SerializeBTCTxToHex blib (PSR_StakingTx preq))) (\<lambda>stakingTxHex.
     bindR (wrapErr ''failed to serialize slashing transaction''
              (SerializeBTCTxToHex blib (PSR_SlashingTx preq))) (\<lambda>slashingTxHex.
     bindR (wrapErr ''failed to serialize unbonding transaction''
              (SerializeBTCTxToHex blib (PSR_UnbondingTx preq))) (\<lambda>unbondingTxHex.
     bindR (wrapErr ''failed to serialize slash unbonding transaction''
              (SerializeBTCTxToHex blib (PSR_SlashUnbondingTx preq))) (\<lambda>slashUnbondingTxHex.
     bindR (case PSR_StakeExp preq of
              None \<Rightarrow> Ok None
            | Some e \<Rightarrow> bindR (printStakeExpansion blib e) (\<lambda>se. Ok (Some se))) (\<lambda>stakeExpansion.
     Ok \<lparr>STR_StakingTxHex = stakingTxHex, STR_SlashingTxHex = slashingTxHex,
         STR_UnbondingTxHex = unbondingTxHex, STR_SlashUnbondingTxHex = slashUnbondingTxHex,
         STR_StakingOutputIdx = PSR_StakingOutputIdx preq,
         STR_SlashingScriptHex = EncodeToString (SlashingScript preq),
         STR_UnbondingScriptHex = EncodeToString (UnbondingScript preq),
         STR_UnbondingSlashingScriptHex = EncodeToString (UnbondingSlashingScript preq),
         STR_FpEncKeys = map (\<lambda>k. EncodeToString (EncryptionKey_ToBytes blib k)) (PSR_FpEncKeys preq),
         STR_StakeExpansion = stakeExpansion\<rparr>)))))"

section \<open>Responses\<close>

definition ToResponse :: "btclib \<Rightarrow> ParsedSigningResponse \<Rightarrow> SignTransactionsResponse" where
  "ToResponse blib response = \<lparr>
     SlashingTransactionsAdaptorSignatures = map EncodeToString (SlashAdaptorSigs response),
     UnbondingTransactionSignature = EncodeToString (Signature_Serialize blib (PSP_UnbondingSig response)),
     SlashUnbondingTransactionsAdaptorSignatures =
       map EncodeToString (SlashUnbondingAdaptorSigs response),
     StakeExpansionTransactionSignature = (case StakeExpSig response of
         None \<Rightarrow> []
       | Some sg \<Rightarrow> EncodeToString (Signature_Serialize blib sg))\<rparr>"

definition ToParsedSigningResponse ::
  "btclib \<Rightarrow> SignTransactionsResponse \<Rightarrow> ParsedSigningResponse result" where
  "ToParsedSigningResponse blib response =
     (if length (SlashingTransactionsAdaptorSignatures response) = 0
      then Err ''no slashing transactions adaptor signatures in response''
      else if length (SlashUnbondingTransactionsAdaptorSignatures response) = 0
      then Err ''no slash unbonding transactions adaptor signatures in response''
      else
        bindR (mapR (\<lambda>sg. wrapErr ''invalid slashing transactions adaptor signature in response''
                           (DecodeString sg)) (SlashingTransactionsAdaptorSignatures response))
          (\<lambda>slashAdaptorSigs.
        bindR (wrapErr ''invalid unbonding transaction signature in response''
                 (DecodeString (UnbondingTransactionSignature response))) (\<lambda>unbondingSigBytes.
        bindR (wrapErr ''invalid unbonding transaction signature in response''
                 (ParseSignature blib unbondingSigBytes)) (\<lambda>unbondingSig.
        bindR (mapR (\<lambda>sg. wrapErr ''invalid slash unbonding transactions adaptor signature in response''
                           (DecodeString sg)) (SlashUnbondingTransactionsAdaptorSignatures response))
          (\<lambda>slashUnbondingAdaptorSigs.
        bindR (if length (StakeExpansionTransactionSignature response) > 0
               then
                 bindR (wrapErr (''invalid stake expansion signature ''
                                  @ StakeExpansionTransactionSignature response @ '' in response'')
                          (DecodeString (StakeExpansionTransactionSignature response)))
                   (\<lambda>stakeExpSigBytes.
                 bindR (wrapErr (''invalid parse of stake expansion signature ''
                                  @ StakeExpansionTransactionSignature response @ '' in response'')
                          (ParseSignature blib stakeExpSigBytes)) (\<lambda>stakeExpSig.
                 Ok (Some stakeExpSig)))
               else Ok None) (\<lambda>stakeExpSig.
        Ok \<lparr>SlashAdaptorSigs = slashAdaptorSigs, PSP_UnbondingSig = unbondingSig,
            SlashUnbondingAdaptorSigs = slashUnbondingAdaptorSigs, StakeExpSig = stakeExpSig\<rparr>))))))"

section \<open>Round trips\<close>

text \<open>The serialisation laws for everything a request or a response contains.\<close>

definition request_codec_ok :: "btclib \<Rightarrow> ParsedSigningRequest \<Rightarrow> bool" where
  "request_codec_ok blib preq \<longleftrightarrow>
     tx_codec_ok blib (PSR_StakingTx preq) \<and> tx_codec_ok blib (PSR_SlashingTx preq)
     \<and> tx_codec_ok blib (PSR_UnbondingTx preq) \<and> tx_codec_ok blib (PSR_SlashUnbondingTx preq)
     \<and> list_all (enckey_codec_ok blib) (PSR_FpEncKeys preq)
     \<and> (case PSR_StakeExp preq of None \<Rightarrow> True
        | Some e \<Rightarrow> tx_codec_ok blib (PSE_PreviousActiveStakeTx e)
                   \<and> txout_codec_ok blib (PSE_OtherFundingOutput e))"

definition scripts_nonempty :: "ParsedSigningRequest \<Rightarrow> bool" where
  "scripts_nonempty preq \<longleftrightarrow>
     SlashingScript preq \<noteq> [] \<and> UnbondingScript preq \<noteq> [] \<and> UnbondingSlashingScript preq \<noteq> []"

definition response_codec_ok :: "btclib \<Rightarrow> ParsedSigningResponse \<Rightarrow> bool" where
  "response_codec_ok blib resp \<longleftrightarrow>
     sig_codec_ok blib (PSP_UnbondingSig resp)
     \<and> (case StakeExpSig resp of None \<Rightarrow> True | Some sg \<Rightarrow> sig_codec_ok blib sg)"

lemma tx_hex_roundtrip:
  assumes "tx_codec_ok blib tx"
  obtains h bs where "SerializeBTCTxToHex blib tx = Ok h" "NewBTCTxFromHex blib h = Ok (tx, bs)"
  using assms
  by (auto simp: SerializeBTCTxToHex_def SerializeBTCTx_def NewBTCTxFromHex_def NewBTCTxFromBytes_def
      elim!: tx_codec_okE)

lemma parseScript_Encode [simp]:
  "bs \<noteq> [] \<Longrightarrow> parseScript name (EncodeToString bs) = Ok bs"
  by (simp add: parseScript_def)

lemma parseScript_empty [simp]: "parseScript name [] = Err (name @ '' is empty'')"
  by (simp add: parseScript_def)

lemma parseFpEncKeys_roundtrip:
  "list_all (enckey_codec_ok blib) ks \<Longrightarrow>
   mapR (parseFpEncKey blib) (map (\<lambda>k. EncodeToString (EncryptionKey_ToBytes blib k)) ks) = Ok ks"
  by (induction ks) (auto simp: parseFpEncKey_def enckey_codec_ok_def)

lemma stakeExpansion_roundtrip:
  assumes "tx_codec_ok blib (PSE_PreviousActiveStakeTx e)" "txout_codec_ok blib (PSE_OtherFundingOutput e)"
  obtains se where "printStakeExpansion blib e = Ok se" "parseStakeExpansion blib se = Ok e"
proof -
  obtain h bs where "SerializeBTCTxToHex blib (PSE_PreviousActiveStakeTx e) = Ok h"
    "NewBTCTxFromHex blib h = Ok (PSE_PreviousActiveStakeTx e, bs)"
    using tx_hex_roundtrip [OF assms(1)] by blast
  moreover obtain o1 where "SerializeTxOut blib (PSE_OtherFundingOutput e) = Ok o1"
    "DeserializeTxOut blib o1 = Ok (PSE_OtherFundingOutput e)"
    using txout_codec_okE [OF assms(2)] by blast
  ultimately show thesis
    by (auto simp: printStakeExpansion_def parseStakeExpansion_def intro!: that)
qed

lemma request_roundtrip:
  assumes "request_codec_ok blib preq" "scripts_nonempty preq"
  obtains req where "ToSignTransactionRequest blib preq = Ok req" "ParseSigningRequest blib req = Ok preq"
proof -
  note c = assms(1)[unfolded request_codec_ok_def]
  obtain h1 b1 where 1: "SerializeBTCTxToHex blib (PSR_StakingTx preq) = Ok h1"
    "NewBTCTxFromHex blib h1 = Ok (PSR_StakingTx preq, b1)" using c tx_hex_roundtrip by blast
  obtain h2 b2 where 2: "SerializeBTCTxToHex blib (PSR_SlashingTx preq) = Ok h2"
    "NewBTCTxFromHex blib h2 = Ok (PSR_SlashingTx preq, b2)" using c tx_hex_roundtrip by blast
  obtain h3 b3 where 3: "SerializeBTCTxToHex blib (PSR_UnbondingTx preq) = Ok h3"
    "NewBTCTxFromHex blib h3 = Ok (PSR_UnbondingTx preq, b3)" using c tx_hex_roundtrip by blast
  obtain h4 b4 where 4: "SerializeBTCTxToHex blib (PSR_SlashUnbondingTx preq) = Ok h4"
    "NewBTCTxFromHex blib h4 = Ok (PSR_SlashUnbondingTx preq, b4)" using c tx_hex_roundtrip by blast
  obtain se where 5: "(case PSR_StakeExp preq of None \<Rightarrow> Ok None
      | Some e \<Rightarrow> bindR (printStakeExpansion blib e) (\<lambda>se. Ok (Some se))) = Ok se"
    "(case se of None \<Rightarrow> Ok None | Some x \<Rightarrow> bindR (parseStakeExpansion blib x) (\<lambda>e. Ok (Some e)))
      = Ok (PSR_StakeExp preq)"
  proof (cases "PSR_StakeExp preq")
    case None
    then show thesis by (auto intro: that)
  next
    case (Some e)
    with c have "tx_codec_ok blib (PSE_PreviousActiveStakeTx e)"
      "txout_codec_ok blib (PSE_OtherFundingOutput e)" by simp_all
    then obtain x where "printStakeExpansion blib e = Ok x" "parseStakeExpansion blib x = Ok e"
      by (rule stakeExpansion_roundtrip)
    with Some show thesis by (auto intro: that [of "Some x"])
  qed
  note keys = parseFpEncKeys_roundtrip [of blib "PSR_FpEncKeys preq"]
  show thesis
  proof (rule that)
    let ?req = "\<lparr>STR_StakingTxHex = h1, STR_SlashingTxHex = h2, STR_UnbondingTxHex = h3,
       STR_SlashUnbondingTxHex = h4, STR_StakingOutputIdx = PSR_StakingOutputIdx preq,
       STR_SlashingScriptHex = EncodeToString (SlashingScript preq),
       STR_UnbondingScriptHex = EncodeToString (UnbondingScript preq),
       STR_UnbondingSlashingScriptHex = EncodeToString (UnbondingSlashingScript preq),
       STR_FpEncKeys = map (\<lambda>k. EncodeToString (EncryptionKey_ToBytes blib k)) (PSR_FpEncKeys preq),
       STR_StakeExpansion = se\<rparr>"
    show "ToSignTransactionRequest blib preq = Ok ?req"
      using 1 2 3 4 5(1) by (simp add: ToSignTransactionRequest_def)
    show "ParseSigningRequest blib ?req = Ok preq"
      using 1 2 3 4 5(2) keys c assms(2) by (simp add: ParseSigningRequest_def scripts_nonempty_def)
  qed
qed

lemma adaptorSigs_roundtrip:
  "mapR (\<lambda>sg. wrapErr msg (DecodeString sg)) (map EncodeToString sigs) = Ok sigs"
  by (induction sigs) simp_all

lemma sig_nonempty: "sig_codec_ok blib sg \<Longrightarrow> Signature_Serialize blib sg \<noteq> []"
  by (auto simp: sig_codec_ok_def)

lemma response_roundtrip:
  assumes "response_codec_ok blib resp" "SlashAdaptorSigs resp \<noteq> []" "SlashUnbondingAdaptorSigs resp \<noteq> []"
  shows "ToParsedSigningResponse blib (ToResponse blib resp) = Ok resp"
  using assms
  by (cases "StakeExpSig resp")
     (auto simp: ToParsedSigningResponse_def ToResponse_def response_codec_ok_def adaptorSigs_roundtrip
       sig_nonempty sig_codec_ok_def)

section \<open>Properties\<close>

definition sample_stkexp :: ParsedSigningRequestStkExp where
  "sample_stkexp = \<lparr>PSE_PreviousActiveStakeTx = tx_of 9, PSE_OtherFundingOutput = out_of 3,
     PSE_PreviousStakingOutputIdx = 0, PreviousActiveStakeUnbondingScript = []\<rparr>"

lemma sample_codecs: "tx_codec_ok sample_blib (tx_of n)" "txout_codec_ok sample_blib (out_of (ucast (v :: byte)))"
  "enckey_codec_ok sample_blib k"
proof -
  have u: "ucast (ucast n :: 32 word) = n" by (rule bit_word_eqI) (auto simp: bit_simps)
  have v: "ucast (ucast v :: 64 word) = v" by (rule bit_word_eqI) (auto simp: bit_simps)
  show "tx_codec_ok sample_blib (tx_of n)"
    by (simp add: tx_codec_ok_def sample_blib_def deserialize_sample_def tx_of_def u)
  show "txout_codec_ok sample_blib (out_of (ucast v))"
    by (simp add: txout_codec_ok_def sample_blib_def out_of_def v)
  show "enckey_codec_ok sample_blib k"
    by (cases k) (simp add: enckey_codec_ok_def sample_blib_def)
qed

text \<open>
  C24. A signing request survives the trip to the signer: printed as a message and parsed again it is
  the same request, provided transactions, outputs and keys survive their own serialisation and none
  of the three scripts is empty.
\<close>

theorem signing_request_roundtrip:
  assumes "request_codec_ok blib preq" "scripts_nonempty preq"
  shows "bindR (ToSignTransactionRequest blib preq) (ParseSigningRequest blib) = Ok preq"
  using request_roundtrip [OF assms] by (metis bindR.simps(1))

theorem signing_request_roundtrip_witness:
  "bindR (ToSignTransactionRequest sample_blib (sample_preq\<lparr>PSR_StakeExp := Some sample_stkexp\<rparr>))
     (ParseSigningRequest sample_blib) = Ok (sample_preq\<lparr>PSR_StakeExp := Some sample_stkexp\<rparr>)"
proof (rule signing_request_roundtrip)
  have "txout_codec_ok sample_blib (out_of 3)" using sample_codecs(2) [of 3] by simp
  then show "request_codec_ok sample_blib (sample_preq\<lparr>PSR_StakeExp := Some sample_stkexp\<rparr>)"
    by (simp add: request_codec_ok_def sample_preq_def sample_stkexp_def sample_codecs)
  show "scripts_nonempty (sample_preq\<lparr>PSR_StakeExp := Some sample_stkexp\<rparr>)"
    by (simp add: scripts_nonempty_def sample_preq_def)
qed

text \<open>
  A parsed signing request always has its three scripts: a message with an empty script, or with a
  script that is not hexadecimal, is refused.
\<close>

lemma parsed_request_scripts:
  assumes "ParseSigningRequest blib req = Ok preq"
  shows "scripts_nonempty preq
    \<and> DecodeString (STR_SlashingScriptHex req) = Ok (SlashingScript preq)
    \<and> DecodeString (STR_UnbondingScriptHex req) = Ok (UnbondingScript preq)
    \<and> DecodeString (STR_UnbondingSlashingScriptHex req) = Ok (UnbondingSlashingScript preq)
    \<and> length (PSR_FpEncKeys preq) = length (STR_FpEncKeys req)
    \<and> (PSR_StakeExp preq \<noteq> None \<longleftrightarrow> IsStakeExpansionReq req)"
  using assms
  by (auto simp: ParseSigningRequest_def parseScript_def scripts_nonempty_def IsStakeExpansionReq_def
      act_simps dest: mapR_Ok_length split: if_splits option.splits)

lemma parsed_request_scripts_example:
  "\<exists>req. ParseSigningRequest sample_blib req = Ok sample_preq \<and> \<not> IsStakeExpansionReq req"
proof -
  have "request_codec_ok sample_blib sample_preq" "scripts_nonempty sample_preq"
    by (simp_all add: request_codec_ok_def sample_preq_def sample_codecs scripts_nonempty_def)
  then obtain req where req: "ParseSigningRequest sample_blib req = Ok sample_preq"
    by (rule request_roundtrip)
  with parsed_request_scripts [OF req] show ?thesis
    by (intro exI [of _ req]) (simp add: sample_preq_def)
qed

text \<open>
  C25. A response survives the trip back: printed and parsed again it is the same response, provided
  its Schnorr signatures survive their own serialisation, which has 64 bytes, and it has adaptor
  signatures of both kinds. A response without adaptor signatures, the answer to a request without
  finality provider keys, is refused by the client.
\<close>

theorem signing_response_roundtrip:
  assumes "response_codec_ok blib resp"
  shows "ToParsedSigningResponse blib (ToResponse blib resp) =
    (if SlashAdaptorSigs resp = [] then Err ''no slashing transactions adaptor signatures in response''
     else if SlashUnbondingAdaptorSigs resp = []
     then Err ''no slash unbonding transactions adaptor signatures in response''
     else Ok resp)"
proof (cases "SlashAdaptorSigs resp = [] \<or> SlashUnbondingAdaptorSigs resp = []")
  case True
  then show ?thesis by (auto simp: ToParsedSigningResponse_def ToResponse_def)
next
  case False
  with response_roundtrip [OF assms] show ?thesis by auto
qed

definition sample_sig :: SchnorrSignature where
  "sample_sig = SchnorrSignature (replicate 64 5)"

theorem signing_response_roundtrip_witness:
  "ToParsedSigningResponse sample_blib (ToResponse sample_blib (sample_presp\<lparr>PSP_UnbondingSig := sample_sig,
     StakeExpSig := Some sample_sig\<rparr>)) = Ok (sample_presp\<lparr>PSP_UnbondingSig := sample_sig,
     StakeExpSig := Some sample_sig\<rparr>)"
  by (subst signing_response_roundtrip)
     (simp_all add: response_codec_ok_def sig_codec_ok_def sample_sig_def sample_blib_def sample_presp_def)

end
