(* ===== verification/Json.thy ===== *)
theory Json
  imports GoStd
begin

text \<open>
  The part of Go's \<^verbatim>\<open>encoding/json\<close> the signing service and its client use. Go strings are
  byte sequences, so a character of the model is a byte, and UTF-8 is spelled out.

  Printing follows \<^verbatim>\<open>json.Marshal\<close> with its default escaping of HTML. Parsing follows the
  scanner and \<^verbatim>\<open>unquote\<close>, including escapes, surrogate pairs, the replacement of invalid
  UTF-8 and the maximal nesting depth. The recursion of the parser checks that the rest of the
  text gets shorter; \<open>parseValue_shorter\<close> shows that the check never fails. The main lemma is
  the round trip \<open>parseValue_print\<close>. The texts of syntax errors are not modelled: a failure is
  \<open>None\<close>.
\<close>

section \<open>UTF-8\<close>

abbreviation code :: "char \<Rightarrow> nat" where
  "code c \<equiv> of_char c"

definition between :: "nat \<Rightarrow> nat \<Rightarrow> char \<Rightarrow> bool" where
  "between lo hi c \<longleftrightarrow> lo \<le> code c \<and> code c \<le> hi"

text \<open>\<^verbatim>\<open>utf8.DecodeRune\<close>: the rune, or \<open>None\<close> for an invalid byte, and what follows it.\<close>

definition decodeRune :: "char \<Rightarrow> string \<Rightarrow> nat option \<times> string" where
  "decodeRune c r =
     (if code c < 128 then (Some (code c), r)
      else if between 194 223 c then
        (case r of c1 # r1 \<Rightarrow>
           if between 128 191 c1 then (Some ((code c - 192) * 64 + (code c1 - 128)), r1) else (None, r)
         | _ \<Rightarrow> (None, r))
      else if between 224 239 c then
        (case r of c1 # c2 # r2 \<Rightarrow>
           if between (if code c = 224 then 160 else 128) (if code c = 237 then 159 else 191) c1
              \<and> between 128 191 c2
           then (Some ((code c - 224) * 4096 + (code c1 - 128) * 64 + (code c2 - 128)), r2)
           else (None, r)
         | _ \<Rightarrow> (None, r))
      else if between 240 244 c then
        (case r of c1 # c2 # c3 # r3 \<Rightarrow>
           if between (if code c = 240 then 144 else 128) (if code c = 244 then 143 else 191) c1
              \<and> between 128 191 c2 \<and> between 128 191 c3
           then (Some ((code c - 240) * 262144 + (code c1 - 128) * 4096 + (code c2 - 128) * 64
                       + (code c3 - 128)), r3)
           else (None, r)
         | _ \<Rightarrow> (None, r))
      else (None, r))"

definition runeError :: nat where
  "runeError = 65533"

definition is_surrogate :: "nat \<Rightarrow> bool" where
  "is_surrogate u \<longleftrightarrow> 55296 \<le> u \<and> u \<le> 57343"

definition encodeRune :: "nat \<Rightarrow> string" where
  "encodeRune u0 =
     (let u = (if is_surrogate u0 \<or> 1114111 < u0 then runeError else u0)
      in map char_of
        (if u < 128 then [u]
         else if u < 2048 then [192 + u div 64, 128 + u mod 64]
         else if u < 65536 then [224 + u div 4096, 128 + u div 64 mod 64, 128 + u mod 64]
         else [240 + u div 262144, 128 + u div 4096 mod 64, 128 + u div 64 mod 64, 128 + u mod 64]))"

lemma decodeRune_shorter: "length (snd (decodeRune c r)) \<le> length r"
  by (auto simp: decodeRune_def split: list.splits)

lemma decodeRune_less: "(x, r') = decodeRune c r \<Longrightarrow> length r' < Suc (length r)"
  using decodeRune_shorter [of c r] by (cases "decodeRune c r") simp

section \<open>Printing\<close>

datatype json =
    JNull
  | JBool bool
  | JNum string
  | JStr string
  | JArr "json list"
  | JObj "(string \<times> json) list"

abbreviation quote :: char where
  "quote \<equiv> CHR 0x22"

abbreviation backslash :: char where
  "backslash \<equiv> CHR 0x5C"

text \<open>The set of ASCII characters that are printed as they are, and the escapes of the others.\<close>

definition htmlSafe :: "char \<Rightarrow> bool" where
  "htmlSafe c \<longleftrightarrow> 32 \<le> code c \<and> c \<notin> set ''<>&'' \<and> c \<noteq> quote \<and> c \<noteq> backslash"

definition quoteAscii :: "char \<Rightarrow> string" where
  "quoteAscii c =
     (if htmlSafe c then [c]
      else if c = quote \<or> c = backslash then [backslash, c]
      else if code c = 8 then [backslash, CHR ''b'']
      else if code c = 12 then [backslash, CHR ''f'']
      else if code c = 10 then [backslash, CHR ''n'']
      else if code c = 13 then [backslash, CHR ''r'']
      else if code c = 9 then [backslash, CHR ''t'']
      else backslash # ''u00'' @ [hextable ! (code c div 16), hextable ! (code c mod 16)])"

function quoteBody :: "string \<Rightarrow> string" where
  "quoteBody [] = []"
| "quoteBody (c # s) =
     (if code c < 128 then quoteAscii c @ quoteBody s
      else (case decodeRune c s of
              (None, r) \<Rightarrow> backslash # ''ufffd'' @ quoteBody r
            | (Some u, r) \<Rightarrow>
                (if u = 8232 then backslash # ''u2028''
                 else if u = 8233 then backslash # ''u2029''
                 else encodeRune u) @ quoteBody r))"
  by pat_completeness auto
termination
  by (relation "measure length") (simp_all add: decodeRune_less)

definition printString :: "string \<Rightarrow> string" where
  "printString s = quote # quoteBody s @ [quote]"

fun printValue :: "json \<Rightarrow> string"
  and printElems :: "json list \<Rightarrow> string"
  and printMembers :: "(string \<times> json) list \<Rightarrow> string" where
  "printValue JNull = ''null''"
| "printValue (JBool b) = (if b then ''true'' else ''false'')"
| "printValue (JNum n) = n"
| "printValue (JStr s) = printString s"
| "printValue (JArr vs) = ''['' @ printElems vs @ '']''"
| "printValue (JObj ms) = ''{'' @ printMembers ms @ ''}''"
| "printElems [] = []"
| "printElems [v] = printValue v"
| "printElems (v # w # vs) = printValue v @ '','' @ printElems (w # vs)"
| "printMembers [] = []"
| "printMembers [(k, v)] = printString k @ '':'' @ printValue v"
| "printMembers ((k, v) # m # ms) = printString k @ '':'' @ printValue v @ '','' @ printMembers (m # ms)"

section \<open>Parsing\<close>

definition is_ws :: "char \<Rightarrow> bool" where
  "is_ws c \<longleftrightarrow> code c \<in> {9, 10, 13, 32}"

definition skipWs :: "string \<Rightarrow> string" where
  "skipWs s = dropWhile is_ws s"

fun hex4 :: "string \<Rightarrow> (nat \<times> string) option" where
  "hex4 (a # b # c # d # r) =
     (case (hex_val a, hex_val b, hex_val c, hex_val d) of
        (Some x, Some y, Some z, Some w) \<Rightarrow> Some (4096 * x + 256 * y + 16 * z + w, r)
      | _ \<Rightarrow> None)"
| "hex4 _ = None"

text \<open>The second half of a surrogate pair, if the text continues with one.\<close>

definition lowSurrogate :: "nat \<Rightarrow> string \<Rightarrow> (nat \<times> string) option" where
  "lowSurrogate u r =
     (case r of c # d # r1 \<Rightarrow>
        if c = backslash \<and> d = CHR ''u'' \<and> u < 56320 then
          (case hex4 r1 of Some (u2, r2) \<Rightarrow>
             if 56320 \<le> u2 \<and> u2 \<le> 57343
             then Some ((u - 55296) * 1024 + (u2 - 56320) + 65536, r2) else None
           | None \<Rightarrow> None)
        else None
      | _ \<Rightarrow> None)"

definition simpleEscape :: "char \<Rightarrow> char option" where
  "simpleEscape e =
     (if e = quote \<or> e = backslash \<or> e = CHR ''/'' then Some e
      else if e = CHR ''b'' then Some (char_of (8::nat))
      else if e = CHR ''f'' then Some (char_of (12::nat))
      else if e = CHR ''n'' then Some (char_of (10::nat))
      else if e = CHR ''r'' then Some (char_of (13::nat))
      else if e = CHR ''t'' then Some (char_of (9::nat))
      else None)"

text \<open>An escape after its backslash: what it stands for, and the rest.\<close>

definition parseEscape :: "string \<Rightarrow> (string \<times> string) option" where
  "parseEscape s =
     (case s of [] \<Rightarrow> None
      | e # r \<Rightarrow>
          (case simpleEscape e of Some c \<Rightarrow> Some ([c], r)
           | None \<Rightarrow>
               if e = CHR ''u'' then
                 (case hex4 r of None \<Rightarrow> None
                  | Some (u, r1) \<Rightarrow>
                      if is_surrogate u then
                        (case lowSurrogate u r1 of
                           Some (v, r2) \<Rightarrow> Some (encodeRune v, r2)
                         | None \<Rightarrow> Some (encodeRune runeError, r1))
                      else Some (encodeRune u, r1))
               else None))"

definition prepend :: "string \<Rightarrow> (string \<times> string) option \<Rightarrow> (string \<times> string) option" where
  "prepend p x = map_option (\<lambda>(s, r). (p @ s, r)) x"

lemma hex4_shorter: "hex4 s = Some (u, r) \<Longrightarrow> length r < length s"
  by (cases s rule: hex4.cases) (auto split: option.splits)

lemma lowSurrogate_shorter: "lowSurrogate u s = Some (v, r) \<Longrightarrow> length r < length s"
  by (auto simp: lowSurrogate_def split: list.splits option.splits if_splits dest: hex4_shorter)

lemma parseEscape_shorter: "parseEscape s = Some (x, r) \<Longrightarrow> length r < length s"
  by (auto simp: parseEscape_def split: list.splits option.splits if_splits
      dest!: hex4_shorter lowSurrogate_shorter)

text \<open>A string after its opening quote.\<close>

function parseString :: "string \<Rightarrow> (string \<times> string) option" where
  "parseString [] = None"
| "parseString (c # s) =
     (if c = quote then Some ([], s)
      else if c = backslash then
        (case parseEscape s of None \<Rightarrow> None | Some (x, r) \<Rightarrow> prepend x (parseString r))
      else if code c < 32 then None
      else if code c < 128 then prepend [c] (parseString s)
      else (case decodeRune c s of
              (None, r) \<Rightarrow> prepend (encodeRune runeError) (parseString r)
            | (Some u, r) \<Rightarrow> prepend (encodeRune u) (parseString r)))"
  by pat_completeness auto
termination
  by (relation "measure length") (auto simp: decodeRune_less dest: parseEscape_shorter)

text \<open>Numbers are kept as text.\<close>

definition parseDigits :: "string \<Rightarrow> (string \<times> string) option" where
  "parseDigits s =
     (let ds = takeWhile is_digit s in if ds = [] then None else Some (ds, dropWhile is_digit s))"

definition parseIntPart :: "string \<Rightarrow> (string \<times> string) option" where
  "parseIntPart s =
     (case s of [] \<Rightarrow> None
      | c # r \<Rightarrow> if c = CHR ''0'' then Some ([c], r) else parseDigits s)"

definition parseFraction :: "string \<Rightarrow> (string \<times> string) option" where
  "parseFraction s =
     (case s of [] \<Rightarrow> Some ([], s)
      | c # r \<Rightarrow> if c = CHR ''.'' then prepend [c] (parseDigits r) else Some ([], s))"

definition parseExponent :: "string \<Rightarrow> (string \<times> string) option" where
  "parseExponent s =
     (case s of [] \<Rightarrow> Some ([], s)
      | c # r \<Rightarrow>
          if c = CHR ''e'' \<or> c = CHR ''E'' then
            (case r of [] \<Rightarrow> None
             | x # q \<Rightarrow> if x = CHR ''+'' \<or> x = CHR ''-'' then prepend [c, x] (parseDigits q)
                       else prepend [c] (parseDigits r))
          else Some ([], s))"

definition parseNumber :: "string \<Rightarrow> (string \<times> string) option" where
  "parseNumber s =
     (let (sign, s0) = (case s of c # r \<Rightarrow> if c = CHR ''-'' then ([c], r) else ([], s) | [] \<Rightarrow> ([], s))
      in case parseIntPart s0 of None \<Rightarrow> None
         | Some (i, s1) \<Rightarrow>
             (case parseFraction s1 of None \<Rightarrow> None
              | Some (f, s2) \<Rightarrow> prepend (sign @ i @ f) (parseExponent s2)))"

definition parseLiteral :: "string \<Rightarrow> json \<Rightarrow> string \<Rightarrow> (json \<times> string) option" where
  "parseLiteral lit v s = (if has_prefix s lit then Some (v, drop (length lit) s) else None)"

lemma skipWs_length: "length (skipWs s) \<le> length s"
  by (simp add: skipWs_def length_dropWhile_le)

lemma skipWs_Cons_length: "skipWs s = c # r \<Longrightarrow> length r < length s"
  using skipWs_length [of s] by simp

text \<open>
  Values, the elements of an array after its bracket and the members of an object after its
  brace; the first number is how much deeper values may nest.
\<close>

function (sequential) parseValue :: "nat \<Rightarrow> string \<Rightarrow> (json \<times> string) option"
  and parseElems :: "nat \<Rightarrow> string \<Rightarrow> (json list \<times> string) option"
  and parseMembers :: "nat \<Rightarrow> string \<Rightarrow> ((string \<times> json) list \<times> string) option" where
  "parseValue d [] = None"
| "parseValue d (c # s) =
     (if c = CHR ''{'' then
        (case d of 0 \<Rightarrow> None
         | Suc d' \<Rightarrow> if has_prefix (skipWs s) ''}'' then Some (JObj [], tl (skipWs s))
                    else map_option (\<lambda>(ms, r). (JObj ms, r)) (parseMembers d' s))
      else if c = CHR ''['' then
        (case d of 0 \<Rightarrow> None
         | Suc d' \<Rightarrow> if has_prefix (skipWs s) '']'' then Some (JArr [], tl (skipWs s))
                    else map_option (\<lambda>(vs, r). (JArr vs, r)) (parseElems d' s))
      else if c = quote then map_option (\<lambda>(x, r). (JStr x, r)) (parseString s)
      else if c = CHR ''t'' then parseLiteral ''true'' (JBool True) (c # s)
      else if c = CHR ''f'' then parseLiteral ''false'' (JBool False) (c # s)
      else if c = CHR ''n'' then parseLiteral ''null'' JNull (c # s)
      else map_option (\<lambda>(n, r). (JNum n, r)) (parseNumber (c # s)))"
| "parseElems d s =
     (case parseValue d (skipWs s) of None \<Rightarrow> None
      | Some (v, r) \<Rightarrow>
          if length r < length s then
            (case skipWs r of [] \<Rightarrow> None
             | c # q \<Rightarrow>
                 if c = CHR '','' then map_option (\<lambda>(vs, z). (v # vs, z)) (parseElems d q)
                 else if c = CHR '']'' then Some ([v], q)
                 else None)
          else None)"
| "parseMembers d s =
     (case skipWs s of [] \<Rightarrow> None
      | c # s1 \<Rightarrow>
          if c \<noteq> quote then None
          else (case parseString s1 of None \<Rightarrow> None
                | Some (k, s2) \<Rightarrow>
                    (case skipWs s2 of [] \<Rightarrow> None
                     | c2 # s3 \<Rightarrow>
                         if c2 \<noteq> CHR '':'' \<or> \<not> length s3 < length s then None
                         else (case parseValue d (skipWs s3) of None \<Rightarrow> None
                               | Some (v, r) \<Rightarrow>
                                   if length r < length s then
                                     (case skipWs r of [] \<Rightarrow> None
                                      | c3 # q \<Rightarrow>
                                          if c3 = CHR '','' then
                                            map_option (\<lambda>(ms, z). ((k, v) # ms, z)) (parseMembers d q)
                                          else if c3 = CHR ''}'' then Some ([(k, v)], q)
                                          else None)
                                   else None))))"
  by pat_completeness auto

termination
  by (relation "measure (\<lambda>x. case x of Inl (d, s) \<Rightarrow> 2 * length s
        | Inr (Inl (d, s)) \<Rightarrow> 2 * length s + 1 | Inr (Inr (d, s)) \<Rightarrow> 2 * length s + 1)")
     (auto dest!: skipWs_Cons_length simp: skipWs_length less_Suc_eq_le
       intro: le_less_trans [OF skipWs_length] order.trans [OF skipWs_length less_imp_le])

declare parseElems.simps [simp del] parseMembers.simps [simp del]

section \<open>The checks of the recursion never fail\<close>

lemma prepend_Some: "prepend p x = Some (s, r) \<longleftrightarrow> (\<exists>t. x = Some (t, r) \<and> s = p @ t)"
  by (auto simp: prepend_def)

lemma parseString_shorter: "parseString s = Some (x, r) \<Longrightarrow> length r < length s"
proof (induction s arbitrary: x rule: parseString.induct)
  case (2 c s)
  consider "c = quote" | "c \<noteq> quote" "c = backslash" | "c \<noteq> quote" "c \<noteq> backslash" "code c < 128"
    | "c \<noteq> quote" "c \<noteq> backslash" "\<not> code c < 128" by blast
  then show ?case
  proof cases
    case 2
    with "2.prems" obtain y s' t where e: "parseEscape s = Some (y, s')" "parseString s' = Some (t, r)"
      by (auto simp: prepend_Some split: option.splits)
    with "2.IH"(1) [OF 2 e(1) refl] parseEscape_shorter [OF e(1)] show ?thesis by fastforce
  next
    case 4
    obtain u s' where d: "decodeRune c s = (u, s')" by fastforce
    with 4 "2.prems" obtain t where "parseString s' = Some (t, r)"
      by (auto simp: prepend_Some split: option.splits)
    moreover have "length s' < Suc (length s)" using decodeRune_shorter [of c s] d by simp
    ultimately show ?thesis
      using "2.IH"(3,4) d 4 by (cases u) fastforce+
  qed (use 2 in \<open>auto simp: prepend_Some split: if_splits\<close>)
qed simp

lemma parseDigits_shorter: "parseDigits s = Some (x, r) \<Longrightarrow> length r < length s"
  by (cases s) (auto simp: parseDigits_def Let_def le_imp_less_Suc length_dropWhile_le split: if_splits)

lemma parseNumber_shorter:
  assumes "parseNumber s = Some (x, r)"
  shows "length r < length s"
proof -
  have int: "parseIntPart s = Some (x, r) \<Longrightarrow> length r < length s" for s x r
    by (auto simp: parseIntPart_def split: list.splits if_splits dest: parseDigits_shorter)
  have frac: "parseFraction s = Some (x, r) \<Longrightarrow> length r \<le> length s" for s x r
    by (auto simp: parseFraction_def prepend_Some split: list.splits if_splits dest: parseDigits_shorter)
  have exp: "parseExponent s = Some (x, r) \<Longrightarrow> length r \<le> length s" for s x r
    by (auto simp: parseExponent_def prepend_Some split: list.splits if_splits dest: parseDigits_shorter)
  show ?thesis
    using assms unfolding parseNumber_def
    by (auto simp: prepend_Some split: list.splits option.splits if_splits prod.splits
        dest!: int frac exp)
qed

lemma parseValue_shorter:
  "parseValue d s = Some (v, r) \<Longrightarrow> length r < length s"
  "parseElems d s = Some (vs, r) \<Longrightarrow> length r < length s"
  "parseMembers d s = Some (ms, r) \<Longrightarrow> length r < length s"
proof (induction d s and d s and d s arbitrary: v and vs and ms
    rule: parseValue_parseElems_parseMembers.induct)
  case (2 d c s)
  have tl: "length (tl (skipWs s)) < Suc (length s)" using skipWs_length [of s] by simp
  have lit: "parseLiteral l w (c # s) = Some (v, r) \<Longrightarrow> l \<noteq> [] \<Longrightarrow> length r < Suc (length s)" for l w
    by (auto simp: parseLiteral_def split: if_splits)
  show ?case
    using 2 tl
    by (auto split: if_splits nat.splits intro: lit less_SucI
        dest: parseString_shorter parseNumber_shorter)
next
  case (3 d s)
  from "3.prems" obtain w r1 c q where w: "parseValue d (skipWs s) = Some (w, r1)" "length r1 < length s"
    and q: "skipWs r1 = c # q" and rest: "c = CHR '','' \<and> (\<exists>us. parseElems d q = Some (us, r)) \<or> q = r"
    by (subst (asm) parseElems.simps) (auto split: option.splits list.splits if_splits)
  from rest show ?case
  proof
    assume "c = CHR '','' \<and> (\<exists>us. parseElems d q = Some (us, r))"
    with "3.IH"(2) [OF w(1) refl w(2) q] have "length r < length q" by blast
    with skipWs_Cons_length [OF q] w(2) show ?thesis by linarith
  qed (use skipWs_Cons_length [OF q] w(2) in simp)
next
  case (4 d s)
  from "4.prems" obtain c s1 k s2 c2 s3 w r1 c3 q where
    s: "skipWs s = c # s1" "\<not> c \<noteq> quote" "parseString s1 = Some (k, s2)" "skipWs s2 = c2 # s3"
      "\<not> (c2 \<noteq> CHR '':'' \<or> \<not> length s3 < length s)"
    and w: "parseValue d (skipWs s3) = Some (w, r1)" "length r1 < length s"
    and q: "skipWs r1 = c3 # q" and rest: "c3 = CHR '','' \<and> (\<exists>us. parseMembers d q = Some (us, r)) \<or> q = r"
    by (subst (asm) parseMembers.simps) (auto split: option.splits list.splits if_splits)
  from rest show ?case
  proof
    assume "c3 = CHR '','' \<and> (\<exists>us. parseMembers d q = Some (us, r))"
    with "4.IH"(2) [OF s(1,2,3) refl s(4,5) w(1) refl w(2) q] have "length r < length q" by blast
    with skipWs_Cons_length [OF q] w(2) show ?thesis by linarith
  qed (use skipWs_Cons_length [OF q] w(2) in simp)
qed simp

section \<open>Parsing what was printed\<close>

definition ascii :: "string \<Rightarrow> bool" where
  "ascii s \<longleftrightarrow> list_all (\<lambda>c. code c < 128) s"

definition plainNumber :: "string \<Rightarrow> bool" where
  "plainNumber n \<longleftrightarrow> n \<noteq> [] \<and> list_all is_digit n \<and> (hd n = CHR ''0'' \<longrightarrow> length n = 1)"

text \<open>Values with ASCII strings and unsigned numbers that nest at most to the given depth.\<close>

fun printable :: "nat \<Rightarrow> json \<Rightarrow> bool" where
  "printable d JNull = True"
| "printable d (JBool b) = True"
| "printable d (JNum n) = plainNumber n"
| "printable d (JStr s) = ascii s"
| "printable d (JArr vs) = (case d of 0 \<Rightarrow> False | Suc d' \<Rightarrow> \<forall>v \<in> set vs. printable d' v)"
| "printable d (JObj ms) = (case d of 0 \<Rightarrow> False | Suc d' \<Rightarrow> \<forall>m \<in> set ms. ascii (fst m) \<and> printable d' (snd m))"

text \<open>What may follow a value.\<close>

definition stops :: "string \<Rightarrow> bool" where
  "stops r \<longleftrightarrow> (case r of [] \<Rightarrow> True | c # _ \<Rightarrow> c \<in> set '',]}'')"

lemma hex_digits_ascii:
  assumes "n < 128"
  shows "parseEscape (''u00'' @ [hextable ! (n div 16), hextable ! (n mod 16)] @ t) = Some ([char_of n], t)"
proof -
  have "hex_val (CHR ''0'') = Some 0" by (simp add: hex_val_def)
  then have "hex4 (''00'' @ [hextable ! (n div 16), hextable ! (n mod 16)] @ t) = Some (n, t)"
    using assms by simp
  then show ?thesis
    using assms by (simp add: parseEscape_def simpleEscape_def is_surrogate_def encodeRune_def)
qed

lemma parseEscape_simple:
  "simpleEscape e = Some c \<Longrightarrow> parseEscape (e # t) = Some ([c], t)"
  by (simp add: parseEscape_def)

lemma parseString_escape:
  "parseEscape s = Some (x, t) \<Longrightarrow> parseString (backslash # s) = prepend x (parseString t)"
  by simp

lemma code_eq_char_of: "code c = n \<Longrightarrow> c = char_of n"
  by (metis char_of_char)

lemma parseString_quoteAscii:
  assumes "code c < 128"
  shows "parseString (quoteAscii c @ t) = prepend [c] (parseString t)"
proof (cases "htmlSafe c")
  case True
  then show ?thesis using assms by (simp add: quoteAscii_def htmlSafe_def)
next
  case False
  have esc: "parseString (backslash # e # t) = prepend [c] (parseString t)" if "simpleEscape e = Some c" for e
    by (rule parseString_escape) (rule parseEscape_simple [OF that])
  have named: "simpleEscape c = Some c" if "c = quote \<or> c = backslash"
    using that by (auto simp: simpleEscape_def)
  have ctl: "simpleEscape (CHR ''b'') = Some c" if "code c = 8"
    using code_eq_char_of [OF that] by (simp add: simpleEscape_def)
  have ctl2: "simpleEscape (CHR ''f'') = Some c" if "code c = 12"
    using code_eq_char_of [OF that] by (simp add: simpleEscape_def)
  have ctl3: "simpleEscape (CHR ''n'') = Some c" if "code c = 10"
    using code_eq_char_of [OF that] by (simp add: simpleEscape_def)
  have ctl4: "simpleEscape (CHR ''r'') = Some c" if "code c = 13"
    using code_eq_char_of [OF that] by (simp add: simpleEscape_def)
  have ctl5: "simpleEscape (CHR ''t'') = Some c" if "code c = 9"
    using code_eq_char_of [OF that] by (simp add: simpleEscape_def)
  have "parseString (backslash # ''u00'' @ [hextable ! (code c div 16), hextable ! (code c mod 16)] @ t)
      = prepend [c] (parseString t)"
    using parseString_escape [OF hex_digits_ascii [OF assms, of t]] by simp
  with False esc named ctl ctl2 ctl3 ctl4 ctl5 show ?thesis
    by (simp add: quoteAscii_def del: parseString.simps split: if_split)
qed

lemma parseString_quoteBody: "ascii s \<Longrightarrow> parseString (quoteBody s @ quote # r) = Some (s, r)"
proof (induction s)
  case (Cons c s)
  then show ?case
    by (simp add: ascii_def parseString_quoteAscii prepend_def del: parseString.simps(2))
qed simp

lemma dropWhile_stops: "stops r \<Longrightarrow> dropWhile is_digit r = r \<and> takeWhile is_digit r = []"
  by (cases r) (auto simp: stops_def is_digit_def)

lemma parseNumber_plain:
  assumes "plainNumber n" "stops r"
  shows "parseNumber (n @ r) = Some (n, r)"
proof -
  obtain c m where n: "n = c # m" using assms(1) by (cases n) (auto simp: plainNumber_def)
  have dig: "is_digit c" "\<forall>x \<in> set m. is_digit x" using assms(1) n by (auto simp: plainNumber_def list_all_iff)
  then have "c \<noteq> CHR ''-''" by (auto simp: is_digit_def)
  moreover have "parseIntPart (n @ r) = Some (n, r)"
  proof (cases "c = CHR ''0''")
    case True
    with assms(1) n show ?thesis by (simp add: parseIntPart_def plainNumber_def)
  next
    case False
    with dig n dropWhile_stops [OF assms(2)] show ?thesis
      by (simp add: parseIntPart_def parseDigits_def dropWhile_append2 takeWhile_append2)
  qed
  moreover have "parseFraction r = Some ([], r)" "parseExponent r = Some ([], r)"
    using assms(2) by (auto simp: parseFraction_def parseExponent_def stops_def split: list.splits)
  ultimately show ?thesis by (simp add: n parseNumber_def prepend_def)
qed

lemma printValue_start:
  "printable d v \<Longrightarrow> \<exists>c s. printValue v = c # s \<and> \<not> is_ws c \<and> c \<notin> set '']}''"
proof (cases v)
  case (JNum n)
  moreover assume "printable d v"
  ultimately show ?thesis by (cases n) (auto simp: plainNumber_def is_digit_def is_ws_def)
qed (auto simp: is_ws_def printString_def)

lemma skipWs_printValue: "printable d v \<Longrightarrow> skipWs (printValue v @ r) = printValue v @ r"
  using printValue_start by (fastforce simp: skipWs_def)

lemma skipWs_printElems:
  assumes "vs \<noteq> []" "\<forall>v \<in> set vs. printable d v"
  shows "skipWs (printElems vs @ r) = printElems vs @ r \<and> \<not> has_prefix (printElems vs @ r) '']''"
proof -
  obtain v ws where vs: "vs = v # ws" using assms(1) by (cases vs) auto
  then obtain c s where c: "printValue v = c # s" "\<not> is_ws c" "c \<notin> set '']}''"
    using printValue_start [of d v] assms(2) by auto
  then show ?thesis by (cases ws) (auto simp: vs skipWs_def)
qed

lemma skipWs_printMembers:
  assumes "ms \<noteq> []"
  shows "skipWs (printMembers ms @ r) = printMembers ms @ r \<and> \<not> has_prefix (printMembers ms @ r) ''}''"
proof -
  obtain k v ws where ms: "ms = (k, v) # ws" using assms by (cases ms) auto
  have "\<not> is_ws quote" by (simp add: is_ws_def)
  then show ?thesis by (cases ws) (auto simp: ms skipWs_def printString_def)
qed

lemma skipWs_sep: "skipWs (c # s) = c # s" if "c \<in> set '',:]}''"
  using that by (auto simp: skipWs_def is_ws_def)

lemma parseMember:
  assumes "ascii k" "printable d v" "parseValue d (printValue v @ r) = Some (v, r)"
  shows "parseMembers d (printString k @ '':'' @ printValue v @ r) =
    (case skipWs r of [] \<Rightarrow> None
     | c # q \<Rightarrow> if c = CHR '','' then map_option (\<lambda>(ms, z). ((k, v) # ms, z)) (parseMembers d q)
               else if c = CHR ''}'' then Some ([(k, v)], q) else None)"
proof -
  have "\<not> is_ws quote" by (simp add: is_ws_def)
  then have "skipWs (quote # s) = quote # s" for s by (simp add: skipWs_def)
  moreover have "parseString (quoteBody k @ quote # CHR '':'' # s) = Some (k, CHR '':'' # s)" for s
    using assms(1) by (rule parseString_quoteBody)
  ultimately show ?thesis
    using assms(3) skipWs_printValue [OF assms(2)]
    by (subst parseMembers.simps) (simp add: printString_def skipWs_sep)
qed

lemma parseElem:
  assumes "printable d v" "parseValue d (printValue v @ r) = Some (v, r)"
  shows "parseElems d (printValue v @ r) =
    (case skipWs r of [] \<Rightarrow> None
     | c # q \<Rightarrow> if c = CHR '','' then map_option (\<lambda>(vs, z). (v # vs, z)) (parseElems d q)
               else if c = CHR '']'' then Some ([v], q) else None)"
proof -
  have "printValue v \<noteq> []" using printValue_start [OF assms(1)] by auto
  then show ?thesis
    using assms(2) skipWs_printValue [OF assms(1)] by (subst parseElems.simps) simp
qed

lemma parseValue_print_aux:
  "printable d v \<Longrightarrow> stops r \<Longrightarrow> parseValue d (printValue v @ r) = Some (v, r)"
  "vs \<noteq> [] \<Longrightarrow> \<forall>v \<in> set vs. printable d v \<Longrightarrow> parseElems d (printElems vs @ CHR '']'' # r) = Some (vs, r)"
  "ms \<noteq> [] \<Longrightarrow> \<forall>m \<in> set ms. ascii (fst m) \<and> printable d (snd m) \<Longrightarrow>
     parseMembers d (printMembers ms @ CHR ''}'' # r) = Some (ms, r)"
proof (induction v and vs and ms arbitrary: d r and d r and d r
    rule: printValue_printElems_printMembers.induct)
  case (3 n)
  then obtain c m where n: "n = c # m" "is_digit c" by (cases n) (auto simp: plainNumber_def)
  then have "c \<noteq> CHR ''{''" "c \<noteq> CHR ''[''" "c \<noteq> quote" "c \<noteq> CHR ''t''" "c \<noteq> CHR ''f''" "c \<noteq> CHR ''n''"
    by (auto simp: is_digit_def)
  with 3 n parseNumber_plain [of n r] show ?case by simp
next
  case (5 vs)
  then show ?case
    using skipWs_printElems [of vs]
    by (cases "vs = []") (auto simp: skipWs_sep split: nat.splits)
next
  case (6 ms)
  then show ?case
    using skipWs_printMembers [of ms]
    by (cases "ms = []") (auto simp: skipWs_sep split: nat.splits)
next
  case (8 v)
  then have "parseValue d (printValue v @ CHR '']'' # r) = Some (v, CHR '']'' # r)" by (simp add: stops_def)
  with 8 show ?case by (simp add: parseElem skipWs_sep)
next
  case (9 v w vs)
  then have "parseValue d (printValue v @ CHR '','' # x) = Some (v, CHR '','' # x)" for x by (simp add: stops_def)
  with 9 show ?case by (simp add: parseElem skipWs_sep)
next
  case (11 k v)
  then have "parseValue d (printValue v @ CHR ''}'' # r) = Some (v, CHR ''}'' # r)" by (simp add: stops_def)
  with 11 parseMember [of k d v "CHR ''}'' # r"] show ?case by (simp add: skipWs_sep)
next
  case (12 k v m ms)
  then have "parseValue d (printValue v @ CHR '','' # x) = Some (v, CHR '','' # x)" for x by (simp add: stops_def)
  with 12 parseMember [of k d v] show ?case by (simp add: skipWs_sep)
qed (auto simp: parseLiteral_def printString_def parseString_quoteBody)

lemmas parseValue_print = parseValue_print_aux(1)

section \<open>Decoding into Go values\<close>

definition maxNestingDepth :: nat where
  "maxNestingDepth = 10000"

text \<open>
  \<^verbatim>\<open>json.Unmarshal\<close> wants one value and nothing but space after it;
  \<^verbatim>\<open>json.Decoder.Decode\<close> reads the first value of a stream and ignores what follows it. A
  value that is no array and no object ends only at the next byte or at the end of the stream, so
  such a value is refused when reading on fails.
\<close>

definition json_Unmarshal :: "string \<Rightarrow> json option" where
  "json_Unmarshal s =
     (case parseValue maxNestingDepth (skipWs s) of
        Some (v, r) \<Rightarrow> if skipWs r = [] then Some v else None
      | None \<Rightarrow> None)"

definition json_Decode :: "string \<Rightarrow> bool \<Rightarrow> json option" where
  "json_Decode s readFails =
     (case parseValue maxNestingDepth (skipWs s) of
        Some (v, r) \<Rightarrow>
          (case v of JArr _ \<Rightarrow> Some v | JObj _ \<Rightarrow> Some v
           | _ \<Rightarrow> if r = [] \<and> readFails then None else Some v)
      | None \<Rightarrow> None)"

text \<open>
  A key belongs to a field if both are the same up to case. Two characters outside ASCII fold to
  ASCII letters, the long s and the Kelvin sign; all the others can be left as they are, because
  the names of the fields are ASCII.
\<close>

text \<open>An ASCII letter and its capital differ in one bit.\<close>

definition upperChar :: "char \<Rightarrow> char" where
  "upperChar c = (case c of Char b0 b1 b2 b3 b4 b5 b6 b7 \<Rightarrow> Char b0 b1 b2 b3 b4 False b6 b7)"

fun foldName :: "string \<Rightarrow> string" where
  "foldName [] = []"
| "foldName (c # s) =
     (if between 97 122 c then upperChar c # foldName s
      else (case s of [] \<Rightarrow> [c]
            | d # r \<Rightarrow>
                if code c = 197 \<and> code d = 191 then CHR ''S'' # foldName r
                else (case r of [] \<Rightarrow> c # foldName s
                      | e # q \<Rightarrow>
                          if code c = 226 \<and> code d = 132 \<and> code e = 170 then CHR ''K'' # foldName q
                          else c # foldName s)))"

declare foldName.simps [simp del]

definition fieldIs :: "string \<Rightarrow> string \<Rightarrow> bool" where
  "fieldIs name key \<longleftrightarrow> foldName key = foldName name"

text \<open>
  Decoding into a variable with an old value, which a JSON null leaves as it is; \<open>None\<close> is a
  value of the wrong type. An array is decoded over the elements of the old slice; what a
  shorter array of a repeated key leaves behind its end is not kept.
\<close>

definition decString :: "json \<Rightarrow> string \<Rightarrow> string option" where
  "decString v old = (case v of JStr s \<Rightarrow> Some s | JNull \<Rightarrow> Some old | _ \<Rightarrow> None)"

definition decUint32 :: "json \<Rightarrow> uint32 \<Rightarrow> uint32 option" where
  "decUint32 v old =
     (case v of JNum n \<Rightarrow> (case ParseUint 4294967295 n of Inr k \<Rightarrow> Some (word_of_nat k) | Inl _ \<Rightarrow> None)
      | JNull \<Rightarrow> Some old
      | _ \<Rightarrow> None)"

fun decElems :: "json list \<Rightarrow> string list \<Rightarrow> string list option" where
  "decElems [] old = Some []"
| "decElems (v # vs) old =
     (case decString v (case old of [] \<Rightarrow> [] | x # _ \<Rightarrow> x) of None \<Rightarrow> None
      | Some s \<Rightarrow> map_option ((#) s) (decElems vs (tl old)))"

definition decStrings :: "json \<Rightarrow> string list \<Rightarrow> string list option" where
  "decStrings v old = (case v of JArr vs \<Rightarrow> decElems vs old | JNull \<Rightarrow> Some [] | _ \<Rightarrow> None)"

fun decMembers :: "(string \<Rightarrow> json \<Rightarrow> 'r \<Rightarrow> 'r option) \<Rightarrow> (string \<times> json) list \<Rightarrow> 'r \<Rightarrow> 'r option" where
  "decMembers set1 [] r = Some r"
| "decMembers set1 ((k, v) # ms) r =
     (case set1 k v r of None \<Rightarrow> None | Some r' \<Rightarrow> decMembers set1 ms r')"

definition decObject :: "(string \<Rightarrow> json \<Rightarrow> 'r \<Rightarrow> 'r option) \<Rightarrow> json \<Rightarrow> 'r \<Rightarrow> 'r option" where
  "decObject set1 v old =
     (case v of JObj ms \<Rightarrow> decMembers set1 ms old | JNull \<Rightarrow> Some old | _ \<Rightarrow> None)"

lemma json_Unmarshal_print:
  assumes "printable maxNestingDepth v"
  shows "json_Unmarshal (printValue v) = Some v"
  using parseValue_print [OF assms, of "[]"] skipWs_printValue [OF assms, of "[]"]
  by (simp add: json_Unmarshal_def stops_def skipWs_def)

lemma json_Decode_print:
  assumes "printable maxNestingDepth v"
  shows "json_Decode (printValue v) False = Some v"
  using parseValue_print [OF assms, of "[]"] skipWs_printValue [OF assms, of "[]"]
  by (simp add: json_Decode_def stops_def split: json.splits)

lemma decElems_strings: "decElems (map JStr ss) old = Some ss"
  by (induction ss arbitrary: old) (simp_all add: decString_def)

lemma decUint32_show: "decUint32 (JNum (show_nat (unat n))) old = Some n"
  using unat_uint32_less [of n] by (simp add: decUint32_def ParseUint_show_nat)

lemma printable_mono: "printable d v \<Longrightarrow> d \<le> d' \<Longrightarrow> printable d' v"
proof (induction d v arbitrary: d' rule: printable.induct)
  case (5 d vs)
  from "5.prems" obtain e e' where e: "d = Suc e" "d' = Suc e'" "e \<le> e'" by (cases d; cases d') simp_all
  from "5.prems" "5.IH" [OF e(1) _ _ e(3)] show ?case by (auto simp: e)
next
  case (6 d ms)
  from "6.prems" obtain e e' where e: "d = Suc e" "d' = Suc e'" "e \<le> e'" by (cases d; cases d') simp_all
  from "6.prems" "6.IH" [OF e(1) _ _ e(3)] show ?case by (auto simp: e)
qed simp_all

lemma hd_show_nat: "0 < n \<Longrightarrow> hd (show_nat n) \<noteq> CHR ''0''"
proof (induction n rule: show_nat.induct)
  case (1 n)
  show ?case
  proof (cases "n < 10")
    case True
    then have "code (hd (show_nat n)) = 48 + n"
      by (subst show_nat.simps) (simp add: of_char_digit_char)
    with 1(2) show ?thesis by auto
  next
    case False
    with 1 show ?thesis by (subst show_nat.simps) (simp add: hd_append)
  qed
qed

lemma plainNumber_show: "plainNumber (show_nat n)"
proof (cases n)
  case 0
  have "char_of (48 :: nat) = CHR ''0''" by code_simp
  then have "show_nat 0 = ''0''" by (subst show_nat.simps) (simp add: digit_char_def)
  with 0 show ?thesis by (simp add: plainNumber_def is_digit_def)
next
  case (Suc m)
  with hd_show_nat [of n] show_nat_digits [of n] show ?thesis by (simp add: plainNumber_def list_all_iff)
qed

end
