(* ===== verification/SignerJson.thy ===== *)
theory SignerJson
  imports SignerTypes Json
begin

text \<open>
  The messages of the signing service as JSON, from the tags of the structs in
  \<^verbatim>\<open>signerservice/types\<close> and \<^verbatim>\<open>signerservice/handlers/handler.go\<close>. Printing lists the
  fields in the order of the struct and leaves out the empty ones marked so; decoding starts from a
  struct of zero values and sets one field per member of the object.

  The lemmas show that decoding inverts printing for messages with ASCII strings.
\<close>

section \<open>Requests\<close>

definition jsonStakeExpansion :: "StakeExpansionRequest \<Rightarrow> json" where
  "jsonStakeExpansion e = JObj [
     (''previous_active_stake_tx_hex'', JStr (SER_PreviousActiveStakeTxHex e)),
     (''other_funding_output_hex'', JStr (SER_OtherFundingOutputHex e)),
     (''previous_staking_output_idx'', JNum (show_nat (unat (SER_PrevStakingOutputIdx e)))),
     (''previous_active_stake_unbonding_script_hex'', JStr (SER_PreviousActiveStakeUnbondingScriptHex e))]"

definition jsonSignRequest :: "SignTransactionsRequest \<Rightarrow> json" where
  "jsonSignRequest r = JObj ([
     (''staking_tx_hex'', JStr (STR_StakingTxHex r)),
     (''slashing_tx_hex'', JStr (STR_SlashingTxHex r)),
     (''unbonding_tx_hex'', JStr (STR_UnbondingTxHex r)),
     (''slash_unbonding_tx_hex'', JStr (STR_SlashUnbondingTxHex r)),
     (''staking_output_idx'', JNum (show_nat (unat (STR_StakingOutputIdx r)))),
     (''slashing_script_hex'', JStr (STR_SlashingScriptHex r)),
     (''unbonding_script_hex'', JStr (STR_UnbondingScriptHex r)),
     (''unbonding_slashing_script_hex'', JStr (STR_UnbondingSlashingScriptHex r)),
     (''fp_enc_keys'', JArr (map JStr (STR_FpEncKeys r)))]
     @ (case STR_StakeExpansion r of None \<Rightarrow> []
        | Some e \<Rightarrow> [(''stake_expansion'', jsonStakeExpansion e)]))"

definition zeroStakeExpansion :: StakeExpansionRequest where
  "zeroStakeExpansion = \<lparr>SER_PreviousActiveStakeTxHex = [], SER_OtherFundingOutputHex = [],
     SER_PrevStakingOutputIdx = 0, SER_PreviousActiveStakeUnbondingScriptHex = []\<rparr>"

definition zeroSignRequest :: SignTransactionsRequest where
  "zeroSignRequest = \<lparr>STR_StakingTxHex = [], STR_SlashingTxHex = [], STR_UnbondingTxHex = [],
     STR_SlashUnbondingTxHex = [], STR_StakingOutputIdx = 0, STR_SlashingScriptHex = [],
     STR_UnbondingScriptHex = [], STR_UnbondingSlashingScriptHex = [], STR_FpEncKeys = [],
     STR_StakeExpansion = None\<rparr>"

definition setStakeExpansion ::
  "string \<Rightarrow> json \<Rightarrow> StakeExpansionRequest \<Rightarrow> StakeExpansionRequest option" where
  "setStakeExpansion k v e =
     (if fieldIs ''previous_active_stake_tx_hex'' k
      then map_option (\<lambda>x. e\<lparr>SER_PreviousActiveStakeTxHex := x\<rparr>) (decString v (SER_PreviousActiveStakeTxHex e))
      else if fieldIs ''other_funding_output_hex'' k
      then map_option (\<lambda>x. e\<lparr>SER_OtherFundingOutputHex := x\<rparr>) (decString v (SER_OtherFundingOutputHex e))
      else if fieldIs ''previous_staking_output_idx'' k
      then map_option (\<lambda>x. e\<lparr>SER_PrevStakingOutputIdx := x\<rparr>) (decUint32 v (SER_PrevStakingOutputIdx e))
      else if fieldIs ''previous_active_stake_unbonding_script_hex'' k
      then map_option (\<lambda>x. e\<lparr>SER_PreviousActiveStakeUnbondingScriptHex := x\<rparr>)
             (decString v (SER_PreviousActiveStakeUnbondingScriptHex e))
      else Some e)"

text \<open>A pointer is set to nil by a null, and otherwise allocated if it is nil.\<close>

definition decStakeExpansion ::
  "json \<Rightarrow> StakeExpansionRequest option \<Rightarrow> StakeExpansionRequest option option" where
  "decStakeExpansion v old =
     (if v = JNull then Some None
      else map_option Some
        (decObject setStakeExpansion v (case old of None \<Rightarrow> zeroStakeExpansion | Some e \<Rightarrow> e)))"

definition setSignRequest ::
  "string \<Rightarrow> json \<Rightarrow> SignTransactionsRequest \<Rightarrow> SignTransactionsRequest option" where
  "setSignRequest k v r =
     (if fieldIs ''staking_tx_hex'' k
      then map_option (\<lambda>x. r\<lparr>STR_StakingTxHex := x\<rparr>) (decString v (STR_StakingTxHex r))
      else if fieldIs ''slashing_tx_hex'' k
      then map_option (\<lambda>x. r\<lparr>STR_SlashingTxHex := x\<rparr>) (decString v (STR_SlashingTxHex r))
      else if fieldIs ''unbonding_tx_hex'' k
      then map_option (\<lambda>x. r\<lparr>STR_UnbondingTxHex := x\<rparr>) (decString v (STR_UnbondingTxHex r))
      else if fieldIs ''slash_unbonding_tx_hex'' k
      then map_option (\<lambda>x. r\<lparr>STR_SlashUnbondingTxHex := x\<rparr>) (decString v (STR_SlashUnbondingTxHex r))
      else if fieldIs ''staking_output_idx'' k
      then map_option (\<lambda>x. r\<lparr>STR_StakingOutputIdx := x\<rparr>) (decUint32 v (STR_StakingOutputIdx r))
      else if fieldIs ''slashing_script_hex'' k
      then map_option (\<lambda>x. r\<lparr>STR_SlashingScriptHex := x\<rparr>) (decString v (STR_SlashingScriptHex r))
      else if fieldIs ''unbonding_script_hex'' k
      then map_option (\<lambda>x. r\<lparr>STR_UnbondingScriptHex := x\<rparr>) (decString v (STR_UnbondingScriptHex r))
      else if fieldIs ''unbonding_slashing_script_hex'' k
      then map_option (\<lambda>x. r\<lparr>STR_UnbondingSlashingScriptHex := x\<rparr>)
             (decString v (STR_UnbondingSlashingScriptHex r))
      else if fieldIs ''fp_enc_keys'' k
      then map_option (\<lambda>x. r\<lparr>STR_FpEncKeys := x\<rparr>) (decStrings v (STR_FpEncKeys r))
      else if fieldIs ''stake_expansion'' k
      then map_option (\<lambda>x. r\<lparr>STR_StakeExpansion := x\<rparr>) (decStakeExpansion v (STR_StakeExpansion r))
      else Some r)"

definition decSignRequest :: "json \<Rightarrow> SignTransactionsRequest option" where
  "decSignRequest v = decObject setSignRequest v zeroSignRequest"

text \<open>The unlock request has one field, which is left out when it is empty.\<close>

record UnlockRequest =
  Passphrase :: string

definition jsonUnlockRequest :: "UnlockRequest \<Rightarrow> json" where
  "jsonUnlockRequest r =
     JObj (if Passphrase r = [] then [] else [(''passphrase'', JStr (Passphrase r))])"

definition decUnlockRequest :: "json \<Rightarrow> UnlockRequest option" where
  "decUnlockRequest v =
     decObject (\<lambda>k v r. if fieldIs ''passphrase'' k
                        then map_option (\<lambda>x. r\<lparr>Passphrase := x\<rparr>) (decString v (Passphrase r))
                        else Some r) v \<lparr>Passphrase = []\<rparr>"

section \<open>Responses\<close>

text \<open>Every answer is wrapped in an object with the field \<^verbatim>\<open>data\<close>.\<close>

definition jsonPublic :: "json \<Rightarrow> json" where
  "jsonPublic v = JObj [(''data'', v)]"

definition decPublic :: "(string \<Rightarrow> json \<Rightarrow> 'r \<Rightarrow> 'r option) \<Rightarrow> json \<Rightarrow> 'r \<Rightarrow> 'r option" where
  "decPublic set1 v zero =
     decObject (\<lambda>k v r. if fieldIs ''data'' k then decObject set1 v r else Some r) v zero"

definition jsonSignResponse :: "SignTransactionsResponse \<Rightarrow> json" where
  "jsonSignResponse r = JObj [
     (''slashing_transactions_signatures'', JArr (map JStr (SlashingTransactionsAdaptorSignatures r))),
     (''unbonding_transaction_signature'', JStr (UnbondingTransactionSignature r)),
     (''slash_unbonding_transactions_signatures'',
        JArr (map JStr (SlashUnbondingTransactionsAdaptorSignatures r))),
     (''stake_expansion_transaction_signature'', JStr (StakeExpansionTransactionSignature r))]"

definition zeroSignResponse :: SignTransactionsResponse where
  "zeroSignResponse = \<lparr>SlashingTransactionsAdaptorSignatures = [], UnbondingTransactionSignature = [],
     SlashUnbondingTransactionsAdaptorSignatures = [], StakeExpansionTransactionSignature = []\<rparr>"

definition setSignResponse ::
  "string \<Rightarrow> json \<Rightarrow> SignTransactionsResponse \<Rightarrow> SignTransactionsResponse option" where
  "setSignResponse k v r =
     (if fieldIs ''slashing_transactions_signatures'' k
      then map_option (\<lambda>x. r\<lparr>SlashingTransactionsAdaptorSignatures := x\<rparr>)
             (decStrings v (SlashingTransactionsAdaptorSignatures r))
      else if fieldIs ''unbonding_transaction_signature'' k
      then map_option (\<lambda>x. r\<lparr>UnbondingTransactionSignature := x\<rparr>)
             (decString v (UnbondingTransactionSignature r))
      else if fieldIs ''slash_unbonding_transactions_signatures'' k
      then map_option (\<lambda>x. r\<lparr>SlashUnbondingTransactionsAdaptorSignatures := x\<rparr>)
             (decStrings v (SlashUnbondingTransactionsAdaptorSignatures r))
      else if fieldIs ''stake_expansion_transaction_signature'' k
      then map_option (\<lambda>x. r\<lparr>StakeExpansionTransactionSignature := x\<rparr>)
             (decString v (StakeExpansionTransactionSignature r))
      else Some r)"

record GetPublicKeyResponse =
  GPK_PublicKey :: string

definition jsonPublicKey :: "GetPublicKeyResponse \<Rightarrow> json" where
  "jsonPublicKey r = JObj [(''public_key_hex'', JStr (GPK_PublicKey r))]"

definition setPublicKey :: "string \<Rightarrow> json \<Rightarrow> GetPublicKeyResponse \<Rightarrow> GetPublicKeyResponse option" where
  "setPublicKey k v r =
     (if fieldIs ''public_key_hex'' k
      then map_option (\<lambda>x. r\<lparr>GPK_PublicKey := x\<rparr>) (decString v (GPK_PublicKey r)) else Some r)"

text \<open>\<^verbatim>\<open>UnlockResponse\<close> and \<^verbatim>\<open>LockResponse\<close> have no fields.\<close>

definition jsonEmpty :: json where
  "jsonEmpty = JObj []"

section \<open>Lemmas\<close>

lemma decString_JStr [simp]: "decString (JStr s) old = Some s"
  by (simp add: decString_def)

lemma decStrings_JArr [simp]: "decStrings (JArr (map JStr ss)) old = Some ss"
  by (simp add: decStrings_def decElems_strings)

text \<open>Folding is evaluated once for every name.\<close>

lemma foldName_names:
  "foldName ''staking_tx_hex'' = ''STAKING_TX_HEX''"
  "foldName ''slashing_tx_hex'' = ''SLASHING_TX_HEX''"
  "foldName ''unbonding_tx_hex'' = ''UNBONDING_TX_HEX''"
  "foldName ''slash_unbonding_tx_hex'' = ''SLASH_UNBONDING_TX_HEX''"
  "foldName ''staking_output_idx'' = ''STAKING_OUTPUT_IDX''"
  "foldName ''slashing_script_hex'' = ''SLASHING_SCRIPT_HEX''"
  "foldName ''unbonding_script_hex'' = ''UNBONDING_SCRIPT_HEX''"
  "foldName ''unbonding_slashing_script_hex'' = ''UNBONDING_SLASHING_SCRIPT_HEX''"
  "foldName ''fp_enc_keys'' = ''FP_ENC_KEYS''"
  "foldName ''stake_expansion'' = ''STAKE_EXPANSION''"
  "foldName ''previous_active_stake_tx_hex'' = ''PREVIOUS_ACTIVE_STAKE_TX_HEX''"
  "foldName ''other_funding_output_hex'' = ''OTHER_FUNDING_OUTPUT_HEX''"
  "foldName ''previous_staking_output_idx'' = ''PREVIOUS_STAKING_OUTPUT_IDX''"
  "foldName ''previous_active_stake_unbonding_script_hex'' = ''PREVIOUS_ACTIVE_STAKE_UNBONDING_SCRIPT_HEX''"
  "foldName ''passphrase'' = ''PASSPHRASE''"
  "foldName ''data'' = ''DATA''"
  "foldName ''slashing_transactions_signatures'' = ''SLASHING_TRANSACTIONS_SIGNATURES''"
  "foldName ''unbonding_transaction_signature'' = ''UNBONDING_TRANSACTION_SIGNATURE''"
  "foldName ''slash_unbonding_transactions_signatures'' = ''SLASH_UNBONDING_TRANSACTIONS_SIGNATURES''"
  "foldName ''stake_expansion_transaction_signature'' = ''STAKE_EXPANSION_TRANSACTION_SIGNATURE''"
  "foldName ''public_key_hex'' = ''PUBLIC_KEY_HEX''"
  by (simp_all add: foldName.simps between_def upperChar_def)

lemmas json_fields = fieldIs_def foldName_names decObject_def

lemma decStakeExpansion_json: "decStakeExpansion (jsonStakeExpansion e) old = Some (Some e)"
  by (simp add: decStakeExpansion_def jsonStakeExpansion_def setStakeExpansion_def decUint32_show json_fields)

lemma decSignRequest_json: "decSignRequest (jsonSignRequest r) = Some r"
  by (cases "STR_StakeExpansion r")
     (simp_all add: decSignRequest_def jsonSignRequest_def setSignRequest_def decUint32_show json_fields
       decStakeExpansion_json zeroSignRequest_def)

lemma decUnlockRequest_json: "decUnlockRequest (jsonUnlockRequest r) = Some r"
  by (simp add: decUnlockRequest_def jsonUnlockRequest_def json_fields)

lemma decSignResponse_json:
  "decPublic setSignResponse (jsonPublic (jsonSignResponse r)) zeroSignResponse = Some r"
  by (simp add: decPublic_def jsonPublic_def jsonSignResponse_def setSignResponse_def zeroSignResponse_def json_fields)

lemma decPublicKey_json: "decPublic setPublicKey (jsonPublic (jsonPublicKey r)) \<lparr>GPK_PublicKey = []\<rparr> = Some r"
  by (simp add: decPublic_def jsonPublic_def jsonPublicKey_def setPublicKey_def json_fields)

section \<open>Messages that can be printed\<close>

definition asciiRequest :: "SignTransactionsRequest \<Rightarrow> bool" where
  "asciiRequest r \<longleftrightarrow> list_all ascii ([STR_StakingTxHex r, STR_SlashingTxHex r, STR_UnbondingTxHex r,
     STR_SlashUnbondingTxHex r, STR_SlashingScriptHex r, STR_UnbondingScriptHex r,
     STR_UnbondingSlashingScriptHex r] @ STR_FpEncKeys r
     @ (case STR_StakeExpansion r of None \<Rightarrow> []
        | Some e \<Rightarrow> [SER_PreviousActiveStakeTxHex e, SER_OtherFundingOutputHex e,
                     SER_PreviousActiveStakeUnbondingScriptHex e]))"

definition asciiResponse :: "SignTransactionsResponse \<Rightarrow> bool" where
  "asciiResponse r \<longleftrightarrow> list_all ascii (SlashingTransactionsAdaptorSignatures r
     @ [UnbondingTransactionSignature r] @ SlashUnbondingTransactionsAdaptorSignatures r
     @ [StakeExpansionTransactionSignature r])"

lemma ascii_Nil [simp]: "ascii []"
  by (simp add: ascii_def)

lemma ascii_names:
  "ascii ''staking_tx_hex''"
  "ascii ''slashing_tx_hex''"
  "ascii ''unbonding_tx_hex''"
  "ascii ''slash_unbonding_tx_hex''"
  "ascii ''staking_output_idx''"
  "ascii ''slashing_script_hex''"
  "ascii ''unbonding_script_hex''"
  "ascii ''unbonding_slashing_script_hex''"
  "ascii ''fp_enc_keys''"
  "ascii ''stake_expansion''"
  "ascii ''previous_active_stake_tx_hex''"
  "ascii ''other_funding_output_hex''"
  "ascii ''previous_staking_output_idx''"
  "ascii ''previous_active_stake_unbonding_script_hex''"
  "ascii ''passphrase''"
  "ascii ''data''"
  "ascii ''slashing_transactions_signatures''"
  "ascii ''unbonding_transaction_signature''"
  "ascii ''slash_unbonding_transactions_signatures''"
  "ascii ''stake_expansion_transaction_signature''"
  "ascii ''public_key_hex''"
  by (simp_all add: ascii_def)

lemma printable_depth: "printable 3 v \<Longrightarrow> printable maxNestingDepth v"
  by (erule printable_mono) (simp add: maxNestingDepth_def)

lemma printable_request: "asciiRequest r \<Longrightarrow> printable maxNestingDepth (jsonSignRequest r)"
  by (rule printable_depth, cases "STR_StakeExpansion r")
     (auto simp: jsonSignRequest_def jsonStakeExpansion_def asciiRequest_def ascii_names plainNumber_show
       numeral_3_eq_3 list_all_iff)

lemma printable_response: "asciiResponse r \<Longrightarrow> printable maxNestingDepth (jsonPublic (jsonSignResponse r))"
  by (rule printable_depth)
     (auto simp: jsonPublic_def jsonSignResponse_def asciiResponse_def ascii_names numeral_3_eq_3 list_all_iff)

lemma ascii_hex: "ascii (EncodeToString bs)"
proof -
  have "list_all (\<lambda>c. code c < 128) hextable" by (simp add: hextable_def)
  then have "n < 16 \<Longrightarrow> code (hextable ! n) < 128" for n
    by (simp add: list_all_length hextable_def)
  moreover have "unat b div 16 < 16" for b :: byte by (rule unat_byte_div_16)
  ultimately show ?thesis
    by (induction bs) (simp_all add: ascii_def hex_byte_def)
qed

end
