(* ===== verification/Sha256.thy ===== *)
theory Sha256
  imports GoStd
begin

text \<open>
  \<^verbatim>\<open>crypto/sha256\<close> and \<^verbatim>\<open>crypto/hmac\<close> of Go's standard library, as far as the
  authentication of requests uses them: the digest of a byte sequence and the keyed digest.
  Additions are on 32-bit words and wrap; the length of the message is counted modulo 2 to the 64,
  as in the source of the package. The lemmas give the length of the digests.
\<close>

unbundle bit_operations_syntax

section \<open>The compression function\<close>

type_synonym shastate = "uint32 \<times> uint32 \<times> uint32 \<times> uint32 \<times> uint32 \<times> uint32 \<times> uint32 \<times> uint32"

definition shaInit :: "uint32 list" where
  "shaInit = [
     1779033703, 3144134277, 1013904242, 2773480762, 1359893119, 2600822924, 528734635,
     1541459225]"

definition shaK :: "uint32 list" where
  "shaK = [
     1116352408, 1899447441, 3049323471, 3921009573, 961987163, 1508970993, 2453635748,
     2870763221, 3624381080, 310598401, 607225278, 1426881987, 1925078388, 2162078206,
     2614888103, 3248222580, 3835390401, 4022224774, 264347078, 604807628, 770255983,
     1249150122, 1555081692, 1996064986, 2554220882, 2821834349, 2952996808, 3210313671,
     3336571891, 3584528711, 113926993, 338241895, 666307205, 773529912, 1294757372,
     1396182291, 1695183700, 1986661051, 2177026350, 2456956037, 2730485921, 2820302411,
     3259730800, 3345764771, 3516065817, 3600352804, 4094571909, 275423344, 430227734,
     506948616, 659060556, 883997877, 958139571, 1322822218, 1537002063, 1747873779,
     1955562222, 2024104815, 2227730452, 2361852424, 2428436474, 2756734187, 3204031479,
     3329325298]"

definition rotr :: "nat \<Rightarrow> uint32 \<Rightarrow> uint32" where
  "rotr n w = drop_bit n w OR push_bit (32 - n) w"

definition sigma :: "nat \<Rightarrow> nat \<Rightarrow> nat \<Rightarrow> uint32 \<Rightarrow> uint32" where
  "sigma i j k w = rotr i w XOR rotr j w XOR drop_bit k w"

definition bigSigma :: "nat \<Rightarrow> nat \<Rightarrow> nat \<Rightarrow> uint32 \<Rightarrow> uint32" where
  "bigSigma i j k w = rotr i w XOR rotr j w XOR rotr k w"

text \<open>The message schedule is extended one word at a time.\<close>

fun schedule :: "nat \<Rightarrow> uint32 list \<Rightarrow> uint32 list" where
  "schedule 0 ws = ws"
| "schedule (Suc n) ws =
     (let i = length ws
      in schedule n (ws @ [sigma 17 19 10 (ws ! (i - 2)) + ws ! (i - 7)
                           + sigma 7 18 3 (ws ! (i - 15)) + ws ! (i - 16)]))"

fun shaRound :: "uint32 \<times> uint32 \<Rightarrow> shastate \<Rightarrow> shastate" where
  "shaRound (k, w) (a, b, c, d, e, f, g, h) =
     (let t1 = h + bigSigma 6 11 25 e + ((e AND f) XOR (NOT e AND g)) + k + w;
          t2 = bigSigma 2 13 22 a + ((a AND b) XOR (a AND c) XOR (b AND c))
      in (t1 + t2, a, b, c, d + t1, e, f, g))"

fun be32 :: "bytes \<Rightarrow> uint32 list" where
  "be32 (a # b # c # d # r) =
     (push_bit 24 (ucast a) OR push_bit 16 (ucast b) OR push_bit 8 (ucast c) OR ucast d) # be32 r"
| "be32 _ = []"

definition shaBlock :: "bytes \<Rightarrow> shastate \<Rightarrow> shastate" where
  "shaBlock block st =
     (case st of (a, b, c, d, e, f, g, h) \<Rightarrow>
        (case fold shaRound (zip shaK (schedule 48 (be32 block))) st of (a', b', c', d', e', f', g', h') \<Rightarrow>
           (a + a', b + b', c + c', d + d', e + e', f + f', g + g', h + h')))"

section \<open>Padding and digest\<close>

definition put32 :: "uint32 \<Rightarrow> bytes" where
  "put32 w = [ucast (drop_bit 24 w), ucast (drop_bit 16 w), ucast (drop_bit 8 w), ucast w]"

definition put64 :: "uint64 \<Rightarrow> bytes" where
  "put64 w = put32 (ucast (drop_bit 32 w)) @ put32 (ucast w)"

definition shaPad :: "bytes \<Rightarrow> bytes" where
  "shaPad m = m @ [128] @ replicate ((119 - length m mod 64) mod 64) 0
                @ put64 (push_bit 3 (word_of_nat (length m)))"

function blocks64 :: "bytes \<Rightarrow> bytes list" where
  "blocks64 bs = (if bs = [] then [] else take 64 bs # blocks64 (drop 64 bs))"
  by auto
termination
  by (relation "measure length") auto

declare blocks64.simps [simp del]

definition sha256 :: "bytes \<Rightarrow> bytes" where
  "sha256 m =
     (case shaInit of [a, b, c, d, e, f, g, h] \<Rightarrow>
        (case fold shaBlock (blocks64 (shaPad m)) (a, b, c, d, e, f, g, h) of
           (a, b, c, d, e, f, g, h) \<Rightarrow> concat (map put32 [a, b, c, d, e, f, g, h])))"

section \<open>Keyed digest\<close>

definition hmacKeyBlock :: "bytes \<Rightarrow> bytes" where
  "hmacKeyBlock key =
     (let k = (if length key > 64 then sha256 key else key) in k @ replicate (64 - length k) 0)"

definition hmac_sha256 :: "bytes \<Rightarrow> bytes \<Rightarrow> bytes" where
  "hmac_sha256 key m =
     (let k = hmacKeyBlock key
      in sha256 (map (\<lambda>b. b XOR 92) k @ sha256 (map (\<lambda>b. b XOR 54) k @ m)))"

section \<open>Lengths\<close>

lemma length_sha256 [simp]: "length (sha256 m) = 32"
  by (simp add: sha256_def shaInit_def put32_def split: prod.split)

lemma length_hmac [simp]: "length (hmac_sha256 key m) = 32"
  by (simp add: hmac_sha256_def Let_def)

lemma length_hmacKeyBlock [simp]: "length (hmacKeyBlock key) = 64"
  by (simp add: hmacKeyBlock_def Let_def)

text \<open>The padded message is a whole number of blocks.\<close>

lemma length_shaPad: "64 dvd length (shaPad m)"
proof -
  define q r where "q = length m div 64" and "r = length m mod 64"
  then have m: "length m = 64 * q + r" and r: "r < 64" by simp_all
  have "length (shaPad m) = length m + 9 + (119 - r) mod 64"
    by (simp add: shaPad_def put64_def put32_def r_def)
  also have "\<dots> = (if r \<le> 55 then 64 * (q + 1) else 64 * (q + 2))"
  proof (cases "r \<le> 55")
    case True
    then have eq: "119 - r = 64 + (55 - r)" by simp
    have "(119 - r) mod 64 = 55 - r" unfolding eq by simp
    with True m show ?thesis by simp
  next
    case False
    with r have "(119 - r) mod 64 = 119 - r" by simp
    with False r m show ?thesis by simp
  qed
  finally show ?thesis by (simp split: if_splits)
qed

end
