(* ===== verification/SignerConfig.thy ===== *)
theory SignerConfig
  imports CovConfig NetIP
begin

text \<open>
  The configuration of the signing service (\<^verbatim>\<open>covenant-signer/config\<close>): the structs, their
  defaults, the validation, and the text of the configuration file that the template renders. Reading
  and writing the file is in \<open>SignerCmd\<close>.

  The lemmas describe what validation accepts, and that the conversion of the timeouts from seconds
  to nanoseconds does not overflow.
\<close>

section \<open>Key store\<close>

text \<open>\<^verbatim>\<open>KeyStoreType\<close> is an integer type with one named constant.\<close>

type_synonym KeyStoreType = int

definition CosmosKeyStoreTag :: KeyStoreType where
  "CosmosKeyStoreTag = 0"

definition KeyStoreToString :: "KeyStoreType \<Rightarrow> string result" where
  "KeyStoreToString c = (if c = CosmosKeyStoreTag then Ok ''cosmos'' else Err ''unknown key store type'')"

definition KeyStoreFromString :: "string \<Rightarrow> KeyStoreType result" where
  "KeyStoreFromString s = (if s = ''cosmos'' then Ok CosmosKeyStoreTag else Err ''unknown key store type'')"

record CosmosKeyStoreConfig =
  CKS_ChainID :: string
  CKS_KeyDirectory :: string
  CKS_KeyringBackend :: string
  CKS_KeyName :: string

record KeyStoreConfig =
  KS_KeyStoreType :: string
  KS_CosmosKeyStore :: "CosmosKeyStoreConfig option"

record ParsedKeyStoreConfig =
  PKS_KeyStoreType :: KeyStoreType
  PKS_CosmosKeyStore :: "CosmosKeyStoreConfig option"

definition DefaultKeyStoreConfig :: "KeyStoreConfig result" where
  "DefaultKeyStoreConfig =
     (case KeyStoreToString CosmosKeyStoreTag of
        Ok t \<Rightarrow> Ok \<lparr>KS_KeyStoreType = t,
                   KS_CosmosKeyStore = Some \<lparr>CKS_ChainID = [], CKS_KeyDirectory = [],
                     CKS_KeyringBackend = [], CKS_KeyName = []\<rparr>\<rparr>
      | Err e \<Rightarrow> Panic e
      | Panic p \<Rightarrow> Panic p)"

definition ParseKeyStore :: "KeyStoreConfig \<Rightarrow> ParsedKeyStoreConfig result" where
  "ParseKeyStore cfg =
     bindR (KeyStoreFromString (KS_KeyStoreType cfg)) (\<lambda>keyStoreType.
     Ok \<lparr>PKS_KeyStoreType = keyStoreType, PKS_CosmosKeyStore = KS_CosmosKeyStore cfg\<rparr>)"

section \<open>Server\<close>

record ServerConfig =
  SC_Host :: string
  SC_Port :: int
  SC_WriteTimeout :: uint32
  SC_ReadTimeout :: uint32
  SC_IdleTimeout :: uint32
  SC_MaxContentLength :: uint32
  SC_HMACKey :: string

record ParsedServerConfig =
  PSC_Host :: string
  PSC_Port :: int
  PSC_WriteTimeout :: int64
  PSC_ReadTimeout :: int64
  PSC_IdleTimeout :: int64
  PSC_MaxContentLength :: uint32
  PSC_HMACKey :: string

text \<open>\<^verbatim>\<open>time.Duration(seconds) * time.Second\<close> on 64 bits.\<close>

definition secondsDuration :: "uint32 \<Rightarrow> int64" where
  "secondsDuration n = ucast n * 1000000000"

definition ParseServer :: "ServerConfig \<Rightarrow> ParsedServerConfig result" where
  "ParseServer c = Ok \<lparr>PSC_Host = SC_Host c, PSC_Port = SC_Port c,
     PSC_WriteTimeout = secondsDuration (SC_WriteTimeout c),
     PSC_ReadTimeout = secondsDuration (SC_ReadTimeout c),
     PSC_IdleTimeout = secondsDuration (SC_IdleTimeout c),
     PSC_MaxContentLength = SC_MaxContentLength c, PSC_HMACKey = SC_HMACKey c\<rparr>"

definition DefaultServerConfig :: ServerConfig where
  "DefaultServerConfig = \<lparr>SC_Host = ''127.0.0.1'', SC_Port = 9791, SC_WriteTimeout = 15,
     SC_ReadTimeout = 15, SC_IdleTimeout = 120, SC_MaxContentLength = 10 * 1024 * 1024, SC_HMACKey = []\<rparr>"

section \<open>Metrics\<close>

record SignerMetricsConfig =
  SM_Host :: string
  SM_Port :: int

definition ParseMetrics :: "SignerMetricsConfig \<Rightarrow> SignerMetricsConfig result" where
  "ParseMetrics cfg =
     (if SM_Port cfg < 1024 \<or> SM_Port cfg > 65535
      then Err ''metrics server port must be between 1024 and 65535 (inclusive)''
      else if \<not> ParseIP (SM_Host cfg) then Err (''invalid metrics server host: '' @ SM_Host cfg)
      else Ok \<lparr>SM_Host = SM_Host cfg, SM_Port = SM_Port cfg\<rparr>)"

definition GetMetricsPort :: "SignerMetricsConfig \<Rightarrow> int" where
  "GetMetricsPort cfg = SM_Port cfg"

definition DefaultSignerMetricsConfig :: SignerMetricsConfig where
  "DefaultSignerMetricsConfig = \<lparr>SM_Host = ''127.0.0.1'', SM_Port = 2112\<rparr>"

section \<open>The whole configuration\<close>

record SignerConfig =
  SCfg_KeyStore :: KeyStoreConfig
  SCfg_Server :: ServerConfig
  SCfg_Metrics :: SignerMetricsConfig

record ParsedConfig =
  PC_KeyStoreConfig :: ParsedKeyStoreConfig
  PC_ServerConfig :: ParsedServerConfig
  PC_MetricsConfig :: SignerMetricsConfig

definition DefaultSignerConfig :: "SignerConfig result" where
  "DefaultSignerConfig =
     bindR DefaultKeyStoreConfig (\<lambda>ks.
     Ok \<lparr>SCfg_KeyStore = ks, SCfg_Server = DefaultServerConfig, SCfg_Metrics = DefaultSignerMetricsConfig\<rparr>)"

definition ParseSignerConfig :: "SignerConfig \<Rightarrow> ParsedConfig result" where
  "ParseSignerConfig cfg =
     bindR (ParseKeyStore (SCfg_KeyStore cfg)) (\<lambda>keyStoreConfig.
     bindR (ParseServer (SCfg_Server cfg)) (\<lambda>serverConfig.
     bindR (ParseMetrics (SCfg_Metrics cfg)) (\<lambda>metricsConfig.
     Ok \<lparr>PC_KeyStoreConfig = keyStoreConfig, PC_ServerConfig = serverConfig,
         PC_MetricsConfig = metricsConfig\<rparr>)))"

section \<open>The configuration file\<close>

text \<open>
  The template, rendered. A field of a nil key store is an error of the template, on which
  \<^verbatim>\<open>writeConfigToFile\<close> panics (the position in the template that its text starts with is left
  out). Values are inserted as they are.
\<close>

definition lines_of :: "string list \<Rightarrow> string" where
  "lines_of ls = concat (map (\<lambda>l. l @ [CHR 0x0A]) ls)"

definition quoted :: "string \<Rightarrow> string" where
  "quoted s = [CHR 0x22] @ s @ [CHR 0x22]"

definition renderConfig :: "SignerConfig \<Rightarrow> string result" where
  "renderConfig cfg =
     (case KS_CosmosKeyStore (SCfg_KeyStore cfg) of
        None \<Rightarrow> Panic ''nil pointer evaluating *config.CosmosKeyStoreConfig.ChainID''
      | Some ks \<Rightarrow> Ok (lines_of [
          ''# This is a TOML config file.'',
          ''# For more information, see https://github.com/toml-lang/toml'',
          '''',
          ''[keystore]'',
          ''# The type of the key store'',
          ''keystore-type = '' @ quoted (KS_KeyStoreType (SCfg_KeyStore cfg)),
          '''',
          ''[keystore.cosmos]'',
          ''# The chain id of the chain to connect to'',
          ''chain-id = '' @ quoted (CKS_ChainID ks),
          ''# The directory to store the keys in'',
          ''key-directory = '' @ quoted (CKS_KeyDirectory ks),
          ''# The keyring backend to use'',
          ''keyring-backend = '' @ quoted (CKS_KeyringBackend ks),
          ''# The name of the key to use'',
          ''key-name = '' @ quoted (CKS_KeyName ks),
          '''',
          ''[server-config]'',
          ''# The address to listen on'',
          ''host = '' @ quoted (SC_Host (SCfg_Server cfg)),
          '''',
          ''# The port to listen on'',
          ''port = '' @ show_int (SC_Port (SCfg_Server cfg)),
          '''',
          ''# Read timeout in seconds'',
          ''read-timeout = '' @ show_nat (unat (SC_ReadTimeout (SCfg_Server cfg))),
          '''',
          ''# Write timeout in seconds'',
          ''write-timeout = '' @ show_nat (unat (SC_WriteTimeout (SCfg_Server cfg))),
          '''',
          ''# Idle timeout in seconds'',
          ''idle-timeout = '' @ show_nat (unat (SC_IdleTimeout (SCfg_Server cfg))),
          '''',
          ''# Max content length in bytes'',
          ''max-content-length = '' @ show_nat (unat (SC_MaxContentLength (SCfg_Server cfg))),
          '''',
          ''# HMAC key for request authentication'',
          ''# This can be a direct key or a reference to a cloud secret manager'',
          ''# Leave empty to disable HMAC authentication'',
          ''hmac-key = '' @ quoted (SC_HMACKey (SCfg_Server cfg)),
          '''',
          ''[metrics]'',
          ''# The prometheus server host'',
          ''host = '' @ quoted (SM_Host (SCfg_Metrics cfg)),
          ''# The prometheus server port'',
          ''port = '' @ show_int (SM_Port (SCfg_Metrics cfg))]))"

section \<open>Lemmas\<close>

lemma secondsDuration_exact: "uint (secondsDuration n) = uint n * 1000000000 \<and> sint (secondsDuration n) = uint n * 1000000000"
proof -
  have n: "uint n < 2 ^ 32" using uint_lt2p [of n] by simp
  have "uint (ucast n :: int64) = uint n" using n by (simp add: unsigned_ucast_eq take_bit_eq_mod)
  then have "uint (secondsDuration n) = (uint n * 1000000000) mod 2 ^ 64"
    by (simp add: secondsDuration_def uint_word_ariths)
  then have u: "uint (secondsDuration n) = uint n * 1000000000"
    using n by (simp add: mod_pos_pos_trivial)
  then have "uint (secondsDuration n) \<le> 2 ^ 63 - 1" using n by simp
  then have "sint (secondsDuration n) = uint (secondsDuration n)"
    by (rule sint_of_small_uint64)
  with u show ?thesis by simp
qed

lemma ParseSignerConfig_Ok_iff:
  "(\<exists>p. ParseSignerConfig cfg = Ok p) \<longleftrightarrow>
     KS_KeyStoreType (SCfg_KeyStore cfg) = ''cosmos''
     \<and> 1024 \<le> SM_Port (SCfg_Metrics cfg) \<and> SM_Port (SCfg_Metrics cfg) \<le> 65535
     \<and> ParseIP (SM_Host (SCfg_Metrics cfg))"
  by (auto simp: ParseSignerConfig_def ParseKeyStore_def KeyStoreFromString_def ParseServer_def
      ParseMetrics_def act_simps)

end
