(* ===== verification/HttpService.thy ===== *)
theory HttpService
  imports SignerJson Sha256 SignerConfig
begin

text \<open>
  The HTTP service of the signer: errors and results (\<^verbatim>\<open>signerservice/types/error.go\<close>,
  \<^verbatim>\<open>handlers/handler.go\<close>), the four handlers (\<^verbatim>\<open>handlers/signtransactions.go\<close>) with the
  metrics they keep (\<^verbatim>\<open>observability/metrics/signer.go\<close>), the writing of responses
  (\<^verbatim>\<open>http_response.go\<close>), the middlewares for content length and HMAC authentication, and the
  server that puts them together (\<^verbatim>\<open>server.go\<close>).

  The body of a request is the bytes that can be read and the error that ends the reading, if it
  does not end at the end of the body. The router (package chi) is a parameter. A panic of a handler
  ends the request without a response; the state reached so far stays.
\<close>

section \<open>Requests, responses and errors\<close>

record HttpRequest =
  Method :: string
  URLPath :: string
  HMACHeader :: string
  ContentLength :: int
  BodyData :: string
  BodyError :: "error option"

record HttpResponse =
  StatusCode :: int
  ContentType :: string
  RespBody :: string

definition StatusOK :: int where "StatusOK = 200"
definition StatusBadRequest :: int where "StatusBadRequest = 400"
definition StatusUnauthorized :: int where "StatusUnauthorized = 401"
definition StatusRequestEntityTooLarge :: int where "StatusRequestEntityTooLarge = 413"
definition StatusInternalServerError :: int where "StatusInternalServerError = 500"

lemmas status_defs = StatusOK_def StatusBadRequest_def StatusUnauthorized_def
  StatusRequestEntityTooLarge_def StatusInternalServerError_def

text \<open>The codes for which \<^verbatim>\<open>http.StatusText\<close> is not empty.\<close>

definition statusKnown :: "int \<Rightarrow> bool" where
  "statusKnown c \<longleftrightarrow> c \<in> {100..103} \<union> {200..208} \<union> {226} \<union> {300..305} \<union> {307, 308} \<union> {400..418}
     \<union> {421..426} \<union> {428, 429, 431, 451} \<union> {500..508} \<union> {510, 511}"

text \<open>\<^verbatim>\<open>http.Error\<close>\<close>

definition http_Error :: "string \<Rightarrow> int \<Rightarrow> HttpResponse" where
  "http_Error msg c = \<lparr>StatusCode = c, ContentType = ''text/plain; charset=utf-8'', RespBody = msg @ [CHR 0x0A]\<rparr>"

text \<open>The error with which \<^verbatim>\<open>ListenAndServe\<close> comes back from a server that was shut down\<close>

definition ErrServerClosed :: error where
  "ErrServerClosed = ''http: Server closed''"

definition InternalServiceError :: string where "InternalServiceError = ''INTERNAL_SERVICE_ERROR''"
definition BadRequest :: string where "BadRequest = ''BAD_REQUEST''"
definition Unauthorized :: string where "Unauthorized = ''UNAUTHORIZED''"

record AppError =
  AE_Err :: error
  AE_StatusCode :: int
  AE_ErrorCode :: string

definition UninitializedStatusCode :: int where
  "UninitializedStatusCode = 0"

definition NewError :: "int \<Rightarrow> string \<Rightarrow> error \<Rightarrow> AppError" where
  "NewError statusCode errorCode err =
     (let sc = (if statusCode = UninitializedStatusCode then StatusInternalServerError else statusCode);
          ec = (if errorCode = [] then InternalServiceError else errorCode)
      in \<lparr>AE_Err = err, AE_StatusCode = sc, AE_ErrorCode = ec\<rparr>)"

definition NewErrorWithMsg :: "int \<Rightarrow> string \<Rightarrow> string \<Rightarrow> AppError" where
  "NewErrorWithMsg statusCode errorCode msg = NewError statusCode errorCode msg"

definition NewUnauthorizedError :: "string \<Rightarrow> AppError" where
  "NewUnauthorizedError msg = NewErrorWithMsg StatusUnauthorized Unauthorized msg"

definition NewInternalServiceError :: "error \<Rightarrow> AppError" where
  "NewInternalServiceError err =
     \<lparr>AE_Err = err, AE_StatusCode = StatusInternalServerError, AE_ErrorCode = InternalServiceError\<rparr>"

text \<open>A handler returns an error or a result; the pointer to the result may be nil.\<close>

record Result =
  Res_Data :: json
  Res_Status :: int

definition NewResult :: "json \<Rightarrow> Result" where
  "NewResult data = \<lparr>Res_Data = jsonPublic data, Res_Status = StatusOK\<rparr>"

section \<open>State\<close>

text \<open>The state of the key retriever and the metrics of the signer.\<close>

record 's server =
  signerState :: 's
  ReceivedSigningRequests :: nat
  SuccessfulSigningRequests :: nat
  FailedSigningRequests :: nat
  SignerUnlockStatus :: nat
  SignerFailedUnlockRequests :: nat

definition NewCovenantSignerMetrics :: "'s \<Rightarrow> 's server" where
  "NewCovenantSignerMetrics k = \<lparr>signerState = k, ReceivedSigningRequests = 0, SuccessfulSigningRequests = 0,
     FailedSigningRequests = 0, SignerUnlockStatus = 0, SignerFailedUnlockRequests = 0\<rparr>"

definition onSigner :: "('s, 'a) act \<Rightarrow> ('s server, 'a) act" where
  "onSigner m = (\<lambda>s. case m (signerState s) of (r, t) \<Rightarrow> (r, s\<lparr>signerState := t\<rparr>))"

definition IncReceivedSigningRequests :: "('s server, unit) act" where
  "IncReceivedSigningRequests = modifyS (\<lambda>s. s\<lparr>ReceivedSigningRequests := ReceivedSigningRequests s + 1\<rparr>)"

definition IncSuccessfulSigningRequests :: "('s server, unit) act" where
  "IncSuccessfulSigningRequests = modifyS (\<lambda>s. s\<lparr>SuccessfulSigningRequests := SuccessfulSigningRequests s + 1\<rparr>)"

definition IncFailedSigningRequests :: "('s server, unit) act" where
  "IncFailedSigningRequests = modifyS (\<lambda>s. s\<lparr>FailedSigningRequests := FailedSigningRequests s + 1\<rparr>)"

definition SetSignerUnlocked :: "('s server, unit) act" where
  "SetSignerUnlocked = modifyS (\<lambda>s. s\<lparr>SignerUnlockStatus := 1\<rparr>)"

definition SetSignerLocked :: "('s server, unit) act" where
  "SetSignerLocked = modifyS (\<lambda>s. s\<lparr>SignerUnlockStatus := 0\<rparr>)"

definition IncFailedUnlockRequests :: "('s server, unit) act" where
  "IncFailedUnlockRequests = modifyS (\<lambda>s. s\<lparr>SignerFailedUnlockRequests := SignerFailedUnlockRequests s + 1\<rparr>)"

lemmas metric_defs = IncReceivedSigningRequests_def IncSuccessfulSigningRequests_def
  IncFailedSigningRequests_def SetSignerUnlocked_def SetSignerLocked_def IncFailedUnlockRequests_def

section \<open>Handlers\<close>

text \<open>What a handler has at hand: the retriever of the signer and the libraries it signs with.\<close>

record 's Handler =
  h_load :: "'s \<Rightarrow> keyptr \<Rightarrow> PrivateKey"
  h_pkr :: "'s PrivKeyRetriever"
  h_blib :: btclib
  h_sl :: signlib

type_synonym 's handlerFunc = "HttpRequest \<Rightarrow> ('s server, AppError + Result option) act"

definition decodeRequestBody :: "(json \<Rightarrow> 'r option) \<Rightarrow> HttpRequest \<Rightarrow> 'r option" where
  "decodeRequestBody dec request = Option.bind (json_Decode (BodyData request) (BodyError request \<noteq> None)) dec"

definition HandleSignTransactions :: "'s Handler \<Rightarrow> 's handlerFunc" where
  "HandleSignTransactions h request =
     (case decodeRequestBody decSignRequest request of
        None \<Rightarrow> returnS (Inl (NewErrorWithMsg StatusBadRequest BadRequest ''invalid request payload''))
      | Some payload \<Rightarrow>
          catchS (liftR (ParseSigningRequest (h_blib h) payload))
            (\<lambda>e. returnS (Inl (NewErrorWithMsg StatusBadRequest BadRequest e))) (\<lambda>parsedRequest.
          bindS IncReceivedSigningRequests (\<lambda>_.
          catchS (onSigner (SignTransactionsApp (h_load h) (h_pkr h) (h_blib h) (h_sl h) parsedRequest))
            (\<lambda>e. bindS IncFailedSigningRequests (\<lambda>_.
                 returnS (Inl (NewErrorWithMsg StatusInternalServerError InternalServiceError e)))) (\<lambda>sig.
          bindS IncSuccessfulSigningRequests (\<lambda>_.
          returnS (Inr (Some (NewResult (jsonSignResponse (ToResponse (h_blib h) sig))))))))))"

definition HandleGetPublicKey :: "'s Handler \<Rightarrow> 's handlerFunc" where
  "HandleGetPublicKey h request =
     catchS (onSigner (PubKeyApp (h_load h) (h_pkr h) (h_sl h)))
       (\<lambda>e. returnS (Inl (NewErrorWithMsg StatusInternalServerError InternalServiceError e))) (\<lambda>pubKey.
     returnS (Inr (Some (NewResult
       (jsonPublicKey \<lparr>GPK_PublicKey = EncodeToString (SerializeCompressed (h_blib h) pubKey)\<rparr>)))))"

definition HandleUnlock :: "'s Handler \<Rightarrow> 's handlerFunc" where
  "HandleUnlock h request =
     (case decodeRequestBody decUnlockRequest request of
        None \<Rightarrow> returnS (Inl (NewErrorWithMsg StatusBadRequest BadRequest ''invalid request payload''))
      | Some payload \<Rightarrow>
          catchS (onSigner (UnlockApp (h_pkr h) (Passphrase payload)))
            (\<lambda>e. bindS IncFailedUnlockRequests (\<lambda>_.
                 returnS (Inl (NewErrorWithMsg StatusBadRequest BadRequest e)))) (\<lambda>_.
          bindS SetSignerUnlocked (\<lambda>_.
          returnS (Inr (Some (NewResult jsonEmpty))))))"

definition HandleLock :: "'s Handler \<Rightarrow> 's handlerFunc" where
  "HandleLock h request =
     catchS (onSigner (LockApp (h_pkr h)))
       (\<lambda>e. returnS (Inl (NewErrorWithMsg StatusBadRequest BadRequest e))) (\<lambda>_.
     bindS SetSignerLocked (\<lambda>_.
     returnS (Inr (Some (NewResult jsonEmpty)))))"

section \<open>Responses\<close>

type_synonym 's httpHandler = "HttpRequest \<Rightarrow> ('s server, HttpResponse) act"

definition jsonHTTPError :: "string \<Rightarrow> string \<Rightarrow> json" where
  "jsonHTTPError errorCode message = JObj [(''errorCode'', JStr errorCode), (''message'', JStr message)]"

definition newInternalServiceError :: json where
  "newInternalServiceError = jsonHTTPError InternalServiceError ''Internal service error''"

definition writeResponse :: "int \<Rightarrow> json \<Rightarrow> HttpResponse" where
  "writeResponse statusCode res =
     \<lparr>StatusCode = statusCode, ContentType = ''application/json'', RespBody = printValue res\<rparr>"

definition registerHandler :: "'s handlerFunc \<Rightarrow> 's httpHandler" where
  "registerHandler handlerFunc r =
     bindS (handlerFunc r) (\<lambda>out.
       case out of
         Inl err \<Rightarrow>
           (let statusCode = (if statusKnown (AE_StatusCode err) then AE_StatusCode err
                              else StatusInternalServerError);
                message = (if statusCode \<ge> StatusInternalServerError then ''Internal service error''
                           else AE_Err err)
            in returnS (writeResponse statusCode (jsonHTTPError (AE_ErrorCode err) message)))
       | Inr None \<Rightarrow> returnS (writeResponse StatusInternalServerError newInternalServiceError)
       | Inr (Some result) \<Rightarrow>
           if \<not> statusKnown (Res_Status result)
           then returnS (writeResponse StatusInternalServerError newInternalServiceError)
           else returnS (writeResponse (Res_Status result) (Res_Data result)))"

section \<open>Middlewares\<close>

text \<open>\<^verbatim>\<open>http.MaxBytesReader\<close> around a body.\<close>

definition MaxBytesReader :: "int \<Rightarrow> HttpRequest \<Rightarrow> HttpRequest" where
  "MaxBytesReader maxBytes r =
     (if int (length (BodyData r)) \<le> maxBytes then r
      else r\<lparr>BodyData := take (nat maxBytes) (BodyData r), BodyError := Some ''http: request body too large''\<rparr>)"

definition ContentLengthMiddleware :: "int \<Rightarrow> 's httpHandler \<Rightarrow> 's httpHandler" where
  "ContentLengthMiddleware maxBytes h r =
     (if ContentLength r > maxBytes
      then returnS (http_Error ''Request Entity Too Large'' StatusRequestEntityTooLarge)
      else h (MaxBytesReader maxBytes r))"

definition string_bytes :: "string \<Rightarrow> bytes" where
  "string_bytes s = map of_char s"

definition GenerateHMAC :: "string \<Rightarrow> string \<Rightarrow> string result" where
  "GenerateHMAC hmacKey body =
     (if hmacKey = [] then Ok []
      else Ok (EncodeToString (hmac_sha256 (string_bytes hmacKey) (string_bytes body))))"

definition ValidateHMAC :: "string \<Rightarrow> string \<Rightarrow> string \<Rightarrow> bool result" where
  "ValidateHMAC hmacKey body receivedHMAC =
     (if hmacKey = [] then Ok True
      else if receivedHMAC = [] then Ok False
      else bindR (GenerateHMAC hmacKey body) (\<lambda>expectedHMAC. Ok (expectedHMAC = receivedHMAC)))"

text \<open>The whole body, and a body that can be read again.\<close>

definition RewindRequestBody :: "HttpRequest \<Rightarrow> (string \<times> HttpRequest) result" where
  "RewindRequestBody r =
     (case BodyError r of Some e \<Rightarrow> Err e | None \<Rightarrow> Ok (BodyData r, r\<lparr>BodyError := None\<rparr>))"

definition RespondWithError :: "AppError \<Rightarrow> HttpResponse" where
  "RespondWithError appErr =
     \<lparr>StatusCode = AE_StatusCode appErr, ContentType = ''application/json'',
      RespBody = printValue (JObj [(''error'', JObj [(''code'', JStr (AE_ErrorCode appErr)),
                                                     (''message'', JStr (AE_Err appErr))])]) @ [CHR 0x0A]\<rparr>"

definition HMACAuthMiddleware :: "string \<Rightarrow> 's httpHandler \<Rightarrow> 's httpHandler" where
  "HMACAuthMiddleware hmacKey next1 r =
     (if hmacKey = [] then next1 r
      else if HMACHeader r = []
      then returnS (RespondWithError (NewUnauthorizedError ''missing HMAC authentication header''))
      else
        (case RewindRequestBody r of
           Err e \<Rightarrow> returnS (RespondWithError (NewInternalServiceError e))
         | Panic p \<Rightarrow> liftR (Panic p)
         | Ok (body, r1) \<Rightarrow>
             (case ValidateHMAC hmacKey body (HMACHeader r) of
                Err e \<Rightarrow> returnS (RespondWithError (NewInternalServiceError e))
              | Panic p \<Rightarrow> liftR (Panic p)
              | Ok valid \<Rightarrow>
                  if \<not> valid
                  then returnS (RespondWithError (NewUnauthorizedError ''invalid HMAC authentication''))
                  else next1 r1)))"

section \<open>The server\<close>

definition SetupRoutes :: "'s Handler \<Rightarrow> ((string \<times> string) \<times> 's httpHandler) list" where
  "SetupRoutes h = [
     ((''POST'', ''/v1/sign-transactions''), registerHandler (HandleSignTransactions h)),
     ((''POST'', ''/v1/unlock''), registerHandler (HandleUnlock h)),
     ((''POST'', ''/v1/lock''), registerHandler (HandleLock h)),
     ((''GET'', ''/v1/public-key''), registerHandler (HandleGetPublicKey h))]"

text \<open>
  The router: which of the registered routes a request belongs to, and its own answer to a request
  that belongs to none.
\<close>

record chi =
  chi_match :: "(string \<times> string) list \<Rightarrow> HttpRequest \<Rightarrow> nat option"
  chi_default :: "HttpRequest \<Rightarrow> HttpResponse"

definition routeRequest :: "chi \<Rightarrow> ((string \<times> string) \<times> 's httpHandler) list \<Rightarrow> 's httpHandler" where
  "routeRequest mux routes r =
     (case chi_match mux (map fst routes) r of
        None \<Rightarrow> returnS (chi_default mux r)
      | Some i \<Rightarrow> snd (routes ! i) r)"

text \<open>The handler of the server \<^verbatim>\<open>New\<close> builds.\<close>

definition serveHTTP :: "chi \<Rightarrow> ParsedServerConfig \<Rightarrow> 's Handler \<Rightarrow> 's httpHandler" where
  "serveHTTP mux cfg h =
     ContentLengthMiddleware (uint (PSC_MaxContentLength cfg))
       (if PSC_HMACKey cfg \<noteq> []
        then HMACAuthMiddleware (PSC_HMACKey cfg) (routeRequest mux (SetupRoutes h))
        else routeRequest mux (SetupRoutes h))"

text \<open>Static routes, as the router documents them.\<close>

definition chi_law :: "chi \<Rightarrow> bool" where
  "chi_law mux \<longleftrightarrow> (\<forall>routes r i. distinct routes \<longrightarrow>
     chi_match mux routes r = Some i \<longleftrightarrow> i < length routes \<and> routes ! i = (Method r, URLPath r))"

section \<open>Lemmas: authentication\<close>

text \<open>A request that can be read within the limit and carries the HMAC of its body.\<close>

definition authentic :: "ParsedServerConfig \<Rightarrow> HttpRequest \<Rightarrow> bool" where
  "authentic cfg r \<longleftrightarrow> ContentLength r \<le> uint (PSC_MaxContentLength cfg)
     \<and> int (length (BodyData r)) \<le> uint (PSC_MaxContentLength cfg) \<and> BodyError r = None
     \<and> HMACHeader r = EncodeToString (hmac_sha256 (string_bytes (PSC_HMACKey cfg)) (string_bytes (BodyData r)))"

lemma hmac_not_Nil [simp]: "hmac_sha256 k m \<noteq> []" "[] \<noteq> EncodeToString (hmac_sha256 k m)"
proof -
  show "hmac_sha256 k m \<noteq> []" by (metis length_hmac list.size(3) zero_neq_numeral)
  then show "[] \<noteq> EncodeToString (hmac_sha256 k m)" by (metis EncodeToString_Nil_iff)
qed

lemma BodyError_None: "BodyError r = None \<Longrightarrow> r\<lparr>BodyError := None\<rparr> = r"
  by (cases r) simp

lemma ValidateHMAC_iff:
  "key \<noteq> [] \<Longrightarrow> ValidateHMAC key body hdr =
     Ok (hdr = EncodeToString (hmac_sha256 (string_bytes key) (string_bytes body)))"
  by (auto simp: ValidateHMAC_def GenerateHMAC_def)

lemma serveHTTP_authentic:
  assumes "PSC_HMACKey cfg \<noteq> []" "authentic cfg r"
  shows "serveHTTP mux cfg h r = routeRequest mux (SetupRoutes h) r"
  using assms
  by (simp add: serveHTTP_def ContentLengthMiddleware_def MaxBytesReader_def HMACAuthMiddleware_def
      RewindRequestBody_def authentic_def ValidateHMAC_iff BodyError_None)

lemma serveHTTP_not_authentic:
  assumes "PSC_HMACKey cfg \<noteq> []" "\<not> authentic cfg r"
  shows "\<exists>resp. serveHTTP mux cfg h r s = (Ok resp, s) \<and> StatusCode resp \<in> {401, 413, 500}"
proof (cases "ContentLength r > uint (PSC_MaxContentLength cfg)")
  case True
  then show ?thesis
    by (simp add: serveHTTP_def ContentLengthMiddleware_def http_Error_def status_defs)
next
  case False
  let ?r = "MaxBytesReader (uint (PSC_MaxContentLength cfg)) r"
  have hdr: "HMACHeader ?r = HMACHeader r" by (simp add: MaxBytesReader_def)
  have eq: "serveHTTP mux cfg h r = HMACAuthMiddleware (PSC_HMACKey cfg) (routeRequest mux (SetupRoutes h)) ?r"
    using assms(1) False by (simp add: serveHTTP_def ContentLengthMiddleware_def)
  note resp = RespondWithError_def NewUnauthorizedError_def NewErrorWithMsg_def NewError_def
    NewInternalServiceError_def status_defs UninitializedStatusCode_def Unauthorized_def
  consider "HMACHeader r = []" | e where "HMACHeader r \<noteq> []" "BodyError ?r = Some e"
    | "HMACHeader r \<noteq> []" "BodyError ?r = None" by fastforce
  then show ?thesis
  proof cases
    case 3
    then have "int (length (BodyData r)) \<le> uint (PSC_MaxContentLength cfg)" "?r = r" "BodyError r = None"
      by (auto simp: MaxBytesReader_def split: if_splits)
    with False assms 3 show ?thesis
      unfolding eq by (simp add: HMACAuthMiddleware_def RewindRequestBody_def ValidateHMAC_iff resp authentic_def)
  qed (use assms(1) hdr in \<open>simp_all add: eq HMACAuthMiddleware_def RewindRequestBody_def resp\<close>)
qed

section \<open>Lemmas: routes\<close>

lemma routes_distinct: "distinct (map fst (SetupRoutes h))"
  by (simp add: SetupRoutes_def)

lemma routeRequest_match:
  assumes "chi_law mux" "i < length (SetupRoutes h)" "map fst (SetupRoutes h) ! i = (Method r, URLPath r)"
  shows "routeRequest mux (SetupRoutes h) r = snd (SetupRoutes h ! i) r"
proof -
  have "chi_match mux (map fst (SetupRoutes h)) r = Some i"
    using assms routes_distinct [of h] by (simp add: chi_law_def)
  then show ?thesis by (simp add: routeRequest_def)
qed

lemma routeRequest_sign:
  "chi_law mux \<Longrightarrow> Method r = ''POST'' \<Longrightarrow> URLPath r = ''/v1/sign-transactions'' \<Longrightarrow>
   routeRequest mux (SetupRoutes h) r = registerHandler (HandleSignTransactions h) r"
  using routeRequest_match [of mux 0 h r] by (simp add: SetupRoutes_def)

lemma routeRequest_lock:
  "chi_law mux \<Longrightarrow> Method r = ''POST'' \<Longrightarrow> URLPath r = ''/v1/lock'' \<Longrightarrow>
   routeRequest mux (SetupRoutes h) r = registerHandler (HandleLock h) r"
  using routeRequest_match [of mux 2 h r] by (simp add: SetupRoutes_def)

lemma routeRequest_pubkey:
  "chi_law mux \<Longrightarrow> Method r = ''GET'' \<Longrightarrow> URLPath r = ''/v1/public-key'' \<Longrightarrow>
   routeRequest mux (SetupRoutes h) r = registerHandler (HandleGetPublicKey h) r"
  using routeRequest_match [of mux 3 h r] by (simp add: SetupRoutes_def)

lemma routeRequest_unlock:
  "chi_law mux \<Longrightarrow> Method r = ''POST'' \<Longrightarrow> URLPath r = ''/v1/unlock'' \<Longrightarrow>
   routeRequest mux (SetupRoutes h) r = registerHandler (HandleUnlock h) r"
  using routeRequest_match [of mux 1 h r] by (simp add: SetupRoutes_def)

text \<open>Whatever the router does, a request is answered by it or by one of the four handlers.\<close>

lemma routeRequest_cases:
  assumes "chi_law mux"
  obtains "routeRequest mux (SetupRoutes h) r = returnS (chi_default mux r)"
    | "routeRequest mux (SetupRoutes h) r = registerHandler (HandleSignTransactions h) r"
    | "routeRequest mux (SetupRoutes h) r = registerHandler (HandleUnlock h) r"
    | "routeRequest mux (SetupRoutes h) r = registerHandler (HandleLock h) r"
    | "routeRequest mux (SetupRoutes h) r = registerHandler (HandleGetPublicKey h) r"
proof (cases "chi_match mux (map fst (SetupRoutes h)) r")
  case None
  then show thesis using that(1) by (simp add: routeRequest_def)
next
  case (Some i)
  then have "i < 4" using assms routes_distinct [of h] by (simp add: chi_law_def SetupRoutes_def)
  then consider "i = 0" | "i = 1" | "i = 2" | "i = 3" by linarith
  then show thesis using Some that by cases (simp_all add: routeRequest_def SetupRoutes_def)
qed

section \<open>Lemmas: responses\<close>

lemma keeps_registerHandler:
  assumes "keeps I (handlerFunc r)"
  shows "keeps I (registerHandler handlerFunc r)"
  unfolding registerHandler_def
  by (rule keeps_bindS [OF assms])
     (auto intro!: keeps_intros split: sum.splits option.splits simp: Let_def)

lemma registerHandler_hides:
  assumes "registerHandler handlerFunc r s = (Ok resp, s')"
    and results: "\<And>t t' res. handlerFunc r t = (Ok (Inr (Some res)), t') \<Longrightarrow> Res_Status res < 500"
    and "StatusCode resp \<ge> 500"
  shows "\<exists>ec. RespBody resp = printValue (jsonHTTPError ec ''Internal service error'')"
proof -
  from assms(1) obtain out t where out: "handlerFunc r s = (Ok out, t)"
    by (auto simp: registerHandler_def act_simps)
  note d = registerHandler_def writeResponse_def newInternalServiceError_def status_defs
  show ?thesis
  proof (cases out)
    case (Inl err)
    with assms(1,3) out show ?thesis by (auto simp: d Let_def split: if_splits)
  next
    case (Inr x)
    show ?thesis
    proof (cases x)
      case None
      with Inr assms(1) out show ?thesis by (auto simp: d)
    next
      case (Some res)
      then have "Res_Status res < 500" using results out Inr by blast
      with Some Inr assms(1,3) out show ?thesis by (auto simp: d split: if_splits)
    qed
  qed
qed

section \<open>Lemmas: the metrics\<close>

text \<open>The handler of a server whose key comes from the keyring.\<close>

definition keyringHandler ::
  "keylib \<Rightarrow> 'w ChainKeyringController \<Rightarrow> btclib \<Rightarrow> signlib \<Rightarrow> 'w krstate Handler" where
  "keyringHandler kl kc blib sl =
     \<lparr>h_load = loadKey, h_pkr = KeyringRetriever kl kc, h_blib = blib, h_sl = sl\<rparr>"

lemma onSigner_apply: "m (signerState s) = (r, t) \<Longrightarrow> onSigner m s = (r, s\<lparr>signerState := t\<rparr>)"
  by (simp add: onSigner_def)

lemma onSigner_same: "m (signerState s) = (r, signerState s) \<Longrightarrow> onSigner m s = (r, s)"
  by (simp add: onSigner_def)

text \<open>
  A signing request that gets to the signer is counted as received, and as successful or failed
  when it returns; the signer's state does not change.
\<close>

lemma HandleSignTransactions_counts:
  assumes "HandleSignTransactions (keyringHandler kl kc blib sl) r s = (res, s')"
  shows "\<exists>n k f. s' = s\<lparr>ReceivedSigningRequests := ReceivedSigningRequests s + n,
      SuccessfulSigningRequests := SuccessfulSigningRequests s + k,
      FailedSigningRequests := FailedSigningRequests s + f\<rparr> \<and> k + f \<le> n \<and> (\<not> is_panic res \<longrightarrow> k + f = n)"
proof -
  have same: "s' = s \<Longrightarrow> ?thesis" by (intro exI [of _ 0]) simp
  note d = HandleSignTransactions_def keyringHandler_def metric_defs
  show ?thesis
  proof (cases "decodeRequestBody decSignRequest r")
    case None
    with assms show ?thesis by (intro same) (simp add: d)
  next
    case (Some payload)
    show ?thesis
    proof (cases "ParseSigningRequest blib payload")
      case (Ok preq)
      obtain q t where q: "SignTransactionsApp loadKey (KeyringRetriever kl kc) blib sl preq (signerState s) = (q, t)"
        by fastforce
      with read_only(1) [OF q] have "onSigner (SignTransactionsApp loadKey (KeyringRetriever kl kc) blib sl preq)
          (s\<lparr>ReceivedSigningRequests := n\<rparr>) = (q, s\<lparr>ReceivedSigningRequests := n\<rparr>)" for n
        by (intro onSigner_same) simp
      note run = this
      show ?thesis
      proof (cases q)
        case (Ok x)
        with assms Some \<open>ParseSigningRequest blib payload = Ok preq\<close> run show ?thesis
          by (intro exI [of _ 1] exI [of _ 1] exI [of _ 0]) (auto simp: d)
      next
        case (Err e)
        with assms Some Ok run show ?thesis
          by (intro exI [of _ 1] exI [of _ 0] exI [of _ 1]) (auto simp: d)
      next
        case (Panic p)
        with assms Some Ok run show ?thesis
          by (intro exI [of _ 1] exI [of _ 0] exI [of _ 0]) (auto simp: d)
      qed
    qed (rule same, use assms Some in \<open>simp add: d\<close>)+
  qed
qed

lemma HandleUnlock_gauge:
  assumes "HandleUnlock (keyringHandler kl kc blib sl) r s = (res, s')"
  shows "(krCurrent (signerState s') = krCurrent (signerState s) \<and> SignerUnlockStatus s' = SignerUnlockStatus s
      \<or> krCurrent (signerState s') \<noteq> None \<and> SignerUnlockStatus s' = 1)
    \<and> (ReceivedSigningRequests s', SuccessfulSigningRequests s', FailedSigningRequests s')
      = (ReceivedSigningRequests s, SuccessfulSigningRequests s, FailedSigningRequests s)"
proof (cases "decodeRequestBody decUnlockRequest r")
  case None
  with assms show ?thesis by (simp add: HandleUnlock_def)
next
  case (Some payload)
  obtain q t where q: "UnlockKr kl kc (Passphrase payload) (signerState s) = (q, t)" by fastforce
  then have run: "onSigner (UnlockApp (KeyringRetriever kl kc) (Passphrase payload)) s = (q, s\<lparr>signerState := t\<rparr>)"
    by (intro onSigner_apply) (simp add: UnlockApp_def KeyringRetriever_def)
  note d = HandleUnlock_def keyringHandler_def metric_defs krCurrent_def
  from q show ?thesis
  proof (cases rule: UnlockKr_cases)
    case already
    with assms Some run show ?thesis by (auto simp: d)
  next
    case (new key w)
    with assms Some run show ?thesis by (auto simp: d)
  next
    case (failed w)
    with assms Some run show ?thesis by (cases q) (auto simp: d)
  qed
qed

lemma HandleLock_gauge:
  assumes "HandleLock (keyringHandler kl kc blib sl) r s = (res, s')"
  shows "krCurrent (signerState s') = None \<and> SignerUnlockStatus s' = 0
    \<and> (ReceivedSigningRequests s', SuccessfulSigningRequests s', FailedSigningRequests s')
      = (ReceivedSigningRequests s, SuccessfulSigningRequests s, FailedSigningRequests s)"
proof -
  obtain q t where q: "LockKr kl (signerState s) = (q, t)" by fastforce
  then have run: "onSigner (LockApp (KeyringRetriever kl kc)) s = (q, s\<lparr>signerState := t\<rparr>)"
    by (intro onSigner_apply) (simp add: LockApp_def KeyringRetriever_def)
  have "q = Ok () \<and> krCurrent t = None"
    using kr.lock_locks [of kl kc "signerState s" q t] q by (simp add: KeyringRetriever_def)
  with assms run show ?thesis by (auto simp: HandleLock_def keyringHandler_def metric_defs)
qed

lemma HandleGetPublicKey_same:
  assumes "HandleGetPublicKey (keyringHandler kl kc blib sl) r s = (res, s')"
  shows "s' = s"
proof -
  obtain q t where q: "PubKeyApp loadKey (KeyringRetriever kl kc) sl (signerState s) = (q, t)" by fastforce
  with read_only(2) [OF q] have "onSigner (PubKeyApp loadKey (KeyringRetriever kl kc) sl) s = (q, s)"
    by (intro onSigner_same) simp
  with assms show ?thesis by (cases q) (auto simp: HandleGetPublicKey_def keyringHandler_def)
qed

text \<open>Requests one after the other, in any order and with any content.\<close>

inductive serverStep ::
  "chi \<Rightarrow> ParsedServerConfig \<Rightarrow> 's Handler \<Rightarrow> 's server \<Rightarrow> 's server \<Rightarrow> bool" for mux cfg h where
  request: "serveHTTP mux cfg h r s = (res, s') \<Longrightarrow> serverStep mux cfg h s s'"

inductive_cases serverStepE: "serverStep mux cfg h s s'"

definition serverInit :: "'w krstate server \<Rightarrow> bool" where
  "serverInit s \<longleftrightarrow> krInit (signerState s) \<and> s = NewCovenantSignerMetrics (signerState s)"

definition metricsInv :: "'w krstate server \<Rightarrow> bool" where
  "metricsInv s \<longleftrightarrow> SignerUnlockStatus s = (if krCurrent (signerState s) = None then 0 else 1)
     \<and> SuccessfulSigningRequests s + FailedSigningRequests s \<le> ReceivedSigningRequests s"

lemma NewCovenantSignerMetrics_inv:
  "krCurrent k = None \<Longrightarrow> metricsInv (NewCovenantSignerMetrics k)"
  by (simp add: metricsInv_def NewCovenantSignerMetrics_def)

lemma keeps_metricsInv:
  "keeps metricsInv (HandleSignTransactions (keyringHandler kl kc blib sl) r)"
  "keeps metricsInv (HandleUnlock (keyringHandler kl kc blib sl) r)"
  "keeps metricsInv (HandleLock (keyringHandler kl kc blib sl) r)"
  "keeps metricsInv (HandleGetPublicKey (keyringHandler kl kc blib sl) r)"
proof -
  show "keeps metricsInv (HandleSignTransactions (keyringHandler kl kc blib sl) r)"
    by (rule keepsI) (auto simp: metricsInv_def dest!: HandleSignTransactions_counts)
  show "keeps metricsInv (HandleUnlock (keyringHandler kl kc blib sl) r)"
    by (rule keepsI, drule HandleUnlock_gauge, elim conjE disjE) (simp_all add: metricsInv_def)
  show "keeps metricsInv (HandleLock (keyringHandler kl kc blib sl) r)"
    by (rule keepsI) (auto simp: metricsInv_def dest!: HandleLock_gauge)
  show "keeps metricsInv (HandleGetPublicKey (keyringHandler kl kc blib sl) r)"
    by (rule keepsI) (auto dest!: HandleGetPublicKey_same)
qed

lemma keeps_serveHTTP:
  assumes "\<And>r. keeps I (routeRequest mux (SetupRoutes h) r)"
  shows "keeps I (serveHTTP mux cfg h r)"
  unfolding serveHTTP_def ContentLengthMiddleware_def HMACAuthMiddleware_def
  by (auto intro!: keeps_intros assms split: result.splits)

lemma metricsInv_step:
  assumes "chi_law mux" "serverStep mux cfg (keyringHandler kl kc blib sl) s s'" "metricsInv s"
  shows "metricsInv s'"
proof -
  let ?h = "keyringHandler kl kc blib sl"
  have "keeps metricsInv (routeRequest mux (SetupRoutes ?h) r)" for r
    using assms(1) by (rule routeRequest_cases [where h = ?h and r = r])
      (simp_all add: keeps_registerHandler keeps_metricsInv keeps_returnS)
  then have "keeps metricsInv (serveHTTP mux cfg ?h r)" for r by (rule keeps_serveHTTP)
  with assms(2,3) show ?thesis by (auto elim!: serverStepE dest: keepsD)
qed

interpretation srv: step_invariant "serverStep mux cfg (keyringHandler kl kc blib sl)" "\<lambda>s. chi_law mux \<longrightarrow> metricsInv s"
  for mux cfg kl kc blib sl
  by unfold_locales (blast intro: metricsInv_step)

section \<open>Properties\<close>

text \<open>A router, a configuration and a server for the witnesses.\<close>

definition sample_chi :: chi where
  "sample_chi = \<lparr>chi_match = (\<lambda>routes r. List.find (\<lambda>i. routes ! i = (Method r, URLPath r)) [0..<length routes]),
     chi_default = (\<lambda>r. http_Error ''404 page not found'' 404)\<rparr>"

lemma sample_chi_law: "chi_law sample_chi"
proof -
  have "List.find (\<lambda>i. routes ! i = x) [0..<length routes] = Some i \<longleftrightarrow> i < length routes \<and> routes ! i = x"
    if "distinct routes" for routes :: "(string \<times> string) list" and x i
    using that by (auto simp: find_Some_iff nth_eq_iff_index_eq)
  then show ?thesis by (simp add: chi_law_def sample_chi_def)
qed

definition sample_server_cfg :: ParsedServerConfig where
  "sample_server_cfg = \<lparr>PSC_Host = ''127.0.0.1'', PSC_Port = 9791, PSC_WriteTimeout = 0, PSC_ReadTimeout = 0,
     PSC_IdleTimeout = 0, PSC_MaxContentLength = 100000, PSC_HMACKey = ''secret''\<rparr>"

definition sample_handler :: "unit krstate Handler" where
  "sample_handler = keyringHandler sample_kl sample_kc sample_blib sample_sl"

definition sample_server :: "unit krstate \<Rightarrow> unit krstate server" where
  "sample_server k = NewCovenantSignerMetrics k"

definition sample_request :: "string \<Rightarrow> string \<Rightarrow> string \<Rightarrow> HttpRequest" where
  "sample_request m p hdr = \<lparr>Method = m, URLPath = p, HMACHeader = hdr, ContentLength = 0,
     BodyData = [], BodyError = None\<rparr>"

definition sample_hmac :: string where
  "sample_hmac = EncodeToString (hmac_sha256 (string_bytes ''secret'') (string_bytes []))"

lemma sample_authentic: "authentic sample_server_cfg (sample_request m p sample_hmac)"
  by (simp add: authentic_def sample_request_def sample_hmac_def sample_server_cfg_def)

text \<open>
  C31. Nothing unauthenticated gets through. With an HMAC key configured, a request reaches a route
  exactly when it can be read within the size limit and its header is the hexadecimal HMAC-SHA256 of
  its body; any other request is answered with status 401, 413 or 500 and changes nothing.
\<close>

theorem server_authenticates:
  assumes "PSC_HMACKey cfg \<noteq> []"
  shows "if authentic cfg r
    then serveHTTP mux cfg h r s = routeRequest mux (SetupRoutes h) r s
    else \<exists>resp. serveHTTP mux cfg h r s = (Ok resp, s) \<and> StatusCode resp \<in> {401, 413, 500}"
proof (cases "authentic cfg r")
  case True
  then show ?thesis using serveHTTP_authentic [OF assms True, of mux h] by simp
next
  case False
  then show ?thesis using serveHTTP_not_authentic [OF assms False, of mux h s] by simp
qed

theorem server_authenticates_witness:
  "\<exists>resp. serveHTTP sample_chi sample_server_cfg sample_handler
       (sample_request ''POST'' ''/v1/lock'' []) (sample_server sample_unlocked)
     = (Ok resp, sample_server sample_unlocked) \<and> StatusCode resp \<in> {401, 413, 500}"
proof -
  have "PSC_HMACKey sample_server_cfg \<noteq> []" by (simp add: sample_server_cfg_def)
  moreover have "\<not> authentic sample_server_cfg (sample_request ''POST'' ''/v1/lock'' [])"
    by (simp add: authentic_def sample_request_def)
  ultimately show ?thesis
    using server_authenticates [of sample_server_cfg "sample_request ''POST'' ''/v1/lock'' []" sample_chi sample_handler]
    by simp
qed

text \<open>
  C33. The HMAC covers the body only. The header of any authenticated request with an empty body, such
  as the request for the public key that the emulator sends at every readiness check, is accepted
  again for a request to lock the signer.
\<close>

theorem hmac_replay_locks:
  assumes "chi_law mux" and "PSC_HMACKey cfg \<noteq> []" and "authentic cfg r" and "BodyData r = []"
  shows "serveHTTP mux cfg h \<lparr>Method = ''POST'', URLPath = ''/v1/lock'', HMACHeader = HMACHeader r,
      ContentLength = 0, BodyData = [], BodyError = None\<rparr> s =
    registerHandler (HandleLock h) \<lparr>Method = ''POST'', URLPath = ''/v1/lock'', HMACHeader = HMACHeader r,
      ContentLength = 0, BodyData = [], BodyError = None\<rparr> s"
proof -
  let ?l = "\<lparr>Method = ''POST'', URLPath = ''/v1/lock'', HMACHeader = HMACHeader r,
      ContentLength = 0, BodyData = [], BodyError = None\<rparr>"
  have "authentic cfg ?l" using assms(3,4) by (simp add: authentic_def)
  from serveHTTP_authentic [OF assms(2) this, of mux h] show ?thesis
    using routeRequest_lock [OF assms(1), of ?l h] by simp
qed

theorem hmac_replay_locks_witness:
  "\<exists>resp s'. serveHTTP sample_chi sample_server_cfg sample_handler
       (sample_request ''POST'' ''/v1/lock'' sample_hmac) (sample_server sample_unlocked) = (Ok resp, s')
     \<and> krCurrent (signerState s') = None"
proof -
  let ?l = "sample_request ''POST'' ''/v1/lock'' sample_hmac"
  have "serveHTTP sample_chi sample_server_cfg sample_handler ?l (sample_server sample_unlocked)
      = registerHandler (HandleLock sample_handler) ?l (sample_server sample_unlocked)"
    using hmac_replay_locks [OF sample_chi_law _ sample_authentic, of "''GET''" "''/v1/public-key''" sample_handler]
    by (simp add: sample_request_def sample_server_cfg_def)
  then show ?thesis
    by (simp add: registerHandler_def HandleLock_def sample_handler_def keyringHandler_def onSigner_def
        LockApp_def KeyringRetriever_def LockKr_def sample_server_def NewCovenantSignerMetrics_def sample_unlocked_def metric_defs
        NewResult_def statusKnown_def status_defs krCurrent_def)
qed



text \<open>
  Internal errors stay inside. Whatever goes wrong in one of the four handlers, an answer with a
  status of 500 or more has the constant message in its body, never the text of the error.
\<close>

lemma internal_errors_hidden:
  assumes "i < 4" and "snd (SetupRoutes h ! i) r s = (Ok resp, s')" and "StatusCode resp \<ge> 500"
  shows "\<exists>ec. RespBody resp = printValue (jsonHTTPError ec ''Internal service error'')"
proof -
  have results: "Res_Status res < 500"
    if "hf r t = (Ok (Inr (Some res)), t')" "hf \<in> {HandleSignTransactions h, HandleUnlock h, HandleLock h, HandleGetPublicKey h}"
    for hf t t' res
    using that
    by (auto simp: HandleSignTransactions_def HandleUnlock_def HandleLock_def HandleGetPublicKey_def
        NewResult_def status_defs split: option.splits elim!: catchS_Ok_E bindS_Ok_E)
  have "i = 0 \<or> i = 1 \<or> i = 2 \<or> i = 3" using assms(1) by linarith
  then obtain hf where "snd (SetupRoutes h ! i) = registerHandler hf"
    "hf \<in> {HandleSignTransactions h, HandleUnlock h, HandleLock h, HandleGetPublicKey h}"
    by (auto simp: SetupRoutes_def)
  with registerHandler_hides [of hf r s resp s'] results assms(2,3) show ?thesis by auto
qed

lemma internal_errors_hidden_example:
  "\<exists>resp. snd (SetupRoutes sample_handler ! 3) (sample_request ''GET'' ''/v1/public-key'' []) (sample_server sample_kr)
       = (Ok resp, sample_server sample_kr)
     \<and> (\<exists>ec. RespBody resp = printValue (jsonHTTPError ec ''Internal service error''))"
proof -
  let ?resp = "writeResponse 500 (jsonHTTPError InternalServiceError ''Internal service error'')"
  have "snd (SetupRoutes sample_handler ! 3) (sample_request ''GET'' ''/v1/public-key'' []) (sample_server sample_kr)
      = (Ok ?resp, sample_server sample_kr)"
    by (simp add: SetupRoutes_def registerHandler_def HandleGetPublicKey_def sample_handler_def keyringHandler_def
        onSigner_def PubKeyApp_def KeyringRetriever_def PrivKeyKr_def sample_server_def NewCovenantSignerMetrics_def sample_kr_def
        NewErrorWithMsg_def NewError_def statusKnown_def status_defs UninitializedStatusCode_def
        InternalServiceError_def)
  from internal_errors_hidden [OF _ this] this show ?thesis by (auto simp: writeResponse_def)
qed

end
