(* ===== verification/Lifecycle.thy ===== *)
theory Lifecycle
  imports Emulator HttpService
begin

text \<open>
  The life of the daemon: \<^verbatim>\<open>Start\<close>, \<^verbatim>\<open>Stop\<close>, \<^verbatim>\<open>CheckReadiness\<close> and the two loops of
  \<^verbatim>\<open>covenant/covenant.go\<close>, the health endpoint (\<^verbatim>\<open>covenant/service/prometheus.go\<close>) and the
  server (\<^verbatim>\<open>covenant/service/server.go\<close>).

  Goroutines are a list of loops with a phase each; a step is one iteration of one loop, a call, or
  the end of a call that waits. A tick of the submission loop is one step. When a tick is due is up
  to the clock, and \<^verbatim>\<open>select\<close> takes any case that is ready, so a tick can follow the closing of
  the channel. A panic of any goroutine ends the process.

  The lemmas show that the wait group counts the loops that run, that there is never more than one of
  each kind, that nothing happens after \<^verbatim>\<open>Stop\<close> has returned, and that \<^verbatim>\<open>Stop\<close> can always
  return unless a loop hangs in a tick.
\<close>

section \<open>State\<close>

datatype loopKind = SubmissionLoop | MetricsLoop

datatype phase = Launched | Selecting | Stuck | Exited

datatype stopPhase = StopNotCalled | StopWaiting | StopDone

record 'w proc =
  p_emu :: "'w emu"
  p_loops :: "(loopKind \<times> phase) list"
  p_wg :: nat
  p_startOnce :: bool
  p_stop :: stopPhase
  p_quit :: bool
  p_crash :: "string option"

definition procInit :: "'w emu \<Rightarrow> 'w proc" where
  "procInit e = \<lparr>p_emu = e, p_loops = [], p_wg = 0, p_startOnce = False, p_stop = StopNotCalled,
     p_quit = False, p_crash = None\<rparr>"

section \<open>Operations\<close>

definition Start :: "'w proc \<Rightarrow> 'w proc" where
  "Start s =
     (if p_startOnce s then s
      else s\<lparr>p_startOnce := True, p_wg := p_wg s + 2,
             p_loops := p_loops s @ [(SubmissionLoop, Launched), (MetricsLoop, Launched)]\<rparr>)"

text \<open>
  \<^verbatim>\<open>Stop\<close> up to its wait. A second call waits for the first one, which changes nothing.
\<close>

definition StopCall :: "'w proc \<Rightarrow> 'w proc" where
  "StopCall s =
     (if p_stop s = StopNotCalled then s\<lparr>p_stop := StopWaiting, p_quit := True\<rparr> else s)"

definition CheckReadiness :: "'w Emulator \<Rightarrow> ('w proc, unit) act" where
  "CheckReadiness ce = (\<lambda>s.
     if p_quit s then (Err ''emulator is not running'', s)
     else
       (case onWorld (Signer_PubKey (em_signer ce)) (p_emu s) of (r, e) \<Rightarrow>
          (bindR (wrapErr ''failed to get public key from covenant signer'' r) (\<lambda>_. Ok ()),
           s\<lparr>p_emu := e\<rparr>)))"

definition loopInterval :: "Config \<Rightarrow> loopKind \<Rightarrow> Duration result" where
  "loopInterval cfg k =
     (case k of
        SubmissionLoop \<Rightarrow> Ok (QueryInterval cfg)
      | MetricsLoop \<Rightarrow> bindR (derefR (Cfg_Metrics cfg)) (\<lambda>m. Ok (Metrics_UpdateInterval m)))"

text \<open>\<^verbatim>\<open>time.NewTicker\<close> panics on an interval that is not positive.\<close>

definition NewTicker :: "Duration \<Rightarrow> unit result" where
  "NewTicker d = (if d \<le> 0 then Panic ''non-positive interval for NewTicker'' else Ok ())"

definition launchLoop :: "Config \<Rightarrow> loopKind \<Rightarrow> unit result" where
  "launchLoop cfg k = bindR (loopInterval cfg k) NewTicker"

definition setPhase :: "nat \<Rightarrow> phase \<Rightarrow> 'w proc \<Rightarrow> 'w proc" where
  "setPhase i ph s = s\<lparr>p_loops := (p_loops s)[i := (fst (p_loops s ! i), ph)]\<rparr>"

text \<open>\<^verbatim>\<open>ce.wg.Done\<close> of an exiting loop; a counter below zero is a panic.\<close>

definition exitLoop :: "nat \<Rightarrow> 'w proc \<Rightarrow> 'w proc" where
  "exitLoop i s =
     (if p_wg s = 0 then s\<lparr>p_crash := Some ''sync: negative WaitGroup counter''\<rparr>
      else (setPhase i Exited s)\<lparr>p_wg := p_wg s - 1\<rparr>)"

text \<open>The outcome of a body: carry on, end the process, or never come back.\<close>

definition afterTick :: "nat \<Rightarrow> (unit result \<times> 'w emu) option \<Rightarrow> 'w proc \<Rightarrow> 'w proc" where
  "afterTick i out s =
     (case out of
        None \<Rightarrow> setPhase i Stuck s
      | Some (Panic p, e) \<Rightarrow> s\<lparr>p_emu := e, p_crash := Some p\<rparr>
      | Some (_, e) \<Rightarrow> s\<lparr>p_emu := e\<rparr>)"

definition loopIs :: "'w proc \<Rightarrow> nat \<Rightarrow> loopKind \<Rightarrow> phase \<Rightarrow> bool" where
  "loopIs s i k ph \<longleftrightarrow> i < length (p_loops s) \<and> p_loops s ! i = (k, ph)"

section \<open>Steps\<close>

inductive emStep :: "'w Emulator \<Rightarrow> btclib \<Rightarrow> stakinglib \<Rightarrow> 'w proc \<Rightarrow> 'w proc \<Rightarrow> bool"
  for ce blib slib where
  start: "p_crash s = None \<Longrightarrow> emStep ce blib slib s (Start s)"
| stop: "p_crash s = None \<Longrightarrow> emStep ce blib slib s (StopCall s)"
| stopReturn: "p_crash s = None \<Longrightarrow> p_stop s = StopWaiting \<Longrightarrow> p_wg s = 0 \<Longrightarrow>
    emStep ce blib slib s (s\<lparr>p_stop := StopDone\<rparr>)"
| launch: "p_crash s = None \<Longrightarrow> loopIs s i k Launched \<Longrightarrow> launchLoop (em_config ce) k = Ok () \<Longrightarrow>
    emStep ce blib slib s (setPhase i Selecting s)"
| launchPanic: "p_crash s = None \<Longrightarrow> loopIs s i k Launched \<Longrightarrow> launchLoop (em_config ce) k = Panic p \<Longrightarrow>
    emStep ce blib slib s (s\<lparr>p_crash := Some p\<rparr>)"
| tick: "p_crash s = None \<Longrightarrow> loopIs s i SubmissionLoop Selecting \<Longrightarrow>
    emStep ce blib slib s (afterTick i (submissionTick ce blib slib (p_emu s)) s)"
| update: "p_crash s = None \<Longrightarrow> loopIs s i MetricsLoop Selecting \<Longrightarrow>
    emStep ce blib slib s (afterTick i (Some (UpdatePrometheusMetrics (em_clock ce) (p_emu s))) s)"
| quit: "p_crash s = None \<Longrightarrow> loopIs s i k Selecting \<Longrightarrow> p_quit s \<Longrightarrow>
    emStep ce blib slib s (exitLoop i s)"

inductive_cases emStepE: "emStep ce blib slib s s'"

section \<open>The health endpoint\<close>

definition StatusServiceUnavailable :: int where "StatusServiceUnavailable = 503"

record 'w PrometheusServer =
  PS_Addr :: string
  PS_ReadTimeout :: Duration
  PS_WriteTimeout :: Duration
  PS_IdleTimeout :: Duration
  PS_ReadHeaderTimeout :: Duration
  PS_interval :: Duration
  PS_routes :: "string list"
  PS_quit :: bool
  PS_readinessChecker :: "('w proc, unit) act option"

definition NewPrometheusServer :: "string \<Rightarrow> Duration \<Rightarrow> 'w PrometheusServer" where
  "NewPrometheusServer addr interval = \<lparr>PS_Addr = addr, PS_ReadTimeout = 1 * Second,
     PS_WriteTimeout = 30 * Second, PS_IdleTimeout = 30 * Second, PS_ReadHeaderTimeout = 2 * Second,
     PS_interval = interval, PS_routes = [''/metrics''], PS_quit = False, PS_readinessChecker = None\<rparr>"

text \<open>Registering a pattern twice panics, with a text that also names source positions.\<close>

definition SetReadinessChecker ::
  "('w proc, unit) act \<Rightarrow> 'w PrometheusServer \<Rightarrow> 'w PrometheusServer result" where
  "SetReadinessChecker rc ps =
     (if ''/health'' \<in> set (PS_routes ps) then Panic ''pattern /health conflicts with pattern /health''
      else Ok (ps\<lparr>PS_readinessChecker := Some rc, PS_routes := PS_routes ps @ [''/health'']\<rparr>))"

definition readinessHandler :: "'w PrometheusServer \<Rightarrow> ('w proc, HttpResponse) act" where
  "readinessHandler ps =
     (case PS_readinessChecker ps of
        None \<Rightarrow> returnS (http_Error ''Readiness checker not configured'' StatusInternalServerError)
      | Some rc \<Rightarrow>
          catchS rc (\<lambda>e. returnS (http_Error e StatusServiceUnavailable)) (\<lambda>_.
          returnS \<lparr>StatusCode = StatusOK, ContentType = ''text/plain; charset=utf-8'', RespBody = ''Healthy''\<rparr>))"

text \<open>
  \<^verbatim>\<open>ps.Start\<close>, given the error with which \<^verbatim>\<open>ListenAndServe\<close> came back: it ends the process unless
  the server was shut down.
\<close>

definition PrometheusStart :: "error \<Rightarrow> string option" where
  "PrometheusStart err =
     (if err = ErrServerClosed then None else Some (''failed to start Prometheus server: '' @ err))"

text \<open>\<^verbatim>\<open>ps.Stop\<close>: closing a closed channel panics; errors of the shutdown are only logged.\<close>

definition PrometheusStop :: "'w PrometheusServer \<Rightarrow> 'w PrometheusServer result" where
  "PrometheusStop ps =
     (if PS_quit ps then Panic ''close of closed channel'' else Ok (ps\<lparr>PS_quit := True\<rparr>))"

section \<open>The server\<close>

text \<open>
  The goroutine that runs \<^verbatim>\<open>RunUntilShutdown\<close>: before the call, between start and shutdown signal,
  in the deferred \<^verbatim>\<open>Stop\<close>, and after it returned.
\<close>

datatype mainPhase = MainInit | MainServing | MainStopping | MainReturned "unit result"

record 'w daemon =
  d_main :: mainPhase
  d_started :: nat
  d_prom :: "'w PrometheusServer option"
  d_proc :: "'w proc"

definition daemonInit :: "'w emu \<Rightarrow> 'w daemon" where
  "daemonInit e = \<lparr>d_main = MainInit, d_started = 0, d_prom = None, d_proc = procInit e\<rparr>"

text \<open>\<^verbatim>\<open>RunUntilShutdown\<close> up to its wait for the signal.\<close>

definition RunUntilShutdown :: "'w Emulator \<Rightarrow> 'w daemon \<Rightarrow> 'w daemon" where
  "RunUntilShutdown ce d =
     (let d1 = d\<lparr>d_started := d_started d + 1\<rparr>
      in if d_started d1 \<noteq> 1 then d1\<lparr>d_main := MainReturned (Ok ())\<rparr>
         else
           (case bindR (derefR (Cfg_Metrics (em_config ce))) (\<lambda>m.
                 bindR (Address m) (\<lambda>addr.
                 SetReadinessChecker (CheckReadiness ce)
                   (NewPrometheusServer addr (Metrics_UpdateInterval m)))) of
              Err e \<Rightarrow> d1\<lparr>d_main := MainReturned (Err e)\<rparr>
            | Panic p \<Rightarrow> d1\<lparr>d_proc := (d_proc d1)\<lparr>p_crash := Some p\<rparr>\<rparr>
            | Ok ps \<Rightarrow> d1\<lparr>d_main := MainServing, d_prom := Some ps, d_proc := Start (d_proc d1)\<rparr>))"

text \<open>
  The goroutine of \<^verbatim>\<open>ps.Start\<close> may come to report its error only while the daemon is stopping. The
  deferred function stops the metrics server, then the emulator.
\<close>

inductive daemonStep :: "'w Emulator \<Rightarrow> btclib \<Rightarrow> stakinglib \<Rightarrow> 'w daemon \<Rightarrow> 'w daemon \<Rightarrow> bool"
  for ce blib slib where
  run: "p_crash (d_proc d) = None \<Longrightarrow> d_main d = MainInit \<Longrightarrow>
    daemonStep ce blib slib d (RunUntilShutdown ce d)"
| promFails: "p_crash (d_proc d) = None \<Longrightarrow> d_prom d = Some ps \<Longrightarrow> d_main d \<in> {MainServing, MainStopping} \<Longrightarrow>
    PrometheusStart err = Some p \<Longrightarrow>
    daemonStep ce blib slib d (d\<lparr>d_proc := (d_proc d)\<lparr>p_crash := Some p\<rparr>\<rparr>)"
| health: "p_crash (d_proc d) = None \<Longrightarrow> d_prom d = Some ps \<Longrightarrow> d_main d = MainServing \<Longrightarrow>
    readinessHandler ps (d_proc d) = (r, s) \<Longrightarrow> daemonStep ce blib slib d (d\<lparr>d_proc := s\<rparr>)"
| loop: "p_crash (d_proc d) = None \<Longrightarrow> emStep ce blib slib (d_proc d) s \<Longrightarrow>
    p_startOnce s = p_startOnce (d_proc d) \<Longrightarrow> p_stop s = p_stop (d_proc d) \<Longrightarrow>
    daemonStep ce blib slib d (d\<lparr>d_proc := s\<rparr>)"
| shutdown: "p_crash (d_proc d) = None \<Longrightarrow> d_main d = MainServing \<Longrightarrow> d_prom d = Some ps \<Longrightarrow>
    PrometheusStop ps = Ok ps' \<Longrightarrow>
    daemonStep ce blib slib d (d\<lparr>d_main := MainStopping, d_prom := Some ps', d_proc := StopCall (d_proc d)\<rparr>)"
| shutdownPanic: "p_crash (d_proc d) = None \<Longrightarrow> d_main d = MainServing \<Longrightarrow> d_prom d = Some ps \<Longrightarrow>
    PrometheusStop ps = Panic p \<Longrightarrow>
    daemonStep ce blib slib d (d\<lparr>d_proc := (d_proc d)\<lparr>p_crash := Some p\<rparr>\<rparr>)"
| return: "p_crash (d_proc d) = None \<Longrightarrow> d_main d = MainStopping \<Longrightarrow> p_wg (d_proc d) = 0 \<Longrightarrow>
    daemonStep ce blib slib d
      (d\<lparr>d_main := MainReturned (Ok ()), d_proc := (d_proc d)\<lparr>p_stop := StopDone\<rparr>\<rparr>)"

inductive_cases daemonStepE: "daemonStep ce blib slib d d'"

section \<open>Lemmas: the invariant\<close>

definition running :: "(loopKind \<times> phase) list \<Rightarrow> nat" where
  "running ls = length (filter (\<lambda>l. snd l \<noteq> Exited) ls)"

text \<open>The wait group counts the running loops; there is one loop of each kind after the start.\<close>

definition procInv :: "'w proc \<Rightarrow> bool" where
  "procInv s \<longleftrightarrow> p_wg s = running (p_loops s)
     \<and> map fst (p_loops s) = (if p_startOnce s then [SubmissionLoop, MetricsLoop] else [])
     \<and> (p_quit s \<longleftrightarrow> p_stop s \<noteq> StopNotCalled)"

lemma running_Cons: "running (l # ls) = (if snd l = Exited then 0 else 1) + running ls"
  by (simp add: running_def)

lemma running_update:
  "i < length ls \<Longrightarrow> running (ls[i := y]) + (if snd (ls ! i) = Exited then 0 else 1)
     = running ls + (if snd y = Exited then 0 else 1)"
proof (induction ls arbitrary: i)
  case (Cons l ls)
  show ?case
  proof (cases i)
    case (Suc j)
    with Cons.IH [of j] Cons.prems show ?thesis by (simp add: running_Cons)
  qed (simp add: running_Cons)
qed simp

lemma running_pos: "i < length ls \<Longrightarrow> snd (ls ! i) \<noteq> Exited \<Longrightarrow> 0 < running ls"
  by (auto simp: running_def filter_empty_conv)

lemma running_0_iff: "running ls = 0 \<longleftrightarrow> (\<forall>l \<in> set ls. snd l = Exited)"
  by (auto simp: running_def filter_empty_conv)

lemma map_fst_update: "map fst (ls[i := (fst (ls ! i), ph)]) = map fst ls"
  by (metis list_update_beyond list_update_id length_map map_update not_le nth_map fst_conv)

lemma setPhase_simps [simp]:
  "p_emu (setPhase i ph s) = p_emu s" "p_wg (setPhase i ph s) = p_wg s"
  "p_startOnce (setPhase i ph s) = p_startOnce s" "p_stop (setPhase i ph s) = p_stop s"
  "p_quit (setPhase i ph s) = p_quit s" "p_crash (setPhase i ph s) = p_crash s"
  "map fst (p_loops (setPhase i ph s)) = map fst (p_loops s)"
  by (simp_all add: setPhase_def map_fst_update)

lemma procInv_init: "procInv (procInit e)"
  by (simp add: procInv_def procInit_def running_def)

lemma procInv_setPhase:
  assumes "procInv s" "loopIs s i k ph" "ph \<noteq> Exited" "ph' \<noteq> Exited"
  shows "procInv (setPhase i ph' s)"
proof -
  have "running (p_loops (setPhase i ph' s)) = running (p_loops s)"
    using running_update [of i "p_loops s" "(fst (p_loops s ! i), ph')"] assms(2-4)
    by (simp add: setPhase_def loopIs_def)
  with assms(1) show ?thesis by (simp add: procInv_def)
qed

lemma procInv_exit:
  assumes "procInv s" "loopIs s i k Selecting"
  shows "procInv (exitLoop i s)" "exitLoop i s = (setPhase i Exited s)\<lparr>p_wg := p_wg s - 1\<rparr>"
proof -
  have wg: "0 < p_wg s" using assms running_pos [of i "p_loops s"] by (simp add: procInv_def loopIs_def)
  then show eq: "exitLoop i s = (setPhase i Exited s)\<lparr>p_wg := p_wg s - 1\<rparr>" by (simp add: exitLoop_def)
  have "running (p_loops (setPhase i Exited s)) + 1 = running (p_loops s)"
    using running_update [of i "p_loops s" "(fst (p_loops s ! i), Exited)"] assms(2)
    by (simp add: setPhase_def loopIs_def)
  with assms(1) show "procInv (exitLoop i s)" by (simp add: eq procInv_def)
qed

lemma procInv_afterTick:
  assumes "procInv s" "loopIs s i k Selecting"
  shows "procInv (afterTick i out s)"
proof (cases out)
  case None
  then show ?thesis using procInv_setPhase [OF assms, of Stuck] by (simp add: afterTick_def)
next
  case (Some a)
  obtain r e where "a = (r, e)" by fastforce
  with Some assms(1) show ?thesis by (cases r) (simp_all add: afterTick_def procInv_def)
qed

lemma procInv_calls: "procInv s \<Longrightarrow> procInv (Start s)" "procInv s \<Longrightarrow> procInv (StopCall s)"
  by (auto simp: procInv_def Start_def StopCall_def running_def)

lemma procInv_step: "emStep ce blib slib s s' \<Longrightarrow> procInv s \<Longrightarrow> procInv s'"
proof (induction rule: emStep.induct)
  case (launch s i k)
  then show ?case using procInv_setPhase [of s i k Launched Selecting] by simp
next
  case (quit s i k)
  then show ?case using procInv_exit(1) by blast
qed (simp_all add: procInv_calls procInv_afterTick, simp_all add: procInv_def)

interpretation em: step_invariant "emStep ce blib slib" procInv
  for ce blib slib
  by unfold_locales (rule procInv_step)

section \<open>Lemmas: stopping\<close>

text \<open>Nothing is left to run once a started emulator has stopped.\<close>

definition quiet :: "'w proc \<Rightarrow> bool" where
  "quiet s \<longleftrightarrow> p_startOnce s \<and> (p_stop s = StopDone \<longrightarrow> (\<forall>l \<in> set (p_loops s). snd l = Exited))"

lemma quiet_loop: "quiet s \<Longrightarrow> loopIs s i k ph \<Longrightarrow> ph \<noteq> Exited \<Longrightarrow> p_stop s \<noteq> StopDone"
  by (auto simp: quiet_def loopIs_def) (metis nth_mem snd_conv)

lemma afterTick_flags [simp]:
  "p_startOnce (afterTick i out s) = p_startOnce s" "p_stop (afterTick i out s) = p_stop s"
  by (auto simp: afterTick_def split: option.splits result.splits)

lemma quiet_step:
  assumes "emStep ce blib slib s s'" "procInv s" "quiet s"
  shows "quiet s' \<and> (p_stop s = StopDone \<longrightarrow> p_emu s' = p_emu s \<and> p_stop s' = StopDone)"
  using assms(1)
proof cases
  case start
  then show ?thesis using assms(3) by (simp add: quiet_def Start_def)
next
  case stop
  then show ?thesis using assms(3) by (simp add: quiet_def StopCall_def)
next
  case stopReturn
  then show ?thesis using assms(2,3) by (simp add: quiet_def procInv_def running_0_iff)
next
  case (launch i k)
  then show ?thesis using assms(3) quiet_loop [OF assms(3) launch(3)] by (simp add: quiet_def)
next
  case (launchPanic i k p)
  then show ?thesis using assms(3) by (simp add: quiet_def)
next
  case (tick i)
  then show ?thesis using assms(3) quiet_loop [OF assms(3) tick(3)] by (simp add: quiet_def)
next
  case (update i)
  then show ?thesis using assms(3) quiet_loop [OF assms(3) update(3)] by (simp add: quiet_def)
next
  case (quit i k)
  then show ?thesis
    using assms(3) quiet_loop [OF assms(3) quit(3)] procInv_exit(2) [OF assms(2) quit(3)]
    by (simp add: quiet_def)
qed

lemma quiet_reachable:
  assumes "(emStep ce blib slib)\<^sup>*\<^sup>* s s'" "procInv s" "quiet s"
  shows "quiet s' \<and> (p_stop s = StopDone \<longrightarrow> p_emu s' = p_emu s \<and> p_stop s' = StopDone)"
  using assms(1,2)
proof (rule em.reach_with)
  show "quiet s \<and> (p_stop s = StopDone \<longrightarrow> p_emu s = p_emu s \<and> p_stop s = StopDone)"
    using assms(3) by simp
next
  fix t u
  assume "emStep ce blib slib t u" "procInv t"
    "quiet t \<and> (p_stop s = StopDone \<longrightarrow> p_emu t = p_emu s \<and> p_stop t = StopDone)"
  with quiet_step [of ce blib slib t u]
  show "quiet u \<and> (p_stop s = StopDone \<longrightarrow> p_emu u = p_emu s \<and> p_stop u = StopDone)" by auto
qed

text \<open>A loop that hangs never exits, so the wait group never gets to zero.\<close>

definition hung :: "'w proc \<Rightarrow> bool" where
  "hung s \<longleftrightarrow> (\<exists>l \<in> set (p_loops s). snd l = Stuck)"

lemma hung_setPhase:
  assumes "hung s" "loopIs s i k ph" "ph \<noteq> Stuck"
  shows "hung (setPhase i ph' s)"
proof -
  obtain j where j: "j < length (p_loops s)" "snd (p_loops s ! j) = Stuck"
    using assms(1) by (auto simp: hung_def in_set_conv_nth)
  then have "j \<noteq> i" using assms(2,3) by (auto simp: loopIs_def)
  with j have "j < length (p_loops (setPhase i ph' s))" "snd (p_loops (setPhase i ph' s) ! j) = Stuck"
    by (simp_all add: setPhase_def)
  then show ?thesis unfolding hung_def by (meson nth_mem)
qed

lemma hung_step:
  assumes "emStep ce blib slib s s'" "procInv s" "hung s" "p_stop s \<noteq> StopDone"
  shows "hung s' \<and> p_stop s' \<noteq> StopDone"
  using assms(1)
proof cases
  case start
  then show ?thesis using assms(3,4) by (auto simp: hung_def Start_def)
next
  case stop
  then show ?thesis using assms(3,4) by (auto simp: hung_def StopCall_def)
next
  case stopReturn
  then show ?thesis using assms(2,3) by (auto simp: procInv_def running_0_iff hung_def)
next
  case (launch i k)
  then show ?thesis using assms(4) hung_setPhase [OF assms(3) launch(3)] by simp
next
  case (launchPanic i k p)
  then show ?thesis using assms(3,4) by (simp add: hung_def)
next
  case (tick i)
  have "hung (afterTick i out s)" for out
    using assms(3) hung_setPhase [OF assms(3) tick(3)]
    by (auto simp: afterTick_def hung_def split: option.splits result.splits)
  then show ?thesis using tick assms(4) by simp
next
  case (update i)
  have "hung (afterTick i out s)" for out
    using assms(3) hung_setPhase [OF assms(3) update(3)]
    by (auto simp: afterTick_def hung_def split: option.splits result.splits)
  then show ?thesis using update assms(4) by simp
next
  case (quit i k)
  then show ?thesis
    using assms(4) hung_setPhase [OF assms(3) quit(3), of Exited] procInv_exit(2) [OF assms(2) quit(3)]
    by (simp add: hung_def)
qed

lemma hung_reachable:
  assumes "(emStep ce blib slib)\<^sup>*\<^sup>* s s'" "procInv s" "hung s" "p_stop s \<noteq> StopDone"
  shows "hung s' \<and> p_stop s' \<noteq> StopDone"
  using assms(1,2)
  by (rule em.reach_with [where P = "\<lambda>s. hung s \<and> p_stop s \<noteq> StopDone"]) (use assms(3,4) hung_step in blast)+

text \<open>Without one, every loop can leave in at most two steps.\<close>

definition phaseWork :: "phase \<Rightarrow> nat" where
  "phaseWork ph = (case ph of Launched \<Rightarrow> 2 | Selecting \<Rightarrow> 1 | _ \<Rightarrow> 0)"

definition work :: "'w proc \<Rightarrow> nat" where
  "work s = sum_list (map (\<lambda>l. phaseWork (snd l)) (p_loops s))"

lemma work_setPhase:
  "loopIs s i k ph \<Longrightarrow> phaseWork ph' < phaseWork ph \<Longrightarrow> work (setPhase i ph' s) < work s"
proof -
  assume a: "loopIs s i k ph" "phaseWork ph' < phaseWork ph"
  let ?ls = "map (\<lambda>l. phaseWork (snd l)) (p_loops s)"
  have i: "i < length ?ls" "?ls ! i = phaseWork ph" using a(1) by (simp_all add: loopIs_def)
  have "sum_list (?ls[i := phaseWork ph']) + phaseWork ph = sum_list ?ls + phaseWork ph'"
    using sum_list_update [OF i(1), of "phaseWork ph'"] i elem_le_sum_list [OF i(1)] by simp
  moreover have "work (setPhase i ph' s) = sum_list (?ls[i := phaseWork ph'])"
    by (simp add: work_def setPhase_def map_update)
  ultimately show "work (setPhase i ph' s) < work s" using a(2) by (simp add: work_def)
qed

lemma not_hung_setPhase: "\<not> hung s \<Longrightarrow> ph \<noteq> Stuck \<Longrightarrow> \<not> hung (setPhase i ph s)"
  by (auto simp: hung_def setPhase_def dest!: set_update_subset_insert [THEN subsetD])

lemma stop_progress:
  assumes inv: "procInv s" "p_crash s = None" "p_stop s = StopWaiting" "\<not> hung s"
    and launch: "\<And>k. launchLoop (em_config ce) k = Ok ()"
    and wait: "p_wg s \<noteq> 0"
  obtains s1 where "emStep ce blib slib s s1" "procInv s1" "p_crash s1 = None" "p_stop s1 = StopWaiting"
    "\<not> hung s1" "work s1 < work s" "p_emu s1 = p_emu s"
proof -
  have "\<exists>l \<in> set (p_loops s). snd l \<noteq> Exited"
    using inv(1) wait running_0_iff [of "p_loops s"] by (simp add: procInv_def)
  then obtain i k ph where i: "loopIs s i k ph" "ph \<noteq> Exited"
    by (auto simp: loopIs_def in_set_conv_nth)
  moreover have "ph \<noteq> Stuck" using i inv(4) by (auto simp: loopIs_def hung_def) (metis nth_mem snd_conv)
  ultimately consider "ph = Launched" | "ph = Selecting" by (cases ph) auto
  then show thesis
  proof cases
    case 1
    have "emStep ce blib slib s (setPhase i Selecting s)"
      using emStep.launch [OF inv(2)] i(1) 1 launch by blast
    then show thesis
      using that [of "setPhase i Selecting s"] inv 1 i procInv_setPhase [OF inv(1) i(1)]
        work_setPhase [OF i(1), of Selecting] not_hung_setPhase [of s Selecting i]
      by (simp add: phaseWork_def)
  next
    case 2
    have q: "p_quit s" using inv(1,3) by (simp add: procInv_def)
    have i': "loopIs s i k Selecting" using i(1) 2 by simp
    note e = procInv_exit [OF inv(1) i']
    have "work (setPhase i Exited s) < work s" "\<not> hung (setPhase i Exited s)"
      using work_setPhase [OF i', of Exited] not_hung_setPhase [OF inv(4), of Exited i]
      by (simp_all add: phaseWork_def)
    then have "work (exitLoop i s) < work s" "\<not> hung (exitLoop i s)"
      unfolding e(2) by (simp_all add: work_def hung_def)
    with that [OF emStep.quit [OF inv(2) i' q] e(1)] show thesis
      using inv by (simp add: e(2))
  qed
qed

lemma stop_reachable:
  assumes "procInv s" "p_crash s = None" "p_stop s = StopWaiting" "\<not> hung s"
    and launch: "\<And>k. launchLoop (em_config ce) k = Ok ()"
  shows "\<exists>s'. (emStep ce blib slib)\<^sup>*\<^sup>* s s' \<and> p_stop s' = StopDone \<and> p_emu s' = p_emu s"
  using assms(1-4)
proof (induction "work s" arbitrary: s rule: less_induct)
  case less
  show ?case
  proof (cases "p_wg s = 0")
    case True
    then have "emStep ce blib slib s (s\<lparr>p_stop := StopDone\<rparr>)"
      using emStep.stopReturn less.prems by blast
    then show ?thesis by (intro exI [of _ "s\<lparr>p_stop := StopDone\<rparr>"]) auto
  next
    case False
    obtain s1 where s1: "emStep ce blib slib s s1" "procInv s1" "p_crash s1 = None" "p_stop s1 = StopWaiting"
      "\<not> hung s1" "work s1 < work s" "p_emu s1 = p_emu s"
      using stop_progress [OF less.prems launch False, where blib = blib and slib = slib] .
    from less.hyps [OF s1(6) s1(2-5)] obtain s' where
      "(emStep ce blib slib)\<^sup>*\<^sup>* s1 s'" "p_stop s' = StopDone" "p_emu s' = p_emu s1" by blast
    with s1(1,7) show ?thesis by (intro exI [of _ s']) (simp add: converse_rtranclp_into_rtranclp)
  qed
qed

section \<open>Lemmas: the server\<close>

definition mainInv :: "'w Emulator \<Rightarrow> 'w daemon \<Rightarrow> bool" where
  "mainInv ce d \<longleftrightarrow> procInv (d_proc d) \<and>
     (case d_main d of
        MainInit \<Rightarrow> \<not> p_startOnce (d_proc d) \<and> p_stop (d_proc d) = StopNotCalled
          \<and> (p_crash (d_proc d) = None \<longrightarrow> d_started d = 0)
      | MainServing \<Rightarrow> p_startOnce (d_proc d) \<and> p_stop (d_proc d) = StopNotCalled
          \<and> (\<exists>ps. d_prom d = Some ps \<and> PS_readinessChecker ps = Some (CheckReadiness ce) \<and> \<not> PS_quit ps)
      | MainStopping \<Rightarrow> p_startOnce (d_proc d) \<and> p_stop (d_proc d) = StopWaiting
          \<and> (\<exists>ps. d_prom d = Some ps \<and> PS_quit ps)
      | MainReturned (Ok _) \<Rightarrow> p_startOnce (d_proc d) \<and> p_stop (d_proc d) = StopDone
          \<and> (\<exists>ps. d_prom d = Some ps \<and> PS_quit ps)
          \<and> (\<forall>l \<in> set (p_loops (d_proc d)). snd l = Exited)
      | MainReturned _ \<Rightarrow> \<not> p_startOnce (d_proc d))"

lemma CheckReadiness_flags:
  "CheckReadiness ce s = (r, s') \<Longrightarrow> \<exists>e. s' = s\<lparr>p_emu := e\<rparr>"
  by (auto simp: CheckReadiness_def split: if_splits prod.splits intro: exI [of _ "p_emu s"])

lemma procInv_emu [simp]: "procInv (s\<lparr>p_emu := e\<rparr>) = procInv s" "procInv (s\<lparr>p_crash := c\<rparr>) = procInv s"
  by (simp_all add: procInv_def)

lemma exited_stays:
  "emStep ce blib slib s s' \<Longrightarrow> procInv s \<Longrightarrow> p_startOnce s \<Longrightarrow> p_stop s = StopDone \<Longrightarrow>
   (\<forall>l \<in> set (p_loops s). snd l = Exited) \<Longrightarrow> (\<forall>l \<in> set (p_loops s'). snd l = Exited)"
  using quiet_step [of ce blib slib s s'] by (auto simp: quiet_def)

lemma mainInv_run:
  assumes "mainInv ce d" "d_main d = MainInit" "p_crash (d_proc d) = None"
  shows "mainInv ce (RunUntilShutdown ce d)"
proof -
  have d: "procInv (d_proc d)" "\<not> p_startOnce (d_proc d)" "d_started d = 0"
    and stop: "p_stop (d_proc d) = StopNotCalled"
    using assms by (simp_all add: mainInv_def)
  let ?r = "bindR (derefR (Cfg_Metrics (em_config ce))) (\<lambda>m. bindR (Address m) (\<lambda>addr.
      SetReadinessChecker (CheckReadiness ce) (NewPrometheusServer addr (Metrics_UpdateInterval m))))"
  show ?thesis
  proof (cases ?r)
    case (Ok ps)
    then have "PS_readinessChecker ps = Some (CheckReadiness ce)" "\<not> PS_quit ps"
      by (auto simp: act_simps SetReadinessChecker_def NewPrometheusServer_def split: if_splits)
    with Ok show ?thesis using d stop procInv_calls(1) [OF d(1)]
      by (simp add: RunUntilShutdown_def mainInv_def Start_def)
  qed (use d stop assms in \<open>simp_all add: RunUntilShutdown_def mainInv_def\<close>)
qed

lemma readiness_only_world:
  assumes "readinessHandler ps s = (r, s')" "PS_readinessChecker ps = Some (CheckReadiness ce)"
  shows "\<exists>e. s' = s\<lparr>p_emu := e\<rparr>"
proof -
  obtain q t where q: "CheckReadiness ce s = (q, t)" by fastforce
  from CheckReadiness_flags [OF this] obtain e where "t = s\<lparr>p_emu := e\<rparr>" ..
  with assms q show ?thesis by (cases q) (auto simp: readinessHandler_def)
qed

lemma mainInv_step:
  assumes "daemonStep ce blib slib d d'" "mainInv ce d"
  shows "mainInv ce d'"
  using assms(1)
proof cases
  case run
  then show ?thesis using mainInv_run [OF assms(2)] by simp
next
  case (promFails ps err p)
  then show ?thesis using assms(2) by (auto simp: mainInv_def)
next
  case (health ps r s)
  then have "PS_readinessChecker ps = Some (CheckReadiness ce)" using assms(2) by (simp add: mainInv_def)
  from readiness_only_world [OF health(5) this] obtain e where "s = (d_proc d)\<lparr>p_emu := e\<rparr>" ..
  with health assms(2) show ?thesis by (simp add: mainInv_def)
next
  case (loop s)
  have s: "procInv s" using procInv_step [OF loop(3)] assms(2) by (simp add: mainInv_def)
  show ?thesis
    using loop assms(2) s exited_stays [OF loop(3)]
    by (auto simp: mainInv_def split: mainPhase.splits result.splits)
next
  case (shutdown ps ps')
  then show ?thesis using assms(2) procInv_calls(2) [of "d_proc d"]
    by (auto simp: mainInv_def StopCall_def PrometheusStop_def)
next
  case (shutdownPanic ps p)
  then show ?thesis using assms(2) by (simp add: mainInv_def)
next
  case return
  then have d: "procInv (d_proc d)" "p_startOnce (d_proc d)" "p_stop (d_proc d) = StopWaiting"
    "\<exists>ps. d_prom d = Some ps \<and> PS_quit ps"
    using assms(2) by (simp_all add: mainInv_def)
  then have "\<forall>l \<in> set (p_loops (d_proc d)). snd l = Exited"
    using return running_0_iff [of "p_loops (d_proc d)"] by (simp add: procInv_def)
  with return d show ?thesis by (simp add: mainInv_def procInv_def)
qed

interpretation dm: step_invariant "daemonStep ce blib slib" "mainInv ce"
  for ce blib slib
  by unfold_locales (rule mainInv_step)

lemma mainInv_init: "mainInv ce (daemonInit e)"
  using procInv_init [of e] by (simp add: mainInv_def daemonInit_def) (simp add: procInit_def)

text \<open>The channel of the metrics server is closed once.\<close>

lemma prom_stops_once:
  assumes "(daemonStep ce blib slib)\<^sup>*\<^sup>* (daemonInit e) d" "d_main d = MainServing" "d_prom d = Some ps"
  shows "PrometheusStop ps = Ok (ps\<lparr>PS_quit := True\<rparr>)"
  using dm.reach [OF assms(1) mainInv_init] assms(2,3) by (simp add: mainInv_def PrometheusStop_def)

section \<open>Lemmas: before the start\<close>

text \<open>An emulator that was never started reports to be ready when the signer answers.\<close>

lemma ready_before_start:
  assumes "Signer_PubKey (em_signer ce) (world e) = (Ok pk, w)"
  shows "CheckReadiness ce (procInit e) = (Ok (), (procInit e)\<lparr>p_emu := e\<lparr>world := w\<rparr>\<rparr>)"
  using assms by (simp add: CheckReadiness_def procInit_def onWorld_def)

text \<open>Validation accepts an interval of zero, with which the process ends right after the start.\<close>

lemma zero_interval_crashes:
  assumes "Validate nets cfg = Ok (em_config ce)" "QueryInterval cfg \<le> 0"
  shows "\<exists>s. (emStep ce blib slib)\<^sup>*\<^sup>* (procInit e) s \<and> p_crash s = Some ''non-positive interval for NewTicker''"
proof -
  let ?s0 = "procInit e" and ?msg = "''non-positive interval for NewTicker''"
  have "QueryInterval (em_config ce) \<le> 0" using assms by (auto simp: Validate_Ok_iff)
  then have p: "launchLoop (em_config ce) SubmissionLoop = Panic ?msg"
    by (simp add: launchLoop_def loopInterval_def NewTicker_def)
  have "emStep ce blib slib ?s0 (Start ?s0)" by (rule emStep.start) (simp add: procInit_def)
  moreover have "emStep ce blib slib (Start ?s0) ((Start ?s0)\<lparr>p_crash := Some ?msg\<rparr>)"
    by (rule emStep.launchPanic [OF _ _ p, of _ 0]) (simp_all add: procInit_def Start_def loopIs_def)
  ultimately have "(emStep ce blib slib)\<^sup>*\<^sup>* ?s0 ((Start ?s0)\<lparr>p_crash := Some ?msg\<rparr>)" by (meson r_into_rtranclp rtranclp_trans)
  then show ?thesis by (intro exI [of _ "(Start ?s0)\<lparr>p_crash := Some ?msg\<rparr>"]) simp
qed

section \<open>Properties\<close>

definition sample_daemon_ce :: "unit Emulator" where
  "sample_daemon_ce = (sample_ce submit_ok)\<lparr>em_config := sample_config\<lparr>Cfg_Metrics := Some DefaultMetricsConfig\<rparr>\<rparr>"

definition sample_loops :: "phase \<Rightarrow> (loopKind \<times> phase) list" where
  "sample_loops ph = [(SubmissionLoop, ph), (MetricsLoop, ph)]"

lemma sample_launch: "launchLoop (em_config sample_daemon_ce) k = Ok ()"
  by (cases k) (simp_all add: launchLoop_def loopInterval_def NewTicker_def sample_daemon_ce_def sample_config_def
      DefaultMetricsConfig_def Millisecond_def Nanosecond_def)

definition sample_serving :: "unit proc" where
  "sample_serving = (procInit sample_state)\<lparr>p_loops := sample_loops Selecting, p_wg := 2, p_startOnce := True\<rparr>"

definition sample_waiting :: "unit proc" where
  "sample_waiting = sample_serving\<lparr>p_stop := StopWaiting, p_quit := True\<rparr>"

lemma serving_reachable:
  assumes launch: "\<And>k. launchLoop (em_config ce) k = Ok ()"
  shows "(emStep ce blib slib)\<^sup>*\<^sup>* (procInit sample_state) sample_serving"
proof -
  let ?s0 = "procInit sample_state"
  let ?s1 = "Start ?s0" and ?s2 = "setPhase 0 Selecting (Start ?s0)"
  have "emStep ce blib slib ?s0 ?s1" by (rule emStep.start) (simp add: procInit_def)
  moreover have "emStep ce blib slib ?s1 ?s2"
    by (rule emStep.launch [OF _ _ launch]) (simp_all add: procInit_def Start_def loopIs_def)
  moreover have "emStep ce blib slib ?s2 (setPhase 1 Selecting ?s2)"
    by (rule emStep.launch [OF _ _ launch]) (simp_all add: procInit_def Start_def loopIs_def setPhase_def)
  moreover have "setPhase 1 Selecting ?s2 = sample_serving"
    by (simp add: sample_serving_def procInit_def Start_def setPhase_def sample_loops_def)
  ultimately show ?thesis
    by (metis (no_types) converse_rtranclp_into_rtranclp rtranclp.rtrancl_refl)
qed

lemmas sample_serving_reachable = serving_reachable [OF sample_launch]

lemma sample_waiting_step: "emStep sample_daemon_ce blib slib sample_serving sample_waiting"
proof -
  have "sample_waiting = StopCall sample_serving"
    by (simp add: sample_waiting_def StopCall_def sample_serving_def procInit_def)
  then show ?thesis using emStep.stop [of sample_serving] by (simp add: sample_serving_def procInit_def)
qed

lemma sample_waiting_facts:
  "p_startOnce sample_waiting" "p_stop sample_waiting = StopWaiting" "p_crash sample_waiting = None"
  "\<forall>l \<in> set (p_loops sample_waiting). snd l \<noteq> Stuck"
  by (simp_all add: sample_waiting_def sample_serving_def procInit_def sample_loops_def)

text \<open>
  C34. Stopping is final. Once Stop has returned on an emulator that was started before, both
  loops have exited and, whatever is called afterwards, the state of the emulator never changes
  again: no signature is made or submitted after Stop.
\<close>

theorem stop_quiesces:
  assumes "(emStep ce blib slib)\<^sup>*\<^sup>* (procInit e) s0" and "p_startOnce s0" and "p_stop s0 \<noteq> StopDone"
    and "(emStep ce blib slib)\<^sup>*\<^sup>* s0 s1" and "p_stop s1 = StopDone" and "(emStep ce blib slib)\<^sup>*\<^sup>* s1 s2"
  shows "p_emu s2 = p_emu s1 \<and> (\<forall>l \<in> set (p_loops s2). snd l = Exited)"
proof -
  have inv: "procInv s0" "procInv s1"
    using em.reach [OF assms(1) procInv_init] em.reach [OF assms(4)] by blast+
  have "quiet s0" using assms(2,3) by (simp add: quiet_def)
  then have "quiet s1" using quiet_reachable [OF assms(4) inv(1)] by blast
  from quiet_reachable [OF assms(6) inv(2) this] assms(5) show ?thesis by (simp add: quiet_def)
qed

theorem stop_quiesces_witness:
  "\<exists>s1. (emStep sample_daemon_ce sample_blib sample_slib)\<^sup>*\<^sup>* sample_serving s1 \<and> p_stop s1 = StopDone
     \<and> (\<forall>l \<in> set (p_loops s1). snd l = Exited)"
proof -
  let ?step = "emStep sample_daemon_ce sample_blib sample_slib"
  have w: "?step\<^sup>*\<^sup>* sample_serving sample_waiting" using sample_waiting_step by (rule r_into_rtranclp)
  have inv: "procInv sample_waiting"
    using em.reach [OF rtranclp_trans [OF sample_serving_reachable w] procInv_init] .
  have "\<not> hung sample_waiting" using sample_waiting_facts(4) by (simp add: hung_def)
  from stop_reachable [OF inv sample_waiting_facts(3,2) this sample_launch] obtain s1
    where s1: "?step\<^sup>*\<^sup>* sample_waiting s1" "p_stop s1 = StopDone" by blast
  have "p_startOnce sample_serving" "p_stop sample_serving \<noteq> StopDone"
    by (simp_all add: sample_serving_def procInit_def)
  from stop_quiesces [OF sample_serving_reachable this rtranclp_trans [OF w s1(1)] s1(2) rtranclp.rtrancl_refl]
    rtranclp_trans [OF w s1(1)] s1(2)
  show ?thesis by blast
qed

text \<open>
  C35. Stop can always return. While it waits, as long as no loop hangs inside a tick and both
  tickers can be created, there is a way on that ends the wait without another tick: every loop can
  leave, and the wait group then is zero.
\<close>

theorem stop_returns:
  assumes "(emStep ce blib slib)\<^sup>*\<^sup>* (procInit e) s" and "p_crash s = None" and "p_stop s = StopWaiting"
    and "\<forall>l \<in> set (p_loops s). snd l \<noteq> Stuck" and "\<forall>k. launchLoop (em_config ce) k = Ok ()"
  shows "\<exists>s'. (emStep ce blib slib)\<^sup>*\<^sup>* s s' \<and> p_stop s' = StopDone \<and> p_emu s' = p_emu s"
proof -
  have "\<not> hung s" using assms(4) by (simp add: hung_def)
  with em.reach [OF assms(1) procInv_init] assms(2,3,5) show ?thesis by (intro stop_reachable) auto
qed

theorem stop_returns_witness:
  "\<exists>s'. (emStep sample_daemon_ce sample_blib sample_slib)\<^sup>*\<^sup>* sample_waiting s' \<and> p_stop s' = StopDone"
proof -
  have "(emStep sample_daemon_ce sample_blib sample_slib)\<^sup>*\<^sup>* (procInit sample_state) sample_waiting"
    using sample_serving_reachable sample_waiting_step by (rule rtranclp.rtrancl_into_rtrancl)
  from stop_returns [OF this sample_waiting_facts(3,2,4)] sample_launch show ?thesis by blast
qed

text \<open>
  A tick that never comes back makes Stop wait for ever: from then on no sequence of steps
  gets to a state in which Stop has returned.
\<close>

lemma stop_hangs:
  assumes "(emStep ce blib slib)\<^sup>*\<^sup>* (procInit e) s" and "p_stop s \<noteq> StopDone"
    and "loopIs s i SubmissionLoop Selecting" and "submissionTick ce blib slib (p_emu s) = None"
    and "(emStep ce blib slib)\<^sup>*\<^sup>* (afterTick i None s) s'"
  shows "p_stop s' \<noteq> StopDone"
proof -
  have inv: "procInv (afterTick i None s)"
    using em.reach [OF assms(1) procInv_init] assms(3) by (rule procInv_afterTick)
  have "i < length (p_loops s)" using assms(3) by (simp add: loopIs_def)
  then have "hung (afterTick i None s)"
    by (auto simp: hung_def afterTick_def setPhase_def intro!: bexI [of _ "(fst (p_loops s ! i), Stuck)"] set_update_memI)
  from hung_reachable [OF assms(5) inv this] assms(2) show ?thesis by simp
qed

definition sample_zero_ce :: "unit Emulator" where
  "sample_zero_ce = sample_daemon_ce\<lparr>em_config := (em_config sample_daemon_ce)\<lparr>SigsBatchSize := 0\<rparr>\<rparr>"

lemma sample_zero_tick: "submissionTick sample_zero_ce blib slib sample_state = None"
proof -
  have "SigsBatchSize (em_config sample_zero_ce) = 0" by (simp add: sample_zero_ce_def)
  then have "delegationsToBatches sample_zero_ce [sample_del] = None"
    unfolding delegationsToBatches_def by (simp add: batchLoop_zero_diverges)
  then show ?thesis
    by (simp add: submissionTick_def recorder_defs)
       (simp add: sample_zero_ce_def sample_daemon_ce_def sample_ce_def sample_cc_def)
qed

lemma stop_hangs_example:
  "\<not> (\<exists>s'. (emStep sample_zero_ce sample_blib sample_slib)\<^sup>*\<^sup>* (afterTick 0 None sample_serving) s'
     \<and> p_stop s' = StopDone)"
proof
  assume "\<exists>s'. (emStep sample_zero_ce sample_blib sample_slib)\<^sup>*\<^sup>* (afterTick 0 None sample_serving) s'
     \<and> p_stop s' = StopDone"
  then obtain s' where run: "(emStep sample_zero_ce sample_blib sample_slib)\<^sup>*\<^sup>* (afterTick 0 None sample_serving) s'"
    and stopped: "p_stop s' = StopDone" by blast
  have launch: "launchLoop (em_config sample_zero_ce) k = Ok ()" for k
    using sample_launch [of k] by (cases k) (simp_all add: sample_zero_ce_def launchLoop_def loopInterval_def)
  have "p_stop sample_serving \<noteq> StopDone" "loopIs sample_serving 0 SubmissionLoop Selecting"
    "p_emu sample_serving = sample_state"
    by (simp_all add: sample_serving_def procInit_def loopIs_def sample_loops_def)
  with stop_hangs [OF serving_reachable [OF launch] _ _ _ run] sample_zero_tick stopped
  show False by simp
qed

text \<open>
  C36. The daemon ends cleanly. When RunUntilShutdown has returned without an error, the emulator
  was started and stopped, both of its loops have exited and the metrics server was stopped; when it
  has returned with an error, no loop was ever started.
\<close>

theorem server_returns:
  assumes "(daemonStep ce blib slib)\<^sup>*\<^sup>* (daemonInit e) d" and "d_main d = MainReturned r"
  shows "if r = Ok ()
    then p_stop (d_proc d) = StopDone \<and> (\<exists>ps. d_prom d = Some ps \<and> PS_quit ps)
      \<and> map snd (p_loops (d_proc d)) = [Exited, Exited] \<and> p_wg (d_proc d) = 0
    else p_loops (d_proc d) = [] \<and> p_wg (d_proc d) = 0"
proof -
  have inv: "mainInv ce d" using dm.reach [OF assms(1) mainInv_init] .
  show ?thesis
  proof (cases "r = Ok ()")
    case True
    with inv assms(2) have d: "procInv (d_proc d)" "p_startOnce (d_proc d)" "p_stop (d_proc d) = StopDone"
      "\<forall>l \<in> set (p_loops (d_proc d)). snd l = Exited" "\<exists>ps. d_prom d = Some ps \<and> PS_quit ps"
      by (simp_all add: mainInv_def)
    then have "map fst (p_loops (d_proc d)) = [SubmissionLoop, MetricsLoop]" by (simp add: procInv_def)
    then obtain a b where "p_loops (d_proc d) = [(SubmissionLoop, a), (MetricsLoop, b)]"
      by (auto simp: map_eq_Cons_conv)
    with d running_0_iff [of "p_loops (d_proc d)"] True show ?thesis by (simp add: procInv_def)
  next
    case False
    with inv assms(2) have "procInv (d_proc d)" "\<not> p_startOnce (d_proc d)"
      by (cases r; simp add: mainInv_def)+
    with False show ?thesis by (simp add: procInv_def running_def)
  qed
qed

text \<open>A port out of range, which is refused before the start.\<close>

definition sample_bad_ce :: "unit Emulator" where
  "sample_bad_ce = sample_daemon_ce\<lparr>em_config :=
     sample_config\<lparr>Cfg_Metrics := Some (DefaultMetricsConfig\<lparr>Metrics_Port := -1\<rparr>)\<rparr>\<rparr>"

theorem server_returns_witness:
  "\<exists>d e. (daemonStep sample_bad_ce sample_blib sample_slib)\<^sup>*\<^sup>* (daemonInit sample_state) d
     \<and> d_main d = MainReturned (Err e) \<and> p_loops (d_proc d) = []"
proof -
  let ?d = "RunUntilShutdown sample_bad_ce (daemonInit sample_state)"
  have "daemonStep sample_bad_ce sample_blib sample_slib (daemonInit sample_state) ?d"
    by (rule daemonStep.run) (simp_all add: daemonInit_def procInit_def)
  then have run: "(daemonStep sample_bad_ce sample_blib sample_slib)\<^sup>*\<^sup>* (daemonInit sample_state) ?d"
    by (rule r_into_rtranclp)
  obtain e where "d_main ?d = MainReturned (Err e)"
    by (simp add: RunUntilShutdown_def daemonInit_def sample_bad_ce_def Address_def ValidateMetrics_def)
  with server_returns [OF run] run show ?thesis by fastforce
qed

end
