(* ===== verification/Composition.thy ===== *)
theory Composition
  imports Controller Lifecycle
begin

text \<open>
  The emulator with the Babylon controller as its client: what a tick of the submission loop sends to
  the chain. The messages are collected by the sender of \<open>BatchSend\<close> that keeps a log of the
  batches; the other parties outside, the signer included, do not write to it.

  The lemmas carry an invariant of the outside world, any that the parties keep, through signing,
  filtering, the paginated query and the submission, together with what is in the log.
\<close>

section \<open>Invariants of the outside world\<close>

text \<open>Every action of the parties outside, except the submission, keeps the predicate.\<close>

definition outside_keeps :: "'w Emulator \<Rightarrow> ('w \<Rightarrow> bool) \<Rightarrow> bool" where
  "outside_keeps ce J \<longleftrightarrow>
     (\<forall>req. keeps J (Signer_SignTransactions (em_signer ce) req))
     \<and> (\<forall>h. keeps J (CC_QueryBTCDelegation (em_cc ce) h))
     \<and> (\<forall>v. keeps J (em_retryDo ce RtyAttNum (CC_QueryStakingParamsByVersion (em_cc ce) v)))
     \<and> (\<forall>w. J w \<longrightarrow> J (snd (em_clock ce w)))"

declare keeps_onWorld [keeps_intros del] keeps_emGet [keeps_intros del]

lemma keeps_world [keeps_intros]: "keeps J m \<Longrightarrow> keeps (\<lambda>s. J (world s)) (onWorld m)"
  by (rule keepsI) (auto simp: onWorld_def split: prod.splits dest: keepsD)

lemma keeps_world_modify [keeps_intros]:
  "(\<And>s. world (f s) = world s) \<Longrightarrow> keeps (\<lambda>s. J (world s)) (modifyS f)"
  by (rule keeps_modifyS) simp

lemma keeps_clock:
  "outside_keeps ce J \<Longrightarrow> keeps J (\<lambda>w. (Ok (fst (em_clock ce w)), snd (em_clock ce w)))"
  by (rule keepsI) (auto simp: outside_keeps_def)

lemma keeps_world_emGet:
  assumes "outside_keeps ce J"
  shows "keeps (\<lambda>s. J (world s)) (emGet ce v)"
proof (rule keepsI)
  fix s r s'
  assume J: "J (world s)" and eq: "emGet ce v s = (r, s')"
  show "J (world s')"
  proof (cases "paramsByVersion s v")
    case (Some p)
    with eq J show ?thesis by (simp add: emGet_def Get_def)
  next
    case None
    obtain q w where q: "em_retryDo ce RtyAttNum (CC_QueryStakingParamsByVersion (em_cc ce) v) (world s) = (q, w)"
      by fastforce
    then have "J w" using assms J by (auto simp: outside_keeps_def dest: keepsD)
    moreover have "world s' = w"
      using eq None q by (cases q) (auto simp: emGet_def Get_def getParamsByVersion_def onWorld_def)
    ultimately show ?thesis by simp
  qed
qed

section \<open>Signing and filtering\<close>

lemma keeps_world_SignTransactions:
  "outside_keeps ce J \<Longrightarrow> keeps (\<lambda>s. J (world s)) (SignTransactions ce req)"
  unfolding SignTransactions_def timeNow_def timeSince_def recorder_defs
  by (intro keeps_intros keeps_clock) (auto simp: outside_keeps_def)

lemma keeps_world_buildStkExp:
  "outside_keeps ce J \<Longrightarrow> keeps (\<lambda>s. J (world s)) (buildStkExpSigningRequest ce blib slib d)"
  unfolding buildStkExpSigningRequest_def recorder_defs
  by (intro keeps_intros keeps_world_emGet) (auto simp: outside_keeps_def)

lemma keeps_world_signDelegation:
  assumes "outside_keeps ce J"
  shows "keeps (\<lambda>s. J (world s)) (signDelegation ce blib slib d)"
proof -
  have skip: "keeps (\<lambda>s. J (world s)) (skipDelegation msg)" for msg
    unfolding skipDelegation_def logError_def by (intro keeps_intros) auto
  show ?thesis
    unfolding signDelegation_def stakeExpRequest_def
    by (intro keeps_intros skip keeps_world_SignTransactions keeps_world_buildStkExp keeps_world_emGet assms)
qed

lemma keeps_world_signDelegations:
  assumes "outside_keeps ce J"
  shows "keeps (\<lambda>s. J (world s)) (signDelegations ce blib slib ds)"
proof (induction ds)
  case Nil
  show ?case unfolding signDelegations.simps by (rule keeps_returnS)
next
  case (Cons d ds)
  then show ?case
    unfolding signDelegations.simps by (intro keeps_intros keeps_world_signDelegation assms)
qed

text \<open>
  As \<open>signedFor\<close>, with what was known of the world when the signer was asked: an invariant that all
  parties keep.
\<close>

definition signedIn ::
  "('w \<Rightarrow> bool) \<Rightarrow> 'w Emulator \<Rightarrow> btclib \<Rightarrow> stakinglib \<Rightarrow> Delegation option \<Rightarrow> CovenantSigs \<Rightarrow> bool" where
  "signedIn J ce blib slib btcDel sigs \<longleftrightarrow>
     (\<exists>del undel params req stkExp resp w w'.
        btcDel = Some del \<and> BtcUndelegation del = Some undel
        \<and> (\<exists>t t'. emGet ce (ParamsVersion del) t = (Ok params, t'))
        \<and> meetsParams params del undel
        \<and> requestFor slib (BTCNetParams (em_config ce)) params del undel req
        \<and> (\<exists>t t'. stakeExpRequest ce blib slib del t = (Ok stkExp, t'))
        \<and> J w \<and> Signer_SignTransactions (em_signer ce) (req\<lparr>Req_StakeExp := stkExp\<rparr>) w = (Ok resp, w')
        \<and> sigs = \<lparr>CS_PublicKey = em_pk ce, CS_StakingTxHash = TxHash blib (Req_StakingTx req),
            CS_SlashingSigs = SlashSigs resp, CS_UnbondingSig = UnbondingSig resp,
            CS_SlashingUnbondingSigs = SlashUnbondingSigs resp, CS_StkExpSig = StkExtSig resp\<rparr>)"

lemma signedIn_signedFor: "signedIn J ce blib slib btcDel sigs \<Longrightarrow> signedFor ce blib slib btcDel sigs"
  unfolding signedIn_def signedFor_def by blast

lemma signedIn_mono:
  "signedIn J ce blib slib btcDel sigs \<Longrightarrow> (\<And>w. J w \<Longrightarrow> K w) \<Longrightarrow> signedIn K ce blib slib btcDel sigs"
  unfolding signedIn_def by blast

lemma keeps_world_stakeExp:
  "outside_keeps ce J \<Longrightarrow> keeps (\<lambda>s. J (world s)) (stakeExpRequest ce blib slib del)"
  unfolding stakeExpRequest_def by (intro keeps_intros keeps_world_buildStkExp)

lemma signDelegation_signedIn:
  assumes out: "outside_keeps ce J" and J: "J (world s)"
    and "signDelegation ce blib slib btcDel s = (Ok (Some sigs), s')"
  shows "signedIn J ce blib slib btcDel sigs"
  using assms(3)
proof (cases rule: signDelegation_SomeE)
  case (1 del undel params req stkExp resp t0 t1)
  have "J (world t0)" using keeps_world_emGet [OF out] J 1(3) by (rule keepsD)
  with keeps_world_stakeExp [OF out] have "J (world t1)" using 1(5) by (rule keepsD)
  then have "J (snd (em_clock ce (world t1)))" using out by (simp add: outside_keeps_def)
  with SignTransactions_Ok [OF 1(6)] obtain w w' where
    "J w" "Signer_SignTransactions (em_signer ce) (req\<lparr>Req_StakeExp := stkExp\<rparr>) w = (Ok resp, w')" by metis
  with 1 show ?thesis
    unfolding signedIn_def checkDelegation_Ok_iff [OF 1(2)] by blast
qed

lemma signDelegations_signedIn:
  assumes "outside_keeps ce J" "J (world s)" "signDelegations ce blib slib dels s = (Ok sigs, s')"
  shows "\<exists>ds. subseq ds dels \<and> list_all2 (signedIn J ce blib slib) ds sigs"
  using assms(2,3)
proof (induction dels arbitrary: s sigs s')
  case Nil
  then have "list_all2 (signedIn J ce blib slib) [] sigs" by simp
  then show ?case by blast
next
  case (Cons d dels)
  then obtain o1 t rest t' where 1: "signDelegation ce blib slib d s = (Ok o1, t)"
    and 2: "signDelegations ce blib slib dels t = (Ok rest, t')"
    and sigs: "sigs = (case o1 of None \<Rightarrow> rest | Some cs \<Rightarrow> cs # rest)"
    by (auto simp: act_simps)
  have "J (world t)" using keeps_world_signDelegation [OF assms(1)] Cons.prems(1) 1 by (rule keepsD)
  from Cons.IH [OF this 2] obtain ds where ds: "subseq ds dels" "list_all2 (signedIn J ce blib slib) ds rest"
    by blast
  show ?case
  proof (cases o1)
    case None
    with ds sigs show ?thesis by (auto intro: exI [of _ ds])
  next
    case (Some cs)
    with 1 Cons.prems(1) assms(1) have "signedIn J ce blib slib d cs" by (auto intro: signDelegation_signedIn)
    with ds sigs Some have "subseq (d # ds) (d # dels) \<and> list_all2 (signedIn J ce blib slib) (d # ds) sigs"
      by simp
    then show ?thesis by blast
  qed
qed

lemma keeps_world_accept:
  assumes "outside_keeps ce J"
  shows "keeps (\<lambda>s. J (world s)) (emAcceptDelegationToSign ce blib slib del)"
proof -
  have "keeps J (CC_QueryBTCDelegation (em_cc ce) h)" for h using assms by (simp add: outside_keeps_def)
  then show ?thesis
    unfolding emAcceptDelegationToSign_def acceptDelegationToSign_def AcceptDelegationToSign_def
      ValidateStakeExpansion_def IsKeyInCommittee_def
    by (intro keeps_intros keeps_world_emGet [OF assms])
qed

section \<open>The query\<close>

lemma keeps_scanPage:
  assumes "\<forall>f d. flt = Some f \<longrightarrow> keeps I (f d)"
  shows "keeps I (scanPage lib flt n dels i page)"
proof (induction page arbitrary: dels i)
  case (Cons r page)
  have "keeps I (case flt of None \<Rightarrow> returnS True | Some f \<Rightarrow> f d)" for d
    using assms by (cases flt) (auto intro: keeps_returnS)
  then show ?case
    unfolding scanPage.simps by (intro keeps_bindS keeps_liftR keeps_if keeps_returnS Cons.IH)
next
  case Nil
  show ?case unfolding scanPage.simps by (rule keeps_returnS)
qed

lemma scanStep_keeps:
  assumes "\<forall>pr. keeps I (Client_BTCDelegations bbn st pr)" "\<forall>f d. flt = Some f \<longrightarrow> keeps I (f d)" "I s"
  shows "case scanStep bbn lib flt st pg n key dels i s of Inl (r, s') \<Rightarrow> I s' | Inr (k, ds, j, s') \<Rightarrow> I s'"
proof -
  obtain q s1 where q: "Client_BTCDelegations bbn st \<lparr>PR_Key = key, PR_Limit = pg\<rparr> s = (q, s1)" by fastforce
  have s1: "I s1" using keepsD [OF assms(1) [rule_format] assms(3) q] .
  show ?thesis
  proof (cases q)
    case (Ok res)
    obtain out s2 where out: "scanPage lib flt n dels i (BtcDelegations res) s1 = (out, s2)" by fastforce
    have "keeps I (scanPage lib flt n dels i (BtcDelegations res))"
      using assms(2) by (rule keeps_scanPage)
    then have "I s2" using s1 out by (rule keepsD)
    with q Ok out show ?thesis
      by (auto simp: scanStep_def split: result.splits sum.splits prod.splits option.splits if_splits)
  qed (use q s1 in \<open>simp_all add: scanStep_def\<close>)
qed

lemma keeps_queryDelegations:
  assumes "\<forall>pr. keeps I (Client_BTCDelegations bbn st pr)" "\<forall>f d. flt = Some f \<longrightarrow> keeps I (f d)" "I s"
    and run: "queryDelegationsWithStatus bbn lib st n flt s = Some (r, s')"
  shows "I s'"
proof -
  have "case (r, s') of (r, s') \<Rightarrow> I s'"
    using run unfolding queryDelegationsWithStatus_def
  proof (rule scanPages_rule [where I = "\<lambda>key dels i s. I s" and Q = "\<lambda>(r, s'). I s'"])
    show "I s" by (rule assms)
  next
    fix key dels i s key' dels' i' s'
    assume "I s" "scanStep bbn lib flt st (min MaxPaginationLimit n) n key dels i s = Inr (key', dels', i', s')"
    with scanStep_keeps [where I = I and lib = lib and pg = "min MaxPaginationLimit n" and n = n and key = key and dels = dels and i = i and s = s, OF assms(1,2)] show "I s'" by simp
  next
    fix key dels i s and r :: "Delegation list result \<times> 'a"
    assume "I s" "scanStep bbn lib flt st (min MaxPaginationLimit n) n key dels i s = Inl r"
    with scanStep_keeps [where I = I and lib = lib and pg = "min MaxPaginationLimit n" and n = n and key = key and dels = dels and i = i and s = s, OF assms(1,2)] show "case r of (r, s') \<Rightarrow> I s'" by simp
  qed simp
  then show ?thesis by simp
qed


section \<open>The messages sent\<close>

text \<open>
  The outside world with the log of the batches sent. What does not write to the log is silent.
\<close>

definition silent :: "('l \<times> 'u, 'a) act \<Rightarrow> bool" where
  "silent m \<longleftrightarrow> (\<forall>w. fst (snd (m w)) = fst w)"

definition outside_silent ::
  "('l \<times> 'u) Emulator \<Rightarrow> ('l \<times> 'u) bbnclient \<Rightarrow> (string \<Rightarrow> ('l \<times> 'u, KeyRecord) act) \<Rightarrow> bool" where
  "outside_silent ce bbn getKey \<longleftrightarrow>
     (\<forall>req. silent (Signer_SignTransactions (em_signer ce) req)) \<and> silent (Signer_PubKey (em_signer ce))
     \<and> silent (Client_BTCCheckpointParams bbn)
     \<and> (\<forall>v. silent (Client_BTCStakingParamsByVersion bbn v))
     \<and> (\<forall>h. silent (Client_BTCDelegation bbn h))
     \<and> (\<forall>st pr. silent (Client_BTCDelegations bbn st pr))
     \<and> (\<forall>k. silent (getKey k))
     \<and> (\<forall>w. fst (snd (em_clock ce w)) = fst w)
     \<and> (\<forall>n m. silent m \<longrightarrow> silent (em_retryDo ce n m))"

lemma silent_iff_keeps: "silent m \<longleftrightarrow> (\<forall>l. keeps (\<lambda>w. fst w = l) m)"
  by (auto simp: silent_def keeps_def)

lemma keeps_silent: "silent m \<Longrightarrow> keeps (\<lambda>w. J (fst w)) m"
  by (rule keepsI) (metis silent_def snd_conv)

text \<open>Every action of the parties outside, except that of the sender, keeps the predicate.\<close>

definition parties_keep ::
  "('w \<Rightarrow> bool) \<Rightarrow> 'w Emulator \<Rightarrow> 'w bbnclient \<Rightarrow> (string \<Rightarrow> ('w, KeyRecord) act) \<Rightarrow> bool" where
  "parties_keep K ce bbn getKey \<longleftrightarrow>
     (\<forall>req. keeps K (Signer_SignTransactions (em_signer ce) req)) \<and> keeps K (Signer_PubKey (em_signer ce))
     \<and> keeps K (Client_BTCCheckpointParams bbn)
     \<and> (\<forall>v. keeps K (Client_BTCStakingParamsByVersion bbn v))
     \<and> (\<forall>h. keeps K (Client_BTCDelegation bbn h))
     \<and> (\<forall>st pr. keeps K (Client_BTCDelegations bbn st pr))
     \<and> (\<forall>k. keeps K (getKey k))
     \<and> (\<forall>w. K w \<longrightarrow> K (snd (em_clock ce w)))
     \<and> (\<forall>n m. keeps K m \<longrightarrow> keeps K (em_retryDo ce n m))"

lemma parties_keep_True [simp]: "parties_keep (\<lambda>w. True) ce bbn getKey"
  by (simp add: parties_keep_def keeps_def)

lemma keeps_conj: "keeps I m \<Longrightarrow> keeps J m \<Longrightarrow> keeps (\<lambda>s. I s \<and> J s) m"
  by (simp add: keeps_def)

text \<open>An invariant of the world that all keep, together with one of the log.\<close>

lemma outside_both:
  assumes out: "outside_silent ce bbn getKey" and keep: "parties_keep K ce bbn getKey"
    and cc: "em_cc ce = babylonClient bbn qlib sendMsgs getKey blib lib bc"
  shows "outside_keeps ce (\<lambda>w. K w \<and> J (fst w))"
proof -
  have "silent (QueryBTCDelegation bbn qlib h)" "keeps K (QueryBTCDelegation bbn qlib h)" for h
    using out keep unfolding silent_iff_keeps QueryBTCDelegation_def outside_silent_def parties_keep_def
    by (intro allI keeps_intros, auto)+
  moreover have "silent (QueryStakingParamsByVersion bbn qlib v)" "keeps K (QueryStakingParamsByVersion bbn qlib v)" for v
    using out keep unfolding silent_iff_keeps QueryStakingParamsByVersion_def outside_silent_def parties_keep_def
    by (intro allI keeps_intros, auto)+
  ultimately show ?thesis
    using assms by (auto simp: outside_keeps_def outside_silent_def parties_keep_def babylonClient_def
        intro!: keeps_conj keeps_silent)
qed

text \<open>
  A message the emulator may send: it carries the signatures of a pending delegation that the filter
  accepted and that passed every check, made when the signer was asked in a world with the invariant.
\<close>

definition validMsg ::
  "('w \<Rightarrow> bool) \<Rightarrow> 'w Emulator \<Rightarrow> btclib \<Rightarrow> stakinglib \<Rightarrow> bbnlib \<Rightarrow> MsgAddCovenantSigs \<Rightarrow> bool" where
  "validMsg K ce blib slib lib m \<longleftrightarrow>
     (\<exists>del sigs signer t t'. emAcceptDelegationToSign ce blib slib del t = (Ok True, t')
        \<and> signedIn K ce blib slib (Some del) sigs \<and> m = covenantSigsMsg blib lib signer sigs)"

definition sentOnly :: "('m \<Rightarrow> bool) \<Rightarrow> nat \<Rightarrow> 'm list list \<Rightarrow> 'm list list \<Rightarrow> bool" where
  "sentOnly good k log0 log1 \<longleftrightarrow>
     (\<exists>batches. log1 = log0 @ batches \<and> list_all (\<lambda>b. length b \<le> k \<and> list_all good b) batches)"

lemma sentOnly_refl [simp]: "sentOnly good k log0 log0"
  by (simp add: sentOnly_def)

text \<open>The log so far: what it held, and batches of good messages; beside it the invariant.\<close>

abbreviation logInv ::
  "(('m list list \<times> 'u) \<Rightarrow> bool) \<Rightarrow> ('m \<Rightarrow> bool) \<Rightarrow> nat \<Rightarrow> 'm list list \<Rightarrow> ('m list list \<times> 'u) \<Rightarrow> bool" where
  "logInv K good k log0 \<equiv> (\<lambda>w. K w \<and> sentOnly good k log0 (fst w))"

lemma keeps_logged:
  assumes "keeps K (logged sendMsgs ms ex un)" "length ms \<le> k" "list_all good ms"
  shows "keeps (logInv K good k log0) (logged sendMsgs ms ex un)"
proof (rule keeps_conj [OF assms(1)], rule keepsI)
  fix w r w'
  assume "sentOnly good k log0 (fst w)" and eq: "logged sendMsgs ms ex un w = (r, w')"
  then obtain batches where b: "fst w = log0 @ batches"
    "list_all (\<lambda>b. length b \<le> k \<and> list_all good b) batches" by (auto simp: sentOnly_def)
  have "fst w' = fst w @ [ms]" using eq by (auto simp: logged_def split: prod.splits)
  with b assms show "sentOnly good k log0 (fst w')"
    by (auto simp: sentOnly_def intro!: exI [of _ "batches @ [ms]"])
qed

lemma keeps_reliablySend:
  assumes "\<forall>ms ex un. keeps K (logged sendMsgs ms ex un)" "length ms \<le> k" "list_all good ms"
  shows "keeps (logInv K good k log0) (reliablySendMsgsResendingOnMsgErr (logged sendMsgs) lib maxRetires ms)"
proof -
  have "length ms' \<le> k \<and> list_all good ms'" if "subseq ms' ms" for ms'
  proof
    show "length ms' \<le> k" using list_emb_length [OF that] assms(2) by simp
    show "list_all good ms'" using list_emb_set [OF that] assms(3) by (auto simp: list_all_iff)
  qed
  then show ?thesis
    unfolding reliablySendMsgsResendingOnMsgErr_def reliablySendMsgs_def
    by (intro keeps_resendLoop keeps_logged assms(1) [rule_format]) auto
qed

lemma list_all2_right: "list_all2 P xs ys \<Longrightarrow> y \<in> set ys \<Longrightarrow> \<exists>x \<in> set xs. P x y"
  by (induction rule: list_all2_induct) auto

lemma mapS_Ok_all2:
  assumes "mapS f xs s = (Ok ys, s')" "\<And>x y t t'. f x t = (Ok y, t') \<Longrightarrow> P x y"
  shows "list_all2 P xs ys"
  using assms(1) by (induction xs arbitrary: s ys) (auto simp: act_simps intro: assms(2))

lemma keeps_SubmitCovenantSigs:
  assumes "\<forall>k. silent (getKey k) \<and> keeps K (getKey k)" "\<forall>ms ex un. keeps K (logged sendMsgs ms ex un)"
    and "length sigs \<le> k" and good: "\<forall>cs \<in> set sigs. \<forall>signer. good (covenantSigsMsg blib lib signer cs)"
  shows "keeps (logInv K good k log0) (SubmitCovenantSigs (logged sendMsgs) getKey blib lib bc sigs)"
proof (rule keepsI)
  fix w r w'
  let ?f = "\<lambda>covSig. bindS (mustGetTxSigner getKey lib bc) (\<lambda>signer.
              returnS (covenantSigsMsg blib lib signer covSig))"
  let ?I = "logInv K good k log0"
  assume I: "?I w" and eq: "SubmitCovenantSigs (logged sendMsgs) getKey blib lib bc sigs w = (r, w')"
  obtain q t where q: "mapS ?f sigs w = (q, t)" by (rule prod.exhaust)
  have "keeps ?I (getKey n)" for n using assms(1) by (simp add: keeps_conj keeps_silent)
  then have "keeps ?I (mapS ?f sigs)"
    unfolding mustGetTxSigner_def GetKeyAddress_def by (intro keeps_intros)
  then have t: "?I t" using I q by (rule keepsD)
  show "?I w'"
  proof (cases q)
    case (Ok msgs)
    with q have "list_all2 (\<lambda>cs m. \<exists>signer. m = covenantSigsMsg blib lib signer cs) sigs msgs"
      by (intro mapS_Ok_all2) (auto simp: act_simps)
    then have "length msgs \<le> k \<and> list_all good msgs"
      using assms(3) good by (fastforce simp: list_all2_conv_all_nth list_all_length)
    then have "keeps ?I (reliablySendMsgsResendingOnMsgErr (logged sendMsgs) lib (MaxRetiresBatchRemovingMsgs bc) msgs)"
      by (intro keeps_reliablySend assms(2)) auto
    moreover have "reliablySendMsgsResendingOnMsgErr (logged sendMsgs) lib (MaxRetiresBatchRemovingMsgs bc) msgs t = (r, w')"
      using eq q Ok by (simp add: SubmitCovenantSigs_def)
    ultimately show ?thesis using keepsD [where I = ?I, OF _ t] by blast
  qed (use eq q t in \<open>auto simp: SubmitCovenantSigs_def\<close>)
qed

text \<open>The batches are parts of what was pending, none longer than the configured size.\<close>

lemma batchLoop_parts:
  assumes "batchLoop bs dels i acc = Some (Ok batches)"
    and "list_all (\<lambda>b. length b \<le> unat bs \<and> set b \<subseteq> set dels) acc"
  shows "list_all (\<lambda>b. length b \<le> unat bs \<and> set b \<subseteq> set dels) batches"
proof -
  have "list_all (\<lambda>b. length b \<le> unat bs \<and> set b \<subseteq> set dels) acc \<longrightarrow>
      (case r of Ok batches \<Rightarrow> list_all (\<lambda>b. length b \<le> unat bs \<and> set b \<subseteq> set dels) batches | _ \<Rightarrow> True)"
    if "batchLoop bs dels i acc = Some r" for bs and dels :: "'a list" and i acc r
  proof (rule batchLoop.raw_induct [where P = "\<lambda>bs dels i acc r.
      list_all (\<lambda>b. length b \<le> unat bs \<and> set b \<subseteq> set dels) acc \<longrightarrow>
      (case r of Ok batches \<Rightarrow> list_all (\<lambda>b. length b \<le> unat bs \<and> set b \<subseteq> set dels) batches
       | _ \<Rightarrow> True)", OF _ that], goal_cases)
    case (1 f bs dels i acc r)
    let ?n = "word_of_nat (length dels) :: uint64"
    let ?e = "if i + bs > ?n then ?n else i + bs"
    let ?b = "take (unat ?e - unat i) (drop (unat i) dels)"
    have "unat ?e \<le> unat i + unat bs" if "\<not> ?e < i"
    proof -
      have "unat (i + bs) \<le> unat i + unat bs" by (simp add: unat_word_ariths)
      then show ?thesis by (auto simp: word_less_nat_alt)
    qed
    moreover have "set ?b \<subseteq> set dels" by (meson order_trans set_drop_subset set_take_subset)
    ultimately show ?case
      using 1(1) [of bs dels "i + bs" "acc @ [?b]" r] 1(2)
      by (auto simp: Let_def split: if_splits)
  qed
  from this [OF assms(1)] assms(2) show ?thesis by simp
qed

lemma keeps_AddCovenantSignatures:
  assumes out: "outside_keeps ce J"
    and submit: "\<And>sigs. length sigs \<le> length dels \<Longrightarrow>
        \<forall>cs \<in> set sigs. \<exists>d \<in> set dels. signedIn J ce blib slib d cs \<Longrightarrow>
        keeps J (CC_SubmitCovenantSigs (em_cc ce) sigs)"
  shows "keeps (\<lambda>s. J (world s)) (AddCovenantSignatures ce blib slib dels)"
proof (rule keepsI)
  let ?K = "\<lambda>s. J (world s)"
  let ?post = "\<lambda>sigs. catchS (onWorld (CC_SubmitCovenantSigs (em_cc ce) sigs))
          (\<lambda>e. bindS (recordMetricsFailedSignDelegations (length sigs)) (\<lambda>_. failS e)) (\<lambda>res.
        bindS (timeNow (em_clock ce)) (\<lambda>submittedTime.
        bindS (SetPreviousSubmission submittedTime) (\<lambda>_.
        bindS (recordMetricsTotalSignDelegationsSubmitted (length sigs)) (\<lambda>_.
        returnS res))))"
  fix s r s'
  assume J: "?K s" and eq: "AddCovenantSignatures ce blib slib dels s = (r, s')"
  obtain q t where q: "signDelegations ce blib slib dels s = (q, t)" by (rule prod.exhaust)
  have t: "?K t" using keeps_world_signDelegations [OF out] J q by (rule keepsD)
  show "?K s'"
  proof (cases "dels = []")
    case False
    show ?thesis
    proof (cases q)
      case (Ok sigs)
      with q obtain ds where ds: "subseq ds dels" "list_all2 (signedIn J ce blib slib) ds sigs"
        using signDelegations_signedIn [OF out J] by blast
      have "keeps J (CC_SubmitCovenantSigs (em_cc ce) sigs)"
      proof (rule submit)
        show "length sigs \<le> length dels"
          using ds list_emb_length [OF ds(1)] by (simp add: list_all2_lengthD)
        show "\<forall>cs \<in> set sigs. \<exists>d \<in> set dels. signedIn J ce blib slib d cs"
        proof
          fix cs
          assume "cs \<in> set sigs"
          with ds(2) obtain d where "d \<in> set ds" "signedIn J ce blib slib d cs"
            by (blast dest: list_all2_right)
          then show "\<exists>d \<in> set dels. signedIn J ce blib slib d cs" using list_emb_set [OF ds(1)] by blast
        qed
      qed
      then have "keeps ?K (?post sigs)"
        unfolding recorder_defs timeNow_def by (intro keeps_intros keeps_clock [OF out]) auto
      moreover have "?post sigs t = (r, s')"
        using eq q Ok False by (simp add: AddCovenantSignatures_def)
      ultimately show ?thesis using keepsD [where I = ?K, OF _ t] by blast
    qed (use eq q t False in \<open>auto simp: AddCovenantSignatures_def\<close>)
  qed (use eq J in \<open>auto simp: AddCovenantSignatures_def\<close>)
qed

lemma keeps_submitBatches:
  assumes "\<And>b. b \<in> set batches \<Longrightarrow> keeps (\<lambda>s. J (world s)) (AddCovenantSignatures ce blib slib (map Some b))"
  shows "keeps (\<lambda>s. J (world s)) (submitBatches ce blib slib batches)"
  using assms
proof (induction batches)
  case (Cons b batches)
  then show ?case unfolding submitBatches.simps logError_def by (intro keeps_intros) auto
next
  case Nil
  show ?case unfolding submitBatches.simps by (rule keeps_returnS)
qed

lemma keeps_liftClient:
  "keeps J (Client_BTCDelegations bbn st pr) \<Longrightarrow>
   keeps (\<lambda>s. J (world s)) (Client_BTCDelegations (liftClient bbn) st pr)"
  unfolding liftClient_def by (simp add: keeps_world)

lemma submissionTick_cases:
  assumes "submissionTick ce blib slib s = Some (r, s')"
  obtains (nothing) q s1 where "CC_QueryPendingDelegations (em_cc ce) (DelegationLimit (em_config ce))
      (emAcceptDelegationToSign ce blib slib) s = Some (q, s1)" "world s' = world s1"
  | (submit) dels s1 batches where "CC_QueryPendingDelegations (em_cc ce) (DelegationLimit (em_config ce))
      (emAcceptDelegationToSign ce blib slib) s = Some (Ok dels, s1)"
    "delegationsToBatches ce dels = Some (Ok batches)"
    "submitBatches ce blib slib batches (s1\<lparr>currentPendingDelegations := length dels\<rparr>) = (r, s')"
proof -
  from assms obtain q s1 where q: "CC_QueryPendingDelegations (em_cc ce) (DelegationLimit (em_config ce))
      (emAcceptDelegationToSign ce blib slib) s = Some (q, s1)"
    by (auto simp: submissionTick_def split: option.splits prod.splits)
  show thesis
  proof (cases q)
    case (Ok dels)
    show thesis
    proof (cases "dels = []")
      case True
      with assms q Ok have "world s' = world s1" by (auto simp: submissionTick_def recorder_defs)
      with q show thesis by (rule nothing)
    next
      case False
      with assms q Ok obtain b where b: "delegationsToBatches ce dels = Some b"
        and run: "bindS (liftR b) (submitBatches ce blib slib) (s1\<lparr>currentPendingDelegations := length dels\<rparr>) = (r, s')"
        by (auto simp: submissionTick_def recorder_defs split: option.splits)
      show thesis
      proof (cases "\<exists>batches. b = Ok batches")
        case True
        with q Ok b run show thesis by (auto intro: submit)
      next
        case False
        with run have "world s' = world s1" by (cases b) auto
        with q show thesis by (rule nothing)
      qed
    qed
  next
    case (Err e)
    with assms q have "world s' = world s1" by (simp add: submissionTick_def)
    with q show thesis by (rule nothing)
  next
    case (Panic p)
    with assms q have "world s' = world s1" by (simp add: submissionTick_def)
    with q show thesis by (rule nothing)
  qed
qed

text \<open>
  What all lemmas below assume: the emulator's client is the controller, none of the parties writes to
  the log, and all of them keep the invariant.
\<close>

definition closed_system ::
  "((MsgAddCovenantSigs list list \<times> 'u) \<Rightarrow> bool) \<Rightarrow> (MsgAddCovenantSigs list list \<times> 'u) Emulator
    \<Rightarrow> (MsgAddCovenantSigs list list \<times> 'u) bbnclient \<Rightarrow> querylib \<Rightarrow> ('u, MsgAddCovenantSigs) sender
    \<Rightarrow> (string \<Rightarrow> (MsgAddCovenantSigs list list \<times> 'u, KeyRecord) act) \<Rightarrow> btclib \<Rightarrow> bbnlib \<Rightarrow> BabylonController \<Rightarrow> bool" where
  "closed_system K ce bbn qlib sendMsgs getKey blib lib bc \<longleftrightarrow>
     em_cc ce = babylonClient bbn qlib (logged sendMsgs) getKey blib lib bc
     \<and> outside_silent ce bbn getKey \<and> parties_keep K ce bbn getKey
     \<and> (\<forall>ms ex un. keeps K (logged sendMsgs ms ex un))"

text \<open>The invariant, and the log after a part of a tick: what it held before, and batches of valid messages.\<close>

abbreviation tickInv ::
  "((MsgAddCovenantSigs list list \<times> 'u) \<Rightarrow> bool) \<Rightarrow> (MsgAddCovenantSigs list list \<times> 'u) Emulator \<Rightarrow> btclib
    \<Rightarrow> stakinglib \<Rightarrow> bbnlib \<Rightarrow> MsgAddCovenantSigs list list \<Rightarrow> MsgAddCovenantSigs list list \<times> 'u \<Rightarrow> bool" where
  "tickInv K ce blib slib lib log0 \<equiv>
     logInv K (validMsg K ce blib slib lib) (unat (SigsBatchSize (em_config ce))) log0"

lemma tick_outside:
  "closed_system K ce bbn qlib sendMsgs getKey blib lib bc \<Longrightarrow> outside_keeps ce (tickInv K ce blib' slib lib' log0)"
  unfolding closed_system_def by (blast intro: outside_both)

lemma keeps_pending:
  assumes sys: "closed_system K ce bbn qlib sendMsgs getKey blib lib bc"
    and I: "tickInv K ce blib slib lib log0 (world s)"
    and q: "CC_QueryPendingDelegations (em_cc ce) n (emAcceptDelegationToSign ce blib slib) s = Some (q, s1)"
  shows "tickInv K ce blib slib lib log0 (world s1)"
proof -
  let ?flt = "emAcceptDelegationToSign ce blib slib" and ?K = "\<lambda>s. tickInv K ce blib slib lib log0 (world s)"
  have "keeps (tickInv K ce blib slib lib log0) (Client_BTCDelegations bbn PENDING pr)" for pr
    using sys by (intro keeps_conj keeps_silent) (simp_all add: closed_system_def outside_silent_def parties_keep_def)
  then have page: "\<forall>pr. keeps ?K (Client_BTCDelegations (liftClient bbn) PENDING pr)"
    by (intro allI keeps_liftClient [where J = "tickInv K ce blib slib lib log0"])
  have flt: "\<forall>f d. Some ?flt = Some f \<longrightarrow> keeps ?K (f d)"
    using keeps_world_accept [OF tick_outside [OF sys]] by simp
  have "queryDelegationsWithStatus (liftClient bbn) qlib PENDING n (Some ?flt) s = Some (q, s1)"
    using q sys by (simp add: closed_system_def babylonClient_def QueryPendingDelegations_def)
  with keeps_queryDelegations [where I = ?K and s = s, OF page flt] I show ?thesis by simp
qed

lemma keeps_add_accepted:
  assumes sys: "closed_system K ce bbn qlib sendMsgs getKey blib lib bc"
    and b: "length b \<le> unat (SigsBatchSize (em_config ce))"
      "list_all (accepted qlib (Some (emAcceptDelegationToSign ce blib slib))) b"
  shows "keeps (\<lambda>s. tickInv K ce blib slib lib log0 (world s)) (AddCovenantSignatures ce blib slib (map Some b))"
proof (rule keeps_AddCovenantSignatures)
  show "outside_keeps ce (tickInv K ce blib slib lib log0)" using sys by (rule tick_outside)
next
  fix sigs
  assume len: "length sigs \<le> length (map Some b)"
    and "\<forall>cs \<in> set sigs. \<exists>d \<in> set (map Some b). signedIn (tickInv K ce blib slib lib log0) ce blib slib d cs"
  then have "\<forall>cs \<in> set sigs. \<exists>d \<in> set b. signedIn K ce blib slib (Some d) cs" by (fastforce elim: signedIn_mono)
  then have good: "\<forall>cs \<in> set sigs. \<forall>signer. validMsg K ce blib slib lib (covenantSigsMsg blib lib signer cs)"
    using b(2) unfolding validMsg_def list_all_iff accepted_def by fastforce
  have cc: "CC_SubmitCovenantSigs (em_cc ce) = SubmitCovenantSigs (logged sendMsgs) getKey blib lib bc"
    using sys by (simp add: closed_system_def babylonClient_def)
  show "keeps (tickInv K ce blib slib lib log0) (CC_SubmitCovenantSigs (em_cc ce) sigs)"
    unfolding cc using sys len b(1) good
    by (intro keeps_SubmitCovenantSigs) (auto simp: closed_system_def outside_silent_def parties_keep_def)
qed

text \<open>A tick keeps the invariant and appends batches of valid messages to the log, and nothing else.\<close>

lemma submissionTick_sent:
  assumes sys: "closed_system K ce bbn qlib sendMsgs getKey blib lib bc"
    and I: "tickInv K ce blib slib lib log0 (world s)"
    and tick: "submissionTick ce blib slib s = Some (r, s')"
  shows "tickInv K ce blib slib lib log0 (world s')"
proof -
  let ?K = "\<lambda>t. tickInv K ce blib slib lib log0 (world t)"
  let ?flt = "emAcceptDelegationToSign ce blib slib"
  note query = keeps_pending [OF sys I]
  show ?thesis using tick
  proof (cases rule: submissionTick_cases)
    case (nothing q s1)
    then show ?thesis using query by fastforce
  next
    case (submit dels s1 batches)
    have acc: "list_all (accepted qlib (Some ?flt)) dels"
      using submit(1) sys unfolding closed_system_def babylonClient_def QueryPendingDelegations_def queryDelegationsWithStatus_def
      by (auto dest: scanPages_sound)
    have "list_all (\<lambda>b. length b \<le> unat (SigsBatchSize (em_config ce)) \<and> set b \<subseteq> set dels) batches"
      using submit(2) unfolding delegationsToBatches_def by (rule batchLoop_parts) simp
    with acc have "keeps ?K (submitBatches ce blib slib batches)"
      by (intro keeps_submitBatches keeps_add_accepted [OF sys]) (auto simp: list_all_iff)
    moreover have "?K (s1\<lparr>currentPendingDelegations := length dels\<rparr>)" using query [OF submit(1)] by simp
    ultimately show ?thesis using keepsD [where I = ?K] submit(3) by blast
  qed
qed

section \<open>Runs of the daemon\<close>

lemma validMsg_accepted:
  assumes "emAcceptDelegationToSign ce blib slib del t = (Ok True, t')"
  shows "\<not> AlreadySigned blib (SerializePubKey blib (em_pk ce)) del"
    and "\<exists>p u u'. emGet ce (ParamsVersion del) u = (Ok p, u')
      \<and> keyInCommittee blib (SerializePubKey blib (em_pk ce)) p"
  using assms
  by (auto simp: emAcceptDelegationToSign_def acceptDelegationToSign_def AcceptDelegationToSign_def
      IsKeyInCommittee_def Let_def act_simps split: if_splits)

lemma validMsg_means:
  assumes "validMsg K ce blib slib lib m"
  shows "\<exists>del sigs signer p t t'. \<not> AlreadySigned blib (SerializePubKey blib (em_pk ce)) del
    \<and> emGet ce (ParamsVersion del) t = (Ok p, t') \<and> keyInCommittee blib (SerializePubKey blib (em_pk ce)) p
    \<and> signedIn K ce blib slib (Some del) sigs \<and> m = covenantSigsMsg blib lib signer sigs"
proof -
  from assms obtain del sigs signer t t' where "emAcceptDelegationToSign ce blib slib del t = (Ok True, t')"
    and m: "signedIn K ce blib slib (Some del) sigs" "m = covenantSigsMsg blib lib signer sigs"
    by (auto simp: validMsg_def)
  from validMsg_accepted [OF this(1)] m show ?thesis by blast
qed

lemma validMsg_signedFor:
  "validMsg K ce blib slib lib m \<Longrightarrow> \<exists>del sigs signer p t t'. \<not> AlreadySigned blib (SerializePubKey blib (em_pk ce)) del
    \<and> emGet ce (ParamsVersion del) t = (Ok p, t') \<and> keyInCommittee blib (SerializePubKey blib (em_pk ce)) p
    \<and> signedFor ce blib slib (Some del) sigs \<and> m = covenantSigsMsg blib lib signer sigs"
  using validMsg_means signedIn_signedFor by metis

lemma UpdatePrometheusMetrics_world:
  assumes "\<forall>w. J w \<longrightarrow> J (snd (clock w))" "J (world s)" "UpdatePrometheusMetrics clock s = (r, s')"
  shows "J (world s')"
  using assms(2,3) by (auto simp: UpdatePrometheusMetrics_def assms(1) split: option.splits)

lemma afterTick_world:
  "world (p_emu (afterTick i out s)) =
     (case out of None \<Rightarrow> world (p_emu s) | Some (r, e) \<Rightarrow> world e)"
  by (auto simp: afterTick_def split: option.splits result.splits)

lemma emStep_sent:
  assumes sys: "closed_system K ce bbn qlib sendMsgs getKey blib lib bc"
    and I: "tickInv K ce blib slib lib log0 (world (p_emu s))" and step: "emStep ce blib slib s s'"
  shows "tickInv K ce blib slib lib log0 (world (p_emu s'))"
  using step
proof cases
  case (tick i)
  then show ?thesis
    using submissionTick_sent [OF sys I] I
    by (cases "submissionTick ce blib slib (p_emu s)") (auto simp: afterTick_world)
next
  case (update i)
  have "\<forall>w. tickInv K ce blib slib lib log0 w \<longrightarrow> tickInv K ce blib slib lib log0 (snd (em_clock ce w))"
    using tick_outside [OF sys, of blib slib lib log0] unfolding outside_keeps_def by (elim conjE)
  from UpdatePrometheusMetrics_world [where J = "tickInv K ce blib slib lib log0", OF this I] update show ?thesis
    by (cases "UpdatePrometheusMetrics (em_clock ce) (p_emu s)") (auto simp: afterTick_world)
next
  case (quit i k)
  with I show ?thesis by (simp add: exitLoop_def)
qed (use I in \<open>simp_all add: Start_def StopCall_def\<close>)

lemma readiness_world:
  assumes "keeps J (Signer_PubKey (em_signer ce))" "PS_readinessChecker ps = Some (CheckReadiness ce)"
    and "J (world (p_emu s))" "readinessHandler ps s = (r, s')"
  shows "J (world (p_emu s'))"
proof -
  obtain q t where q: "CheckReadiness ce s = (q, t)" by fastforce
  then have "J (world (p_emu t))"
    using assms(1,3) by (auto simp: CheckReadiness_def onWorld_def split: if_splits prod.splits dest: keepsD)
  moreover have "s' = t" using assms(2,4) q by (cases q) (auto simp: readinessHandler_def)
  ultimately show ?thesis by simp
qed

lemma daemonStep_sent:
  assumes sys: "closed_system K ce bbn qlib sendMsgs getKey blib lib bc"
    and I: "tickInv K ce blib slib lib log0 (world (p_emu (d_proc d)))"
    and step: "daemonStep ce blib slib d d'" and inv: "mainInv ce d"
  shows "tickInv K ce blib slib lib log0 (world (p_emu (d_proc d')))"
  using step
proof cases
  case run
  with I show ?thesis by (auto simp: RunUntilShutdown_def Start_def Let_def split: result.splits)
next
  case (health ps r s)
  have ps: "PS_readinessChecker ps = Some (CheckReadiness ce)" using inv health by (simp add: mainInv_def)
  have "keeps (tickInv K ce blib slib lib log0) (Signer_PubKey (em_signer ce))"
    using sys by (intro keeps_conj keeps_silent) (simp_all add: closed_system_def outside_silent_def parties_keep_def)
  from readiness_world [where J = "tickInv K ce blib slib lib log0", OF this ps I health(5)] show ?thesis using health(1) by simp
next
  case (loop s)
  then show ?thesis using emStep_sent [OF sys I] by simp
qed (use I in \<open>simp_all add: StopCall_def\<close>)

lemma daemon_sent:
  assumes sys: "closed_system K ce bbn qlib sendMsgs getKey blib lib bc" and "K (world e)"
    and run: "(daemonStep ce blib slib)\<^sup>*\<^sup>* (daemonInit e) d"
  shows "tickInv K ce blib slib lib (fst (world e)) (world (p_emu (d_proc d)))"
  using run mainInv_init
proof (rule dm.reach_with)
  show "tickInv K ce blib slib lib (fst (world e)) (world (p_emu (d_proc (daemonInit e))))"
    using assms(2) by (simp add: daemonInit_def procInit_def)
next
  fix t u
  assume step: "daemonStep ce blib slib t u" "mainInv ce t"
    and I: "tickInv K ce blib slib lib (fst (world e)) (world (p_emu (d_proc t)))"
  show "tickInv K ce blib slib lib (fst (world e)) (world (p_emu (d_proc u)))"
    using sys I step by (rule daemonStep_sent)
qed

section \<open>A sample run\<close>

text \<open>A node with one pending delegation, an emulator that signs it, and a chain that takes it.\<close>

definition sample_node :: "'s bbnclient" where
  "sample_node = \<lparr>
     Client_BTCCheckpointParams = returnS \<lparr>BtcConfirmationDepth = 1, CheckpointFinalizationTimeout = 1\<rparr>,
     Client_BTCStakingParamsByVersion = (\<lambda>_. returnS sample_btcstaking),
     Client_BTCDelegation = (\<lambda>_. returnS sample_response),
     Client_BTCDelegations = (\<lambda>_ _. returnS \<lparr>BtcDelegations = [sample_response], Pagination_NextKey = Some []\<rparr>)\<rparr>"

definition sample_sender :: "('s, MsgAddCovenantSigs) sender" where
  "sample_sender ms ex un = returnS (Some \<lparr>Relayer_TxHash = ''aa'', Relayer_Events = []\<rparr>)"

definition sample_getKey :: "string \<Rightarrow> ('s, KeyRecord) act" where
  "sample_getKey k = returnS (KeyRecord [])"

text \<open>The daemon with a given signer; the world beside the log is the state of that signer.\<close>

definition sample_covd :: "(MsgAddCovenantSigs list list \<times> 'u) Signer \<Rightarrow> (MsgAddCovenantSigs list list \<times> 'u) Emulator" where
  "sample_covd sg = \<lparr>em_pk = key_a, em_signer = sg,
     em_cc = babylonClient sample_node sample_qlib (logged sample_sender) sample_getKey sample_blib sample_lib sample_bc,
     em_config = sample_config\<lparr>Cfg_Metrics := Some DefaultMetricsConfig\<rparr>,
     em_retryDo = (\<lambda>n f. f), em_clock = (\<lambda>w. (7, w))\<rparr>"

definition sample_emu :: "'u \<Rightarrow> (MsgAddCovenantSigs list list \<times> 'u) emu" where
  "sample_emu u = \<lparr>paramsByVersion = Map.empty, world = ([], u), totalSignDelegationsSubmitted = 0,
     failedSignDelegations = 0, currentPendingDelegations = 0, previousSubmission = None,
     previousLocalSignStart = None, previousLocalSignFinish = None, timedSignDelegationLag = [],
     secondsSinceLastSubmission = 0, secondsSinceLastSignStart = 0, secondsSinceLastSignFinish = 0,
     errorLog = []\<rparr>"

text \<open>A signer that answers without looking.\<close>

definition sample_signer :: "(MsgAddCovenantSigs list list \<times> unit) Signer" where
  "sample_signer = \<lparr>Signer_SignTransactions = (\<lambda>req. returnS sample_resp), Signer_PubKey = returnS key_a\<rparr>"

lemma sample_covd_cc:
  "em_cc (sample_covd sg) = babylonClient sample_node sample_qlib (logged sample_sender) sample_getKey
     sample_blib sample_lib sample_bc"
  by (simp add: sample_covd_def)

lemma sample_covd_silent:
  assumes "\<forall>req. silent (Signer_SignTransactions sg req)" "silent (Signer_PubKey sg)"
  shows "outside_silent (sample_covd sg) sample_node sample_getKey"
  using assms by (simp add: outside_silent_def sample_covd_def sample_node_def sample_getKey_def silent_def)

lemma sample_covd_params: "QueryStakingParamsByVersion sample_node sample_qlib v w = (Ok sample_params, w)"
  by (simp add: QueryStakingParamsByVersion_def sample_node_def stakingParams_def sample_btcstaking_def
      sample_qlib_def MaxUint16_def sample_params_def key_a_def key_b_def)

lemma emGet_covd:
  "emGet (sample_covd sg) v s = (Ok (case paramsByVersion s v of Some p \<Rightarrow> p | None \<Rightarrow> sample_params),
     if paramsByVersion s v = None then s\<lparr>paramsByVersion := (paramsByVersion s)(v \<mapsto> sample_params)\<rparr> else s)"
  by (cases "paramsByVersion s v")
     (auto simp: emGet_def Get_hit Get_miss sample_covd_def babylonClient_def sample_covd_params)

lemma sample_accepts:
  assumes "paramsByVersion s 0 = None \<or> paramsByVersion s 0 = Some sample_params"
  shows "\<exists>s'. emAcceptDelegationToSign (sample_covd sg) sample_blib sample_slib sample_del s = (Ok True, s')
    \<and> s' = s\<lparr>paramsByVersion := (paramsByVersion s)(0 \<mapsto> sample_params)\<rparr>"
proof -
  have "StakeExpansion sample_del = None" "ParamsVersion sample_del = 0"
    "\<not> AlreadySigned sample_blib k sample_del" for k
    by (simp_all add: sample_del_def AlreadySigned_def)
  moreover have "keyInCommittee sample_blib (SerializePubKey sample_blib (em_pk (sample_covd sg))) sample_params"
    by (simp add: keyInCommittee_def sample_params_def sample_covd_def)
  ultimately show ?thesis using assms
    by (auto simp: emAcceptDelegationToSign_def acceptDelegationToSign_def AcceptDelegationToSign_def Let_def
        IsKeyInCommittee_def emGet_covd IsStakeExpansion_def fun_upd_idem)
qed

definition sample_ready :: "'u \<Rightarrow> (MsgAddCovenantSigs list list \<times> 'u) emu" where
  "sample_ready u = (sample_emu u)\<lparr>paramsByVersion := [0 \<mapsto> sample_params]\<rparr>"

lemma sample_query:
  fixes u :: 'u
  shows "CC_QueryPendingDelegations (em_cc (sample_covd sg)) (DelegationLimit (em_config (sample_covd sg)))
     (emAcceptDelegationToSign (sample_covd sg) sample_blib sample_slib) (sample_emu u) = Some (Ok [sample_del], sample_ready u)"
proof -
  have acc: "emAcceptDelegationToSign (sample_covd sg) sample_blib sample_slib sample_del (sample_emu u)
      = (Ok True, sample_ready u)"
    using sample_accepts [of "sample_emu u"] by (simp add: sample_emu_def sample_ready_def)
  have q: "CC_QueryPendingDelegations (em_cc (sample_covd sg)) = QueryPendingDelegations (liftClient sample_node) sample_qlib"
    "DelegationLimit (em_config (sample_covd sg)) = 100"
    by (auto simp: sample_covd_def babylonClient_def sample_config_def)
  have "Client_BTCDelegations (liftClient sample_node) st pr s =
      (Ok \<lparr>BtcDelegations = [sample_response], Pagination_NextKey = Some []\<rparr>, s)"
    for st pr and s :: "(MsgAddCovenantSigs list list \<times> 'u) emu"
    by (simp add: liftClient_def sample_node_def onWorld_def)
  then show ?thesis
    unfolding q QueryPendingDelegations_def queryDelegationsWithStatus_def
    by (subst scanPages.simps)
       (simp add: scanStep_def sample_response_translates MaxPaginationLimit_def min_def Let_def acc)
qed

definition sample_sigs_of :: "SignaturesResponse \<Rightarrow> CovenantSigs" where
  "sample_sigs_of rsp = \<lparr>CS_PublicKey = key_a, CS_StakingTxHash = Hash [0], CS_SlashingSigs = SlashSigs rsp,
     CS_UnbondingSig = UnbondingSig rsp, CS_SlashingUnbondingSigs = SlashUnbondingSigs rsp, CS_StkExpSig = StkExtSig rsp\<rparr>"

definition sample_signed :: "'u \<Rightarrow> (MsgAddCovenantSigs list list \<times> 'u) emu" where
  "sample_signed u = (sample_ready u)\<lparr>currentPendingDelegations := 1, previousLocalSignStart := Some 7,
     previousLocalSignFinish := Some 7, timedSignDelegationLag := [0]\<rparr>"

lemma sample_signs:
  assumes "Signer_SignTransactions sg sample_req ([], u) = (Ok rsp, ([], u'))"
  shows "signDelegation (sample_covd sg) sample_blib sample_slib (Some sample_del) ((sample_ready u)\<lparr>currentPendingDelegations := 1\<rparr>)
     = (Ok (Some (sample_sigs_of rsp)), sample_signed u')"
proof -
  have "BtcUndelegation sample_del = Some sample_undel" "StakeExpansion sample_del = None"
    "paramsByVersion (sample_ready u) 0 = Some sample_params" "ParamsVersion sample_del = 0"
    by (simp_all add: sample_del_def sample_ready_def)
  moreover have "sample_req\<lparr>Req_StakeExp := None\<rparr> = sample_req" "TxHash sample_blib (Req_StakingTx sample_req) = Hash [0]"
    by (simp_all add: sample_req_def sample_blib_def tx_of_def)
  moreover have "em_pk (sample_covd sg) = key_a" "em_signer (sample_covd sg) = sg" "em_clock (sample_covd sg) = (\<lambda>w. (7, w))"
    "BTCNetParams (em_config (sample_covd sg)) = BTCNetParams sample_config" by (simp_all add: sample_covd_def)
  moreover have "world (sample_ready u) = ([], u)" by (simp add: sample_ready_def sample_emu_def)
  ultimately show ?thesis
    by (simp add: signDelegation_def emGet_covd checkDelegation_sample stakeExpRequest_def IsStakeExpansion_def
        SignTransactions_def recorder_defs sample_sigs_of_def onWorld_def assms)
       (simp add: sample_signed_def sample_ready_def sample_emu_def)
qed

definition sample_message :: "SignaturesResponse \<Rightarrow> MsgAddCovenantSigs" where
  "sample_message rsp = covenantSigsMsg sample_blib sample_lib ''bbn'' (sample_sigs_of rsp)"

lemma sample_submits:
  "CC_SubmitCovenantSigs (em_cc (sample_covd sg)) [sample_sigs_of rsp] ([], u)
     = (Ok \<lparr>TxResponse_TxHash = ''aa'', TxResponse_Events = []\<rparr>, ([[sample_message rsp]], u))"
proof -
  have "SubmitCovenantSigs (logged sample_sender) sample_getKey sample_blib sample_lib sample_bc [sample_sigs_of rsp] ([], u)
    = reliablySendMsgsResendingOnMsgErr (logged sample_sender) sample_lib 0 [sample_message rsp] ([], u)"
    by (subst SubmitCovenantSigs_signer [where rec = "KeyRecord []" and addr = "AccAddress []" and signer = "''bbn''"])
       (simp_all add: sample_getKey_def sample_lib_def sample_bc_def sample_message_def)
  also have "\<dots> = (Ok \<lparr>TxResponse_TxHash = ''aa'', TxResponse_Events = []\<rparr>, ([[sample_message rsp]], u))"
    by (simp add: reliablySendMsgsResendingOnMsgErr_def BatchRetries_def reliablySendMsgs_def logged_def
        sample_sender_def txResponse_def)
  finally show ?thesis by (simp add: sample_covd_def babylonClient_def)
qed

text \<open>The tick queries, signs and sends.\<close>

lemma sample_ticks:
  assumes "Signer_SignTransactions sg sample_req ([], u) = (Ok rsp, ([], u'))"
  shows "\<exists>s. submissionTick (sample_covd sg) sample_blib sample_slib (sample_emu u) = Some (Ok (), s)
     \<and> world s = ([[sample_message rsp]], u')"
proof -
  have "SigsBatchSize (em_config (sample_covd sg)) = 2" by (simp add: sample_covd_def sample_config_def)
  then have b: "delegationsToBatches (sample_covd sg) [sample_del] = Some (Ok [[sample_del]])"
    using batchLoop_chunks [of 2 "[sample_del]" 0 "[]"]
    by (simp add: delegationsToBatches_def chunks_step)
  have "world (sample_signed u') = ([], u')" "em_clock (sample_covd sg) = (\<lambda>w. (7, w))"
    by (simp_all add: sample_signed_def sample_ready_def sample_emu_def sample_covd_def)
  then have "\<exists>s. submitBatches (sample_covd sg) sample_blib sample_slib [[sample_del]]
      ((sample_ready u)\<lparr>currentPendingDelegations := 1\<rparr>) = (Ok (), s) \<and> world s = ([[sample_message rsp]], u')"
    by (simp add: AddCovenantSignatures_def sample_signs [OF assms, unfolded One_nat_def] onWorld_def sample_submits recorder_defs)
  then show ?thesis by (simp add: submissionTick_def sample_query b recorder_defs)
qed

lemma sample_daemon_runs:
  assumes "Signer_SignTransactions sg sample_req ([], u) = (Ok rsp, ([], u'))"
  shows "\<exists>d. (daemonStep (sample_covd sg) sample_blib sample_slib)\<^sup>*\<^sup>* (daemonInit (sample_emu u)) d
     \<and> world (p_emu (d_proc d)) = ([[sample_message rsp]], u')"
proof -
  let ?ce = "sample_covd sg"
  let ?step = "daemonStep ?ce sample_blib sample_slib"
  let ?d0 = "daemonInit (sample_emu u)"
  let ?d1 = "RunUntilShutdown ?ce ?d0"
  let ?p1 = "Start (procInit (sample_emu u))"
  let ?p2 = "setPhase 0 Selecting ?p1"
  have launch: "launchLoop (em_config ?ce) SubmissionLoop = Ok ()"
    by (simp add: sample_covd_def launchLoop_def loopInterval_def NewTicker_def sample_config_def)
  have p1: "d_proc ?d1 = ?p1"
    by (simp add: RunUntilShutdown_def daemonInit_def sample_covd_def Address_def ValidateMetrics_def
        DefaultMetricsConfig_def SetReadinessChecker_def NewPrometheusServer_def)
  have flags: "p_crash ?p1 = None" "p_crash ?p2 = None" "p_emu ?p2 = sample_emu u"
    by (simp_all add: Start_def procInit_def)
  obtain s where s: "submissionTick ?ce sample_blib sample_slib (sample_emu u) = Some (Ok (), s)"
    "world s = ([[sample_message rsp]], u')" using sample_ticks [OF assms] by blast
  let ?p3 = "afterTick 0 (Some (Ok (), s)) ?p2"
  have "?step ?d0 ?d1" by (rule daemonStep.run) (simp_all add: daemonInit_def procInit_def)
  moreover have "emStep ?ce sample_blib sample_slib ?p1 ?p2"
    by (rule emStep.launch [OF _ _ launch]) (simp_all add: procInit_def Start_def loopIs_def)
  then have "?step ?d1 (?d1\<lparr>d_proc := ?p2\<rparr>)"
    using daemonStep.loop [of ?d1 ?ce sample_blib sample_slib ?p2] p1 flags by simp
  moreover have "emStep ?ce sample_blib sample_slib ?p2 ?p3"
    using emStep.tick [of ?p2 0 ?ce sample_blib sample_slib] flags s(1)
    by (simp add: procInit_def Start_def loopIs_def setPhase_def)
  then have "?step (?d1\<lparr>d_proc := ?p2\<rparr>) (?d1\<lparr>d_proc := ?p3\<rparr>)"
    using daemonStep.loop [of "?d1\<lparr>d_proc := ?p2\<rparr>" ?ce sample_blib sample_slib ?p3] flags by simp
  ultimately have "?step\<^sup>*\<^sup>* ?d0 (?d1\<lparr>d_proc := ?p3\<rparr>)"
    by (meson converse_rtranclp_into_rtranclp rtranclp.rtrancl_refl)
  moreover have "world (p_emu ?p3) = ([[sample_message rsp]], u')"
    using s(2) by (simp add: afterTick_world)
  ultimately show ?thesis by (intro exI [of _ "?d1\<lparr>d_proc := ?p3\<rparr>"]) simp
qed

end
