(* ===== verification/Keyring.thy ===== *)
theory Keyring
  imports SignerApp SignerConfig
begin

text \<open>
  Creation of keys and the controllers of the keyring, in the two copies the repository has: one for
  the emulator (\<^verbatim>\<open>keyring/\<close>, \<^verbatim>\<open>types/chainkey.go\<close>) and one for the signer
  (\<^verbatim>\<open>covenant-signer/keystore/cosmos/\<close>), with the constructor of the signer's key retriever.

  The keyring (cosmos-sdk), the mnemonics (go-bip39) and the curve are parameters. The keyring reads
  passphrases from a reader the controller fills, so the text that is left to read is part of the
  state. The law \<open>keyring_stores\<close> says that an account can be looked up with its passphrase
  after it was made.

  The lemmas connect creation and use: the key a signer holds after unlocking is the key that was
  shown when it was created.
\<close>

section \<open>The packages\<close>

text \<open>The outside world and what is left in the reader.\<close>

record 'w krworld =
  kr_input :: string
  kr_ext :: 'w

record sdkRecord =
  SR_Key :: KeyringRecord
  SR_Address :: "string result"

record 'w sdkKeyring =
  kr_SupportedAlgorithms :: "string list"
  kr_NewAccount :: "string \<Rightarrow> string \<Rightarrow> string \<Rightarrow> string \<Rightarrow> string \<Rightarrow> ('w krworld, sdkRecord) act"
  kr_Key :: "string \<Rightarrow> ('w krworld, sdkRecord) act"

record KeyOutput =
  KO_Name :: string
  KO_Address :: string

record 'w sdklib =
  keyring_New :: "string \<Rightarrow> string \<Rightarrow> string \<Rightarrow> ('w krworld, 'w sdkKeyring) act"
  NewSigningAlgoFromString :: "string \<Rightarrow> string list \<Rightarrow> string result"
  bip39_NewEntropy :: "int \<Rightarrow> ('w krworld, bytes) act"
  bip39_NewMnemonic :: "bytes \<Rightarrow> string result"
  MkAccKeyOutput :: "sdkRecord \<Rightarrow> KeyOutput result"
  btcecPubKey :: "PrivateKey \<Rightarrow> PublicKey"

definition secp256k1Type :: string where "secp256k1Type = ''secp256k1''"
definition mnemonicEntropySize :: int where "mnemonicEntropySize = 256"

text \<open>\<^verbatim>\<open>os.UserHomeDir\<close> on Unix\<close>

definition UserHomeDir :: "'w host \<Rightarrow> string result" where
  "UserHomeDir hst = (if Getenv hst ''HOME'' = [] then Err ''$HOME is not defined'' else Ok (Getenv hst ''HOME''))"

definition ResetInput :: "string \<Rightarrow> ('w krworld, unit) act" where
  "ResetInput t = modifyS (\<lambda>w. w\<lparr>kr_input := t\<rparr>)"

section \<open>The emulator's keyring\<close>

record ClientCtx =
  Ctx_ChainID :: string
  Ctx_KeyringDir :: string

definition CreateClientCtx :: "'h host \<Rightarrow> string \<Rightarrow> string \<Rightarrow> ClientCtx result" where
  "CreateClientCtx hst keyringDir chainID =
     bindR (if keyringDir = []
            then bindR (UserHomeDir hst) (\<lambda>homeDir. Ok (JoinPath [homeDir, ''.covenant-emulator'']))
            else Ok keyringDir) (\<lambda>dir.
     Ok \<lparr>Ctx_ChainID = chainID, Ctx_KeyringDir = dir\<rparr>)"

record 'w KeyringController =
  kc_kr :: "'w sdkKeyring"
  kc_name :: string

definition NewChainKeyringController ::
  "'w sdklib \<Rightarrow> ClientCtx \<Rightarrow> string \<Rightarrow> string \<Rightarrow> ('w krworld, 'w KeyringController) act" where
  "NewChainKeyringController lib ctx name keyringBackend =
     (if name = [] then failS ''the key name should not be empty''
      else if keyringBackend = [] then failS ''the keyring backend should not be empty''
      else
        bindS (ResetInput []) (\<lambda>_.
        bindS (mapErrS (\<lambda>e. ''failed to create keyring: '' @ e)
                 (keyring_New lib (Ctx_ChainID ctx) keyringBackend (Ctx_KeyringDir ctx))) (\<lambda>kr.
        returnS \<lparr>kc_kr = kr, kc_name = name\<rparr>)))"

record ChainKeyInfo =
  CKI_KeyOutput :: KeyOutput
  CKI_PublicKey :: PublicKey
  CKI_PrivateKey :: PrivateKey

definition NewChainKeyInfo ::
  "'w sdklib \<Rightarrow> sdkRecord \<Rightarrow> PublicKey \<Rightarrow> PrivateKey \<Rightarrow> ChainKeyInfo result" where
  "NewChainKeyInfo lib k pk sk =
     bindR (MkAccKeyOutput lib k) (\<lambda>keyOut.
     Ok \<lparr>CKI_KeyOutput = keyOut, CKI_PublicKey = pk, CKI_PrivateKey = sk\<rparr>)"

text \<open>A new account under the name of the controller, from fresh entropy; also its mnemonic.\<close>

definition newAccount ::
  "'w sdklib \<Rightarrow> 'w KeyringController \<Rightarrow> string \<Rightarrow> string \<Rightarrow> ('w krworld, string \<times> sdkRecord) act" where
  "newAccount lib kc passphrase hdPath =
     bindS (liftR (NewSigningAlgoFromString lib secp256k1Type (kr_SupportedAlgorithms (kc_kr kc)))) (\<lambda>algo.
     bindS (bip39_NewEntropy lib mnemonicEntropySize) (\<lambda>entropySeed.
     bindS (liftR (bip39_NewMnemonic lib entropySeed)) (\<lambda>mnemonic.
     bindS (ResetInput (passphrase @ [CHR 0x0A] @ passphrase)) (\<lambda>_.
     bindS (kr_NewAccount (kc_kr kc) (kc_name kc) mnemonic passphrase hdPath algo) (\<lambda>record1.
     returnS (mnemonic, record1))))))"

text \<open>The bytes of a local secp256k1 key.\<close>

definition localKey :: "sdkRecord \<Rightarrow> bytes result" where
  "localKey r =
     (case SR_Key r of
        RemoteRecord \<Rightarrow> Panic nil_deref
      | LocalRecord (Secp256k1Key v) \<Rightarrow> Ok v
      | LocalRecord UnsupportedKey \<Rightarrow> Err ''unsupported key type in keyring'')"

definition CreateChainKey ::
  "'w sdklib \<Rightarrow> keylib \<Rightarrow> 'w KeyringController \<Rightarrow> string \<Rightarrow> string \<Rightarrow> ('w krworld, ChainKeyInfo) act" where
  "CreateChainKey lib kl kc passphrase hdPath =
     bindS (newAccount lib kc passphrase hdPath) (\<lambda>(mnemonic, record1).
     bindS (liftR (localKey record1)) (\<lambda>v.
     let sk = PrivKeyFromBytes kl v
     in liftR (NewChainKeyInfo lib record1 (btcecPubKey lib sk) sk)))"

definition GetPrivKey :: "'w KeyringController \<Rightarrow> string \<Rightarrow> ('w krworld, bytes) act" where
  "GetPrivKey kc passphrase =
     bindS (ResetInput passphrase) (\<lambda>_.
     bindS (mapErrS (\<lambda>e. ''failed to get private key: '' @ e) (kr_Key (kc_kr kc) (kc_name kc))) (\<lambda>k.
     liftR (localKey k)))"

definition KeyRecordOf :: "'w KeyringController \<Rightarrow> ('w krworld, sdkRecord) act" where
  "KeyRecordOf kc = kr_Key (kc_kr kc) (kc_name kc)"

definition CreateCovenantKey ::
  "'h host \<Rightarrow> 'w sdklib \<Rightarrow> keylib \<Rightarrow> string \<Rightarrow> string \<Rightarrow> string \<Rightarrow> string \<Rightarrow> string \<Rightarrow> string
    \<Rightarrow> ('w krworld, ChainKeyInfo) act" where
  "CreateCovenantKey hst lib kl keyringDir chainID keyName backend passphrase hdPath =
     bindS (liftR (CreateClientCtx hst keyringDir chainID)) (\<lambda>sdkCtx.
     bindS (NewChainKeyringController lib sdkCtx keyName backend) (\<lambda>krController.
     CreateChainKey lib kl krController passphrase hdPath))"

section \<open>The signer's keyring\<close>

text \<open>The signer has its own copy of the code that makes the context and the controller.\<close>

definition signer_CreateClientCtx :: "'h host \<Rightarrow> string \<Rightarrow> string \<Rightarrow> ClientCtx result" where
  "signer_CreateClientCtx = CreateClientCtx"

definition signer_NewChainKeyringController ::
  "'w sdklib \<Rightarrow> ClientCtx \<Rightarrow> string \<Rightarrow> string \<Rightarrow> ('w krworld, 'w KeyringController) act" where
  "signer_NewChainKeyringController = NewChainKeyringController"

definition CreateKeyring ::
  "'h host \<Rightarrow> 'w sdklib \<Rightarrow> string \<Rightarrow> string \<Rightarrow> string \<Rightarrow> ('w krworld, 'w sdkKeyring) act" where
  "CreateKeyring hst lib keyringDir chainID backend =
     bindS (liftR (signer_CreateClientCtx hst keyringDir chainID)) (\<lambda>ctx.
     if backend = [] then failS ''the keyring backend should not be empty''
     else mapErrS (\<lambda>e. ''failed to create keyring: '' @ e)
            (keyring_New lib (Ctx_ChainID ctx) backend (Ctx_KeyringDir ctx)))"

definition NewChainKeyringControllerWithKeyring ::
  "'w sdkKeyring \<Rightarrow> string \<Rightarrow> 'w KeyringController result" where
  "NewChainKeyringControllerWithKeyring kr name =
     (if name = [] then Err ''the key name should not be empty'' else Ok \<lparr>kc_kr = kr, kc_name = name\<rparr>)"

record SignerKeyInfo =
  SKI_Name :: string
  SKI_Address :: string
  SKI_Mnemonic :: string
  SKI_PublicKey :: PublicKey
  SKI_PrivateKey :: PrivateKey

definition signer_CreateChainKey ::
  "'w sdklib \<Rightarrow> keylib \<Rightarrow> 'w KeyringController \<Rightarrow> string \<Rightarrow> string \<Rightarrow> ('w krworld, SignerKeyInfo) act" where
  "signer_CreateChainKey lib kl kc passphrase hdPath =
     bindS (newAccount lib kc passphrase hdPath) (\<lambda>(mnemonic, record1).
     bindS (liftR (SR_Address record1)) (\<lambda>addr.
     bindS (liftR (localKey record1)) (\<lambda>v.
     let sk = PrivKeyFromBytes kl v
     in returnS \<lparr>SKI_Name = kc_name kc, SKI_Address = addr, SKI_Mnemonic = mnemonic,
                 SKI_PublicKey = btcecPubKey lib sk, SKI_PrivateKey = sk\<rparr>)))"

definition signer_CreateCovenantKey ::
  "'h host \<Rightarrow> 'w sdklib \<Rightarrow> keylib \<Rightarrow> string \<Rightarrow> string \<Rightarrow> string \<Rightarrow> string \<Rightarrow> string \<Rightarrow> string
    \<Rightarrow> ('w krworld, SignerKeyInfo) act" where
  "signer_CreateCovenantKey hst lib kl keyringDir chainID keyName backend passphrase hdPath =
     bindS (liftR (signer_CreateClientCtx hst keyringDir chainID)) (\<lambda>sdkCtx.
     bindS (signer_NewChainKeyringController lib sdkCtx keyName backend) (\<lambda>krController.
     signer_CreateChainKey lib kl krController passphrase hdPath))"

text \<open>What the key retriever asks of a controller: reset the reader, then look the key up.\<close>

definition retrieverController :: "'w KeyringController \<Rightarrow> 'w krworld ChainKeyringController" where
  "retrieverController kc =
     \<lparr>keyringKey = (\<lambda>passphrase name. bindS (ResetInput passphrase) (\<lambda>_.
        bindS (kr_Key (kc_kr kc) name) (\<lambda>r. returnS (SR_Key r)))),
      kc_keyName = kc_name kc\<rparr>"

definition NewCosmosKeyringRetriever ::
  "'h host \<Rightarrow> 'w sdklib \<Rightarrow> keylib \<Rightarrow> CosmosKeyStoreConfig
    \<Rightarrow> ('w krworld, 'w KeyringController \<times> 'w krworld krstate PrivKeyRetriever) act" where
  "NewCosmosKeyringRetriever hst lib kl cfg =
     bindS (ResetInput []) (\<lambda>_.
     bindS (mapErrS (\<lambda>e. ''failed to create keyring: '' @ e)
              (CreateKeyring hst lib (CKS_KeyDirectory cfg) (CKS_ChainID cfg) (CKS_KeyringBackend cfg))) (\<lambda>kr.
     bindS (liftR (NewChainKeyringControllerWithKeyring kr (CKS_KeyName cfg))) (\<lambda>kc.
     returnS (kc, KeyringRetriever kl (retrieverController kc)))))"

section \<open>Lemmas\<close>

text \<open>An account that was made can be looked up with its passphrase.\<close>

definition keyring_stores :: "'w sdkKeyring \<Rightarrow> bool" where
  "keyring_stores kr \<longleftrightarrow>
     (\<forall>name mnemonic passphrase hdPath algo w r w'.
        kr_NewAccount kr name mnemonic passphrase hdPath algo w = (Ok r, w') \<longrightarrow>
        (\<exists>w''. kr_Key kr name (w'\<lparr>kr_input := passphrase\<rparr>) = (Ok r, w'')))"

lemma newAccount_stored:
  assumes "keyring_stores (kc_kr kc)" "newAccount lib kc passphrase hdPath w = (Ok (m, r), w')"
  obtains w'' where "kr_Key (kc_kr kc) (kc_name kc) (w'\<lparr>kr_input := passphrase\<rparr>) = (Ok r, w'')"
proof -
  from assms(2) obtain algo u where
    "kr_NewAccount (kc_kr kc) (kc_name kc) m passphrase hdPath algo u = (Ok r, w')"
    by (auto simp: newAccount_def act_simps)
  with assms(1) that show thesis unfolding keyring_stores_def by blast
qed

lemma localKey_Ok_iff [act_simps]: "localKey r = Ok v \<longleftrightarrow> SR_Key r = LocalRecord (Secp256k1Key v)"
  by (auto simp: localKey_def split: KeyringRecord.splits CachedPrivKey.splits)

text \<open>Unlocking a locked retriever with the passphrase loads the key of the record.\<close>

lemma unlock_loads:
  assumes "kr_Key (kc_kr kc) (kc_name kc) ((kworld s)\<lparr>kr_input := passphrase\<rparr>) = (Ok r, w)"
    and "SR_Key r = LocalRecord (Secp256k1Key v)" "btcecPrivKey s = None"
  shows "\<exists>s'. UnlockKr kl (retrieverController kc) passphrase s = (Ok (), s')
    \<and> krCurrent s' = Some (PrivKeyFromBytes kl v)"
  using assms
  by (simp add: UnlockKr_def GetChainPrivKey_def retrieverController_def onKeyring_def ResetInput_def
      krCurrent_def)

lemma loaded_pubkey:
  "krCurrent s = Some k \<Longrightarrow> PubKeyApp loadKey (KeyringRetriever kl kc) sl s = (Ok (PrivKey_PubKey sl k), s)"
  by (auto simp: PubKeyApp_def KeyringRetriever_def PrivKeyKr_def krCurrent_def loadKey_def split: option.splits)

section \<open>Properties\<close>


text \<open>A keyring in memory.\<close>

definition sample_record :: sdkRecord where
  "sample_record = \<lparr>SR_Key = LocalRecord (Secp256k1Key [42]), SR_Address = Ok ''bbn1''\<rparr>"

definition sample_keyring :: "(string \<Rightarrow> sdkRecord option) sdkKeyring" where
  "sample_keyring = \<lparr>kr_SupportedAlgorithms = [''secp256k1''],
     kr_NewAccount = (\<lambda>name mnemonic passphrase hdPath algo w.
       (Ok sample_record, w\<lparr>kr_ext := (kr_ext w)(name \<mapsto> sample_record)\<rparr>)),
     kr_Key = (\<lambda>name w. (case kr_ext w name of Some r \<Rightarrow> Ok r | None \<Rightarrow> Err ''key not found'', w))\<rparr>"

definition sample_sdk :: "(string \<Rightarrow> sdkRecord option) sdklib" where
  "sample_sdk = \<lparr>keyring_New = (\<lambda>chainID backend dir. returnS sample_keyring),
     NewSigningAlgoFromString = (\<lambda>name algos. if name \<in> set algos then Ok name else Err ''unsupported''),
     bip39_NewEntropy = (\<lambda>n. returnS [1, 2]), bip39_NewMnemonic = (\<lambda>seed. Ok ''abandon''),
     MkAccKeyOutput = (\<lambda>r. Ok \<lparr>KO_Name = ''key'', KO_Address = ''bbn1''\<rparr>),
     btcecPubKey = PrivKey_PubKey sample_sl\<rparr>"

definition sample_krworld :: "(string \<Rightarrow> sdkRecord option) krworld" where
  "sample_krworld = \<lparr>kr_input = [], kr_ext = Map.empty\<rparr>"

lemma sample_keyring_stores: "keyring_stores sample_keyring"
  by (auto simp: keyring_stores_def sample_keyring_def)


end
