(* ===== verification/KeyUtils.thy ===== *)
theory KeyUtils
  imports Samples
begin

text \<open>
  Derivation of a child key from a master key (\<^verbatim>\<open>covenant-signer/keyutils/bip32deriv.go\<close>). The
  extended keys of package hdkeychain are opaque and their operations are parameters.

  The lemmas characterise the accepted derivation paths: exactly five elements, three hardened and
  two normal, each a decimal number of 32 bits, the hardened ones of 31 bits; printing such a path
  and parsing it gives the indices back, and the sum that marks an index as hardened never wraps.
\<close>

section \<open>Operations\<close>

definition HardenedPostfix :: string where
  "HardenedPostfix = ''h''"

definition ExpectedDerivationDepth :: nat where
  "ExpectedDerivationDepth = 5"

definition HardenedKeyStart :: uint32 where
  "HardenedKeyStart = 0x80000000"

definition MaxUint32 :: nat where
  "MaxUint32 = 2 ^ 32 - 1"

definition parseHardened :: "string \<Rightarrow> uint32 result" where
  "parseHardened elem =
     (if length elem < 2 then Err (''invalid hardened element: '' @ elem)
      else
        let number = TrimSuffix elem HardenedPostfix in
        if number = elem then Err ''invalid hardened element''
        else
          (case ParseUint MaxUint32 number of
             Inl e \<Rightarrow> Err ''invalid hardened element''
           | Inr parsedNum \<Rightarrow>
               let numAsUint32 = (word_of_nat parsedNum :: uint32) in
               if numAsUint32 \<ge> HardenedKeyStart
               then Err (''hardened index '' @ show_nat (unat numAsUint32) @ '' exceeds maximum allowed value ''
                         @ show_nat (unat (HardenedKeyStart - 1)))
               else Ok (HardenedKeyStart + numAsUint32)))"

definition parseNormal :: "string \<Rightarrow> uint32 result" where
  "parseNormal elem =
     (if length elem = 0 then Err ''invalid normal element''
      else
        (case ParseUint MaxUint32 elem of
           Inl e \<Rightarrow> Err ''invalid normal element''
         | Inr parsedNum \<Rightarrow> Ok (word_of_nat parsedNum)))"

definition pathElemErr :: "nat \<Rightarrow> 'a result \<Rightarrow> 'a result" where
  "pathElemErr i = wrapErr (''invalid derivation path element at index '' @ show_nat i)"

definition ParsePath :: "string \<Rightarrow> uint32 list result" where
  "ParsePath path =
     (let splitted = split_at_char CHR ''/'' path in
      if length splitted \<noteq> ExpectedDerivationDepth then Err ''invalid derivation path length''
      else
        bindR (pathElemErr 0 (parseHardened (splitted ! 0))) (\<lambda>h1.
        bindR (pathElemErr 1 (parseHardened (splitted ! 1))) (\<lambda>h2.
        bindR (pathElemErr 2 (parseHardened (splitted ! 2))) (\<lambda>h3.
        bindR (pathElemErr 3 (parseNormal (splitted ! 3))) (\<lambda>n4.
        bindR (pathElemErr 4 (parseNormal (splitted ! 4))) (\<lambda>n5.
        Ok [h1, h2, h3, n4, n5]))))))"

datatype ExtendedKey = ExtendedKey bytes

record hdkeychain =
  NewKeyFromString :: "string \<Rightarrow> ExtendedKey result"
  Key_Derive :: "ExtendedKey \<Rightarrow> uint32 \<Rightarrow> ExtendedKey result"
  Key_ECPrivKey :: "ExtendedKey \<Rightarrow> PrivateKey result"
  HD_PubKey :: "PrivateKey \<Rightarrow> PublicKey"
  HD_PrivKey_Serialize :: "PrivateKey \<Rightarrow> bytes"

record DerivationResult =
  DR_PrivateKey :: string
  DR_PublicKey :: string

fun deriveLoop :: "hdkeychain \<Rightarrow> ExtendedKey \<Rightarrow> uint32 list \<Rightarrow> ExtendedKey result" where
  "deriveLoop hdk keyResult [] = Ok keyResult"
| "deriveLoop hdk keyResult (elem # rest) =
     bindR (wrapErr ''failed to derive child key'' (Key_Derive hdk keyResult elem)) (\<lambda>k.
     deriveLoop hdk k rest)"

definition DeriveChildKey :: "btclib \<Rightarrow> hdkeychain \<Rightarrow> string \<Rightarrow> string \<Rightarrow> DerivationResult result" where
  "DeriveChildKey blib hdk masterKey childPath =
     bindR (wrapErr ''invalid master key'' (NewKeyFromString hdk masterKey)) (\<lambda>parsedMasterKey.
     bindR (wrapErr ''invalid derivation path'' (ParsePath childPath)) (\<lambda>derivationPath.
     bindR (deriveLoop hdk parsedMasterKey derivationPath) (\<lambda>keyResult.
     bindR (wrapErr ''failed to get private key'' (Key_ECPrivKey hdk keyResult)) (\<lambda>privKey.
     Ok \<lparr>DR_PrivateKey = EncodeToString (HD_PrivKey_Serialize hdk privKey),
         DR_PublicKey = EncodeToString (SerializeCompressed blib (HD_PubKey hdk privKey))\<rparr>))))"

section \<open>Lemmas\<close>

lemma TrimSuffix_h: "TrimSuffix (s @ ''h'') HardenedPostfix = s"
  by (simp add: TrimSuffix_def HardenedPostfix_def)

lemma TrimSuffix_h_eq:
  "TrimSuffix s HardenedPostfix \<noteq> s \<Longrightarrow> s = TrimSuffix s HardenedPostfix @ ''h''"
  by (auto simp: TrimSuffix_def HardenedPostfix_def split: if_splits)
     (metis append_take_drop_id)

lemma word_of_nat_uint32: "n \<le> MaxUint32 \<Longrightarrow> unat (word_of_nat n :: uint32) = n"
  by (simp add: unat_of_nat MaxUint32_def)

lemma ParseUint32: "ParseUint MaxUint32 s = Inr n \<Longrightarrow> unat (word_of_nat n :: uint32) = n"
  using ParseUint_le word_of_nat_uint32 by blast

text \<open>A hardened element is a number of 31 bits followed by the postfix, and the sum does not wrap.\<close>

lemma parseHardened_Ok:
  assumes "parseHardened s = Ok w"
  obtains d n where "s = d @ ''h''" "ParseUint MaxUint32 d = Inr n" "n < 2 ^ 31" "unat w = 2 ^ 31 + n"
proof -
  let ?d = "TrimSuffix s HardenedPostfix"
  from assms obtain n where d: "?d \<noteq> s" "ParseUint MaxUint32 ?d = Inr n"
    and n: "\<not> HardenedKeyStart \<le> (word_of_nat n :: uint32)" and w: "w = HardenedKeyStart + word_of_nat n"
    by (auto simp: parseHardened_def Let_def split: if_splits sum.splits)
  from ParseUint32 [OF d(2)] n have "n < 2 ^ 31"
    by (simp add: HardenedKeyStart_def word_le_nat_alt)
  moreover from this ParseUint32 [OF d(2)] have "unat w = 2 ^ 31 + n"
    unfolding w by (simp add: HardenedKeyStart_def unat_word_ariths)
  ultimately show thesis using TrimSuffix_h_eq [OF d(1)] d(2) that by blast
qed

lemma parseHardened_show:
  assumes "n < 2 ^ 31"
  shows "parseHardened (show_nat n @ ''h'') = Ok (HardenedKeyStart + word_of_nat n)"
proof -
  have "ParseUint MaxUint32 (show_nat n) = Inr n" using assms by (simp add: ParseUint_show_nat MaxUint32_def)
  moreover have "unat (word_of_nat n :: uint32) = n" using assms by (simp add: word_of_nat_uint32 MaxUint32_def)
  moreover have "0 < length (show_nat n)" by simp
  ultimately show ?thesis
    using assms
    by (auto simp: parseHardened_def TrimSuffix_h Let_def HardenedKeyStart_def word_le_nat_alt
        simp del: length_greater_0_conv)
qed

lemma parseNormal_show: "n < 2 ^ 32 \<Longrightarrow> parseNormal (show_nat n) = Ok (word_of_nat n)"
  by (simp add: parseNormal_def ParseUint_show_nat MaxUint32_def)

lemma parseNormal_Ok:
  assumes "parseNormal s = Ok w"
  obtains n where "ParseUint MaxUint32 s = Inr n" "unat w = n"
  using assms ParseUint32 [of s] by (auto simp: parseNormal_def split: if_splits sum.splits)

lemma digits_no_slash: "\<forall>c \<in> set s. is_digit c \<Longrightarrow> CHR ''/'' \<notin> set s"
  by (auto simp: is_digit_def)

fun join_sep :: "char \<Rightarrow> string list \<Rightarrow> string" where
  "join_sep sep [] = []"
| "join_sep sep [w] = w"
| "join_sep sep (w # v # ws) = w @ sep # join_sep sep (v # ws)"

lemma join_split: "join_sep sep (split_at_char sep s) = s"
proof (induction s)
  case Nil
  show ?case by simp
next
  case (Cons c s)
  obtain w ws where "split_at_char sep s = w # ws" by (cases "split_at_char sep s") simp_all
  with Cons show ?case by (cases ws) auto
qed

lemma length_5:
  "length xs = 5 \<Longrightarrow> xs = [xs ! 0, xs ! 1, xs ! 2, xs ! 3, xs ! 4]"
  by (auto simp: list_eq_iff_nth_eq nth_Cons' numeral_eq_Suc less_Suc_eq)

lemma ParsePath_show:
  assumes "n1 < 2 ^ 31" "n2 < 2 ^ 31" "n3 < 2 ^ 31" "n4 < 2 ^ 32" "n5 < 2 ^ 32"
  shows "ParsePath (show_nat n1 @ ''h/'' @ show_nat n2 @ ''h/'' @ show_nat n3 @ ''h/''
      @ show_nat n4 @ ''/'' @ show_nat n5)
    = Ok [HardenedKeyStart + word_of_nat n1, HardenedKeyStart + word_of_nat n2,
          HardenedKeyStart + word_of_nat n3, word_of_nat n4, word_of_nat n5]"
proof -
  have ns: "CHR ''/'' \<notin> set (show_nat n)" for n using show_nat_digits digits_no_slash by blast
  then have nh: "CHR ''/'' \<notin> set (show_nat n @ ''h'')" for n by simp
  have "split_at_char CHR ''/'' (show_nat n1 @ ''h/'' @ show_nat n2 @ ''h/'' @ show_nat n3 @ ''h/''
      @ show_nat n4 @ ''/'' @ show_nat n5)
    = [show_nat n1 @ ''h'', show_nat n2 @ ''h'', show_nat n3 @ ''h'', show_nat n4, show_nat n5]"
    using split_at_char_append [OF nh] split_at_char_append [OF ns] split_at_char_no_sep [OF ns]
    by simp
  then show ?thesis
    using parseHardened_show [OF assms(1)] parseHardened_show [OF assms(2)] parseHardened_show [OF assms(3)]
      parseNormal_show [OF assms(4)] parseNormal_show [OF assms(5)]
    by (simp add: ParsePath_def Let_def ExpectedDerivationDepth_def pathElemErr_def)
qed

section \<open>Properties\<close>

text \<open>
  A derivation path that parses has exactly five elements: three decimal numbers of 31 bits with
  the hardened postfix and two decimal numbers of 32 bits, and the indices are those numbers, the
  hardened ones raised by 2 to the 31 without wrap around.
\<close>

lemma ParsePath_sound:
  assumes "ParsePath path = Ok ws"
  shows "\<exists>d1 d2 d3 d4 d5 n1 n2 n3 n4 n5.
    path = d1 @ ''h/'' @ d2 @ ''h/'' @ d3 @ ''h/'' @ d4 @ ''/'' @ d5
    \<and> ParseUint MaxUint32 d1 = Inr n1 \<and> ParseUint MaxUint32 d2 = Inr n2 \<and> ParseUint MaxUint32 d3 = Inr n3
    \<and> ParseUint MaxUint32 d4 = Inr n4 \<and> ParseUint MaxUint32 d5 = Inr n5
    \<and> n1 < 2 ^ 31 \<and> n2 < 2 ^ 31 \<and> n3 < 2 ^ 31
    \<and> map unat ws = [2 ^ 31 + n1, 2 ^ 31 + n2, 2 ^ 31 + n3, n4, n5]"
proof -
  let ?s = "split_at_char CHR ''/'' path"
  from assms obtain h1 h2 h3 w4 w5 where len: "length ?s = 5"
    and h: "parseHardened (?s ! 0) = Ok h1" "parseHardened (?s ! 1) = Ok h2" "parseHardened (?s ! 2) = Ok h3"
    and w: "parseNormal (?s ! 3) = Ok w4" "parseNormal (?s ! 4) = Ok w5" and ws: "ws = [h1, h2, h3, w4, w5]"
    by (auto simp: ParsePath_def Let_def ExpectedDerivationDepth_def pathElemErr_def act_simps
        split: if_splits)
  obtain d1 n1 where 1: "?s ! 0 = d1 @ ''h''" "ParseUint MaxUint32 d1 = Inr n1" "n1 < 2 ^ 31"
    "unat h1 = 2 ^ 31 + n1" using h(1) by (rule parseHardened_Ok)
  obtain d2 n2 where 2: "?s ! 1 = d2 @ ''h''" "ParseUint MaxUint32 d2 = Inr n2" "n2 < 2 ^ 31"
    "unat h2 = 2 ^ 31 + n2" using h(2) by (rule parseHardened_Ok)
  obtain d3 n3 where 3: "?s ! 2 = d3 @ ''h''" "ParseUint MaxUint32 d3 = Inr n3" "n3 < 2 ^ 31"
    "unat h3 = 2 ^ 31 + n3" using h(3) by (rule parseHardened_Ok)
  obtain n4 where 4: "ParseUint MaxUint32 (?s ! 3) = Inr n4" "unat w4 = n4" using w(1) by (rule parseNormal_Ok)
  obtain n5 where 5: "ParseUint MaxUint32 (?s ! 4) = Inr n5" "unat w5 = n5" using w(2) by (rule parseNormal_Ok)
  have "path = join_sep CHR ''/'' [?s ! 0, ?s ! 1, ?s ! 2, ?s ! 3, ?s ! 4]"
    using arg_cong [OF length_5 [OF len], of "join_sep CHR ''/''"] by (simp only: join_split)
  also have "\<dots> = d1 @ ''h/'' @ d2 @ ''h/'' @ d3 @ ''h/'' @ (?s ! 3) @ ''/'' @ (?s ! 4)"
    using 1 2 3 by simp
  finally have "path = d1 @ ''h/'' @ d2 @ ''h/'' @ d3 @ ''h/'' @ (?s ! 3) @ ''/'' @ (?s ! 4)" .
  moreover have "map unat ws = [2 ^ 31 + n1, 2 ^ 31 + n2, 2 ^ 31 + n3, n4, n5]"
    using 1(4) 2(4) 3(4) 4(2) 5(2) ws by simp
  ultimately have "path = d1 @ ''h/'' @ d2 @ ''h/'' @ d3 @ ''h/'' @ (?s ! 3) @ ''/'' @ (?s ! 4)
    \<and> ParseUint MaxUint32 d1 = Inr n1 \<and> ParseUint MaxUint32 d2 = Inr n2 \<and> ParseUint MaxUint32 d3 = Inr n3
    \<and> ParseUint MaxUint32 (?s ! 3) = Inr n4 \<and> ParseUint MaxUint32 (?s ! 4) = Inr n5
    \<and> n1 < 2 ^ 31 \<and> n2 < 2 ^ 31 \<and> n3 < 2 ^ 31
    \<and> map unat ws = [2 ^ 31 + n1, 2 ^ 31 + n2, 2 ^ 31 + n3, n4, n5]"
    using 1(2,3) 2(2,3) 3(2,3) 4(1) 5(1) by (intro conjI)
  then show ?thesis by - (intro exI, assumption)
qed

text \<open>
  Every such path is accepted: printing three numbers of 31 bits and two of 32 bits in the
  documented form and parsing the text gives the indices.
\<close>

lemma ParsePath_complete:
  assumes "n1 < 2 ^ 31" "n2 < 2 ^ 31" "n3 < 2 ^ 31" "n4 < 2 ^ 32" "n5 < 2 ^ 32"
  shows "ParsePath (show_nat n1 @ ''h/'' @ show_nat n2 @ ''h/'' @ show_nat n3 @ ''h/''
      @ show_nat n4 @ ''/'' @ show_nat n5)
    = Ok [HardenedKeyStart + word_of_nat n1, HardenedKeyStart + word_of_nat n2,
          HardenedKeyStart + word_of_nat n3, word_of_nat n4, word_of_nat n5]"
  using ParsePath_show [OF assms] .

lemma show_nat_digit: "n < 10 \<Longrightarrow> show_nat n = [digit_char n]"
  by (simp add: show_nat.simps)

lemma digit_char_0_1: "digit_char 0 = CHR ''0''" "digit_char (Suc 0) = CHR ''1''"
  by (simp_all add: digit_char_def char_of_def bit_iff_odd)

lemma ParsePath_complete_example:
  "ParsePath ''1h/1h/0h/0/1'' = Ok [0x80000001, 0x80000001, 0x80000000, 0, 1]"
  using ParsePath_complete [of 1 1 0 0 1]
  by (simp add: show_nat_digit digit_char_0_1 HardenedKeyStart_def)

lemma ParsePath_sound_example:
  "\<exists>d1 rest. ''1h/1h/0h/0/1'' = d1 @ ''h/'' @ rest \<and> ParseUint MaxUint32 d1 = Inr 1"
proof -
  let ?ws = "[0x80000001, 0x80000001, 0x80000000, 0, 1] :: uint32 list"
  have one: "is_digit CHR ''1''" "digit_val CHR ''1'' = 1" "is_digit CHR ''0''" "digit_val CHR ''0'' = 0"
    by (simp_all add: is_digit_def digit_val_def)
  have "ParsePath ''1h/1h/0h/0/1'' = Ok ?ws"
    by (simp add: ParsePath_def Let_def ExpectedDerivationDepth_def pathElemErr_def parseHardened_def
        parseNormal_def TrimSuffix_def HardenedPostfix_def ParseUint_def one MaxUint32_def HardenedKeyStart_def
        word_le_nat_alt)
  from ParsePath_sound [OF this] show ?thesis
  proof (elim exE conjE)
    fix d1 d2 d3 d4 d5 n1 n2 n3 n4 n5
    assume "''1h/1h/0h/0/1'' = d1 @ ''h/'' @ d2 @ ''h/'' @ d3 @ ''h/'' @ d4 @ ''/'' @ d5"
      and "ParseUint MaxUint32 d1 = Inr n1"
      and "map unat ?ws = [2 ^ 31 + n1, 2 ^ 31 + n2, 2 ^ 31 + n3, n4, n5]"
    moreover from this(3) have "n1 = 1" by simp
    ultimately show ?thesis
      by (intro exI [of _ d1] exI [of _ "d2 @ ''h/'' @ d3 @ ''h/'' @ d4 @ ''/'' @ d5"]) simp
  qed
qed

text \<open>
  Deriving a child key along a printed path derives the five indices in the order of the path,
  stops at the first failure with its error, and returns the hexadecimal private key and compressed
  public key of the last one.
\<close>

lemma DeriveChildKey_path:
  assumes "n1 < 2 ^ 31" "n2 < 2 ^ 31" "n3 < 2 ^ 31" "n4 < 2 ^ 32" "n5 < 2 ^ 32"
  shows "DeriveChildKey blib hdk master (show_nat n1 @ ''h/'' @ show_nat n2 @ ''h/'' @ show_nat n3 @ ''h/''
      @ show_nat n4 @ ''/'' @ show_nat n5) =
    bindR (wrapErr ''invalid master key'' (NewKeyFromString hdk master)) (\<lambda>k0.
    let derive = (\<lambda>i k. wrapErr ''failed to derive child key'' (Key_Derive hdk k i)) in
    bindR (derive (HardenedKeyStart + word_of_nat n1) k0) (\<lambda>k1.
    bindR (derive (HardenedKeyStart + word_of_nat n2) k1) (\<lambda>k2.
    bindR (derive (HardenedKeyStart + word_of_nat n3) k2) (\<lambda>k3.
    bindR (derive (word_of_nat n4) k3) (\<lambda>k4.
    bindR (derive (word_of_nat n5) k4) (\<lambda>k5.
    bindR (wrapErr ''failed to get private key'' (Key_ECPrivKey hdk k5)) (\<lambda>sk.
    Ok \<lparr>DR_PrivateKey = EncodeToString (HD_PrivKey_Serialize hdk sk),
        DR_PublicKey = EncodeToString (SerializeCompressed blib (HD_PubKey hdk sk))\<rparr>)))))))"
  unfolding DeriveChildKey_def ParsePath_show [OF assms]
  by (simp add: Let_def bindR_assoc)

definition sample_hdk :: hdkeychain where
  "sample_hdk = \<lparr>NewKeyFromString = (\<lambda>s. Ok (ExtendedKey [])),
     Key_Derive = (\<lambda>k i. case k of ExtendedKey b \<Rightarrow> Ok (ExtendedKey (b @ [word_of_nat (unat i mod 256)]))),
     Key_ECPrivKey = (\<lambda>k. case k of ExtendedKey b \<Rightarrow> Ok (PrivateKey b)),
     HD_PubKey = (\<lambda>k. case k of PrivateKey b \<Rightarrow> PublicKey b),
     HD_PrivKey_Serialize = (\<lambda>k. case k of PrivateKey b \<Rightarrow> b)\<rparr>"

lemma DeriveChildKey_path_example:
  "DeriveChildKey sample_blib sample_hdk ''xprv'' ''1h/1h/0h/0/1''
     = Ok \<lparr>DR_PrivateKey = EncodeToString [1, 1, 0, 0, 1], DR_PublicKey = EncodeToString [1, 1, 0, 0, 1]\<rparr>"
proof -
  have path: "show_nat 1 @ ''h/'' @ show_nat 1 @ ''h/'' @ show_nat 0 @ ''h/'' @ show_nat 0 @ ''/'' @ show_nat 1
      = ''1h/1h/0h/0/1''"
    by (simp add: show_nat_digit digit_char_0_1)
  have n: "(1 :: nat) < 2 ^ 31" "(0 :: nat) < 2 ^ 31" "(0 :: nat) < 2 ^ 32" "(1 :: nat) < 2 ^ 32"
    by simp_all
  show ?thesis
    unfolding DeriveChildKey_path [OF n(1) n(1) n(2) n(3) n(4), of sample_blib sample_hdk "''xprv''",
        unfolded path]
    by (simp add: HardenedKeyStart_def sample_hdk_def sample_blib_def Let_def)
qed

end
