(* ===== verification/SignerCmd.thy ===== *)
theory SignerCmd
  imports Keyring HttpService KeyUtils
begin

text \<open>
  The commands of the signing service (\<^verbatim>\<open>covenant-signer/cmd/\<close>): \<^verbatim>\<open>start\<close>, \<^verbatim>\<open>dump-cfg\<close> and
  \<^verbatim>\<open>derive-child-key\<close>, with the reading and writing of the configuration file
  (\<^verbatim>\<open>covenant-signer/config/config.go\<close>) and the construction of the server
  (\<^verbatim>\<open>covenant-signer/signerservice/server.go\<close>). The commands are given the values of
  their flags, which \<open>SignerMain\<close> reads from the command line; the TOML reader (package viper) is a parameter.

  The lemmas compose the command with the service: in every state that a started server can reach by
  requests, the key it holds is the configured one.
\<close>

section \<open>The configuration file\<close>

text \<open>\<^verbatim>\<open>filepath.Split\<close> and \<^verbatim>\<open>filepath.Ext\<close> on Unix\<close>

definition SplitPath :: "string \<Rightarrow> string \<times> string" where
  "SplitPath p =
     (let file = rev (takeWhile (\<lambda>c. c \<noteq> sep) (rev p)) in (take (length p - length file) p, file))"

definition Ext :: "string \<Rightarrow> string" where
  "Ext p =
     (let r = takeWhile (\<lambda>c. c \<noteq> sep) (rev p); e = takeWhile (\<lambda>c. c \<noteq> CHR ''.'') r
      in if length e < length r then CHR ''.'' # rev e else [])"

definition fileNameWithoutExtension :: "string \<Rightarrow> string" where
  "fileNameWithoutExtension fileName = TrimSuffix fileName (Ext fileName)"

text \<open>The TOML reader: a document by the name and the directory of its file, and its values over a default.\<close>

record ('w, 'doc) viper =
  viper_ReadInConfig :: "string \<Rightarrow> string \<Rightarrow> ('w, 'doc) act"
  viper_Unmarshal :: "'doc \<Rightarrow> SignerConfig \<Rightarrow> SignerConfig result"

definition GetConfig :: "('w, 'doc) viper \<Rightarrow> string \<Rightarrow> ('w, SignerConfig) act" where
  "GetConfig vp pathToConfFile =
     (case SplitPath pathToConfFile of (dir, file) \<Rightarrow>
      bindS (viper_ReadInConfig vp (fileNameWithoutExtension file) dir) (\<lambda>doc.
      bindS (liftR DefaultSignerConfig) (\<lambda>conf.
      liftR (viper_Unmarshal vp doc conf))))"

definition writeConfigToFile :: "'w host \<Rightarrow> string \<Rightarrow> SignerConfig \<Rightarrow> ('w, unit) act" where
  "writeConfigToFile hst path cfg = bindS (liftR (renderConfig cfg)) (\<lambda>t. os_WriteFile hst path t)"

text \<open>A file that exists, or whose state cannot be read, is left alone.\<close>

definition WriteConfigToFile :: "'w host \<Rightarrow> string \<Rightarrow> SignerConfig \<Rightarrow> ('w, unit) act" where
  "WriteConfigToFile hst pathToConfFile conf = (\<lambda>w.
     case os_Stat hst pathToConfFile w of
       StatNotExist \<Rightarrow>
         (case os_MkdirAll hst (fst (SplitPath pathToConfFile)) w of
            (Some e, w1) \<Rightarrow> (Err (''couldn't make config: '' @ Mkdir_Text e), w1)
          | (None, w1) \<Rightarrow>
              mapErrS (\<lambda>e. ''could config to the file: '' @ e) (writeConfigToFile hst pathToConfFile conf) w1)
     | _ \<Rightarrow> (Ok (), w))"

text \<open>The text that the command prints is its result.\<close>

definition dumpCfgCmd :: "'w host \<Rightarrow> string \<Rightarrow> ('w, string) act" where
  "dumpCfgCmd hst path =
     bindS (liftR DefaultSignerConfig) (\<lambda>cfg.
     bindS (WriteConfigToFile hst path cfg) (\<lambda>_.
     returnS (''Default configuration file dumped to: '' @ path @ '' '' @ [CHR 0x0A])))"

definition deriveChildKeyCmd :: "btclib \<Rightarrow> hdkeychain \<Rightarrow> string \<Rightarrow> string \<Rightarrow> string result" where
  "deriveChildKeyCmd blib hdk masterKey derivationPath =
     bindR (DeriveChildKey blib hdk masterKey derivationPath) (\<lambda>result.
     Ok (''Derived private key: '' @ DR_PrivateKey result @ [CHR 0x0A]
         @ ''Derived public key: '' @ DR_PublicKey result @ [CHR 0x0A]))"

section \<open>The server\<close>

record 's SigningServer =
  SS_Addr :: string
  SS_WriteTimeout :: int64
  SS_ReadTimeout :: int64
  SS_IdleTimeout :: int64
  SS_Handler :: "'s httpHandler"

definition NewSigningServer :: "chi \<Rightarrow> ParsedConfig \<Rightarrow> 's Handler \<Rightarrow> 's SigningServer" where
  "NewSigningServer mux cfg h =
     (let sc = PC_ServerConfig cfg
      in \<lparr>SS_Addr = PSC_Host sc @ '':'' @ show_int (PSC_Port sc), SS_WriteTimeout = PSC_WriteTimeout sc,
          SS_ReadTimeout = PSC_ReadTimeout sc, SS_IdleTimeout = PSC_IdleTimeout sc,
          SS_Handler = serveHTTP mux sc h\<rparr>)"

text \<open>A retriever that was just made: locked, with no key in memory.\<close>

definition krNew :: "'w \<Rightarrow> 'w krstate" where
  "krNew w = \<lparr>keyHeap = (\<lambda>_. PrivateKey []), keyNext = 0, btcecPrivKey = None, kworld = w\<rparr>"

text \<open>The packages the command uses.\<close>

record ('w, 'doc) signerEnv =
  se_host :: "'w krworld host"
  se_viper :: "('w krworld, 'doc) viper"
  se_sdk :: "'w sdklib"
  se_kl :: keylib
  se_blib :: btclib
  se_sl :: signlib
  se_chi :: chi

text \<open>
  Up to the point where the server listens: the server, the address of the metrics, the controller of
  the key, and the state the requests start from.
\<close>

record 'w started =
  st_server :: "'w krworld krstate SigningServer"
  st_config :: ParsedConfig
  st_metricsAddr :: string
  st_controller :: "'w KeyringController"
  st_state :: "'w krworld krstate server"

definition runSignerCmd :: "('w, 'doc) signerEnv \<Rightarrow> string \<Rightarrow> ('w krworld, 'w started) act" where
  "runSignerCmd env configPath =
     bindS (GetConfig (se_viper env) configPath) (\<lambda>cfg.
     bindS (liftR (ParseSignerConfig cfg)) (\<lambda>parsedConfig.
     if PKS_KeyStoreType (PC_KeyStoreConfig parsedConfig) \<noteq> CosmosKeyStoreTag
     then failS ''unknown key store type''
     else
       bindS (liftR (derefR (PKS_CosmosKeyStore (PC_KeyStoreConfig parsedConfig)))) (\<lambda>ks.
       bindS (NewCosmosKeyringRetriever (se_host env) (se_sdk env) (se_kl env) ks) (\<lambda>(kc, prk) w.
         (Ok \<lparr>st_server = NewSigningServer (se_chi env) parsedConfig
                \<lparr>h_load = loadKey, h_pkr = prk, h_blib = se_blib env, h_sl = se_sl env\<rparr>,
              st_config = parsedConfig,
              st_metricsAddr = SM_Host (SCfg_Metrics cfg) @ '':'' @ show_int (SM_Port (SCfg_Metrics cfg)),
              st_controller = kc,
              st_state = NewCovenantSignerMetrics (krNew w)\<rparr>, w)))))"

text \<open>Requests to the server, one after the other.\<close>

inductive requestStep :: "'s SigningServer \<Rightarrow> 's server \<Rightarrow> 's server \<Rightarrow> bool" for srv where
  handle: "SS_Handler srv r s = (res, s') \<Longrightarrow> requestStep srv s s'"

inductive_cases requestStepE: "requestStep srv s s'"

section \<open>Lemmas\<close>

lemma keeps_onSigner: "keeps I m \<Longrightarrow> keeps (\<lambda>s. I (signerState s)) (onSigner m)"
  by (rule keepsI) (auto simp: onSigner_def split: prod.splits dest: keepsD)

lemma keeps_metric: "(\<And>s. signerState (f s) = signerState s) \<Longrightarrow> keeps (\<lambda>s. I (signerState s)) (modifyS f)"
  by (rule keeps_modifyS) simp

text \<open>The handlers only act on the signer through the four calls of the state machine of \<open>SignerApp\<close>.\<close>

lemma keeps_krInv_handlers:
  fixes kl kc blib sl
  defines "h \<equiv> keyringHandler kl kc blib sl"
  shows "keeps (\<lambda>s. krInv kl kc (signerState s)) (HandleSignTransactions h r)"
    and "keeps (\<lambda>s. krInv kl kc (signerState s)) (HandleUnlock h r)"
    and "keeps (\<lambda>s. krInv kl kc (signerState s)) (HandleLock h r)"
    and "keeps (\<lambda>s. krInv kl kc (signerState s)) (HandleGetPublicKey h r)"
proof -
  have calls: "keeps (krInv kl kc) (SignTransactionsApp loadKey (KeyringRetriever kl kc) blib sl req)"
    "keeps (krInv kl kc) (PubKeyApp loadKey (KeyringRetriever kl kc) sl)"
    "keeps (krInv kl kc) (UnlockApp (KeyringRetriever kl kc) pw)"
    "keeps (krInv kl kc) (LockApp (KeyringRetriever kl kc))" for req pw
    by (auto simp: UnlockApp_def LockApp_def KeyringRetriever_def [of kl kc] intro!: keepsI
        dest: krInv_unlock krInv_lock read_only [unfolded KeyringRetriever_def])
  note i = keeps_intros keeps_onSigner keeps_metric calls
  have h: "h_load h = loadKey" "h_pkr h = KeyringRetriever kl kc" "h_blib h = blib" "h_sl h = sl"
    by (simp_all add: h_def keyringHandler_def)
  show "keeps (\<lambda>s. krInv kl kc (signerState s)) (HandleSignTransactions h r)"
    unfolding HandleSignTransactions_def h metric_defs by (intro i) simp_all
  show "keeps (\<lambda>s. krInv kl kc (signerState s)) (HandleUnlock h r)"
    unfolding HandleUnlock_def h metric_defs by (intro i) simp_all
  show "keeps (\<lambda>s. krInv kl kc (signerState s)) (HandleLock h r)"
    unfolding HandleLock_def h metric_defs by (intro i) simp_all
  show "keeps (\<lambda>s. krInv kl kc (signerState s)) (HandleGetPublicKey h r)"
    unfolding HandleGetPublicKey_def h metric_defs by (intro i)
qed

lemma keeps_krInv_serve:
  assumes "chi_law mux"
  shows "keeps (\<lambda>s. krInv kl kc (signerState s)) (serveHTTP mux cfg (keyringHandler kl kc blib sl) r)"
proof (rule keeps_serveHTTP)
  fix r
  show "keeps (\<lambda>s. krInv kl kc (signerState s)) (routeRequest mux (SetupRoutes (keyringHandler kl kc blib sl)) r)"
    using assms by (rule routeRequest_cases [where h = "keyringHandler kl kc blib sl" and r = r])
      (simp_all add: keeps_registerHandler keeps_krInv_handlers keeps_returnS)
qed

lemma runSignerCmd_Ok:
  assumes "runSignerCmd env path w = (Ok st, w')"
  shows "SS_Handler (st_server st) = serveHTTP (se_chi env) (PC_ServerConfig (st_config st))
      (keyringHandler (se_kl env) (retrieverController (st_controller st)) (se_blib env) (se_sl env))"
    and "st_state st = NewCovenantSignerMetrics (krNew w')"
    and "\<exists>cfg ks w1. GetConfig (se_viper env) path w = (Ok cfg, w1) \<and> ParseSignerConfig cfg = Ok (st_config st)
      \<and> KS_CosmosKeyStore (SCfg_KeyStore cfg) = Some ks \<and> kc_name (st_controller st) = CKS_KeyName ks
      \<and> st_server st = NewSigningServer (se_chi env) (st_config st)
          (keyringHandler (se_kl env) (retrieverController (st_controller st)) (se_blib env) (se_sl env))"
  using assms
  by (auto simp: runSignerCmd_def NewCosmosKeyringRetriever_def NewChainKeyringControllerWithKeyring_def
      NewSigningServer_def keyringHandler_def Let_def ParseSignerConfig_def ParseKeyStore_def act_simps
      split: if_splits)

text \<open>After any sequence of requests the key of a started server is the one of its keyring.\<close>

lemma started_krInv:
  assumes "chi_law (se_chi env)" and "runSignerCmd env path w = (Ok st, w')"
    and "(requestStep (st_server st))\<^sup>*\<^sup>* (st_state st) s"
  shows "krInv (se_kl env) (retrieverController (st_controller st)) (signerState s)"
  using assms(3)
proof (rule rtranclp_induct)
  let ?kc = "retrieverController (st_controller st)"
  note run = runSignerCmd_Ok [OF assms(2)]
  show "krInv (se_kl env) ?kc (signerState (st_state st))"
    by (simp add: run(2) NewCovenantSignerMetrics_def krNew_def krInv_def)
  show "krInv (se_kl env) ?kc (signerState u)"
    if "requestStep (st_server st) t u" "krInv (se_kl env) ?kc (signerState t)" for t u
    using that keepsD [where I = "\<lambda>s. krInv (se_kl env) ?kc (signerState s)", OF keeps_krInv_serve [OF assms(1)]]
    by (auto elim!: requestStepE simp: run(1))
qed

lemma ParseSignerConfig_timeouts:
  assumes "ParseSignerConfig cfg = Ok p"
  shows "sint (PSC_ReadTimeout (PC_ServerConfig p)) = uint (SC_ReadTimeout (SCfg_Server cfg)) * 1000000000"
    and "sint (PSC_WriteTimeout (PC_ServerConfig p)) = uint (SC_WriteTimeout (SCfg_Server cfg)) * 1000000000"
    and "sint (PSC_IdleTimeout (PC_ServerConfig p)) = uint (SC_IdleTimeout (SCfg_Server cfg)) * 1000000000"
  using assms by (auto simp: ParseSignerConfig_def ParseServer_def act_simps secondsDuration_exact)

text \<open>The default configuration names no keyring backend.\<close>

lemma default_config_refused:
  assumes "GetConfig (se_viper env) path w = (Ok cfg, w1)" "DefaultSignerConfig = Ok cfg"
    and "UserHomeDir (se_host env) = Ok dir"
  shows "\<exists>w'. runSignerCmd env path w
    = (Err ''failed to create keyring: the keyring backend should not be empty'', w')"
proof -
  have "ParseIP ''127.0.0.1''" by code_simp
  with assms show ?thesis
    by (auto simp: runSignerCmd_def DefaultSignerConfig_def DefaultKeyStoreConfig_def KeyStoreToString_def
        ParseSignerConfig_def ParseKeyStore_def KeyStoreFromString_def ParseServer_def ParseMetrics_def
        DefaultSignerMetricsConfig_def NewCosmosKeyringRetriever_def CreateKeyring_def signer_CreateClientCtx_def
        CreateClientCtx_def ResetInput_def)
qed

text \<open>The dump command reports success for a file that exists, and does not write it.\<close>

lemma dump_existing:
  assumes "os_Stat hst path w \<noteq> StatNotExist"
  shows "dumpCfgCmd hst path w = (Ok (''Default configuration file dumped to: '' @ path @ '' '' @ [CHR 0x0A]), w)"
proof -
  have "WriteConfigToFile hst path cfg w = (Ok (), w)" for cfg
    using assms by (auto simp: WriteConfigToFile_def split: statResult.splits)
  then show ?thesis
    by (simp add: dumpCfgCmd_def DefaultSignerConfig_def DefaultKeyStoreConfig_def KeyStoreToString_def)
qed

section \<open>Properties\<close>


definition sample_signer_env :: "(string \<Rightarrow> sdkRecord option, unit) signerEnv" where
  "sample_signer_env = \<lparr>
     se_host = \<lparr>userCurrent = Ok ''/root'', Getenv = (\<lambda>_. []), Getwd = Ok ''/root'', os_Stat = (\<lambda>p w. StatOk),
       os_MkdirAll = (\<lambda>p w. (None, w)), os_Readlink = (\<lambda>p w. Err ''not a link''), os_OpenAppend = (\<lambda>p. returnS ()),
       os_WriteFile = (\<lambda>p t. returnS ())\<rparr>,
     se_viper = \<lparr>viper_ReadInConfig = (\<lambda>name dir. returnS ()), viper_Unmarshal = (\<lambda>doc cfg. Ok (cfg\<lparr>SCfg_KeyStore :=
       \<lparr>KS_KeyStoreType = ''cosmos'', KS_CosmosKeyStore = Some \<lparr>CKS_ChainID = ''chain-test'',
         CKS_KeyDirectory = ''/keys'', CKS_KeyringBackend = ''test'', CKS_KeyName = ''key''\<rparr>\<rparr>\<rparr>))\<rparr>,
     se_sdk = sample_sdk, se_kl = sample_kl, se_blib = sample_blib, se_sl = sample_sl, se_chi = sample_chi\<rparr>"

lemma sample_signer_config:
  "GetConfig (se_viper sample_signer_env) path w = (Ok \<lparr>SCfg_KeyStore =
       \<lparr>KS_KeyStoreType = ''cosmos'', KS_CosmosKeyStore = Some \<lparr>CKS_ChainID = ''chain-test'',
         CKS_KeyDirectory = ''/keys'', CKS_KeyringBackend = ''test'', CKS_KeyName = ''key''\<rparr>\<rparr>,
       SCfg_Server = DefaultServerConfig, SCfg_Metrics = DefaultSignerMetricsConfig\<rparr>, w)"
  by (simp add: GetConfig_def sample_signer_env_def DefaultSignerConfig_def DefaultKeyStoreConfig_def
      KeyStoreToString_def split: prod.splits)

lemma sample_signer_starts: "\<exists>st w'. runSignerCmd sample_signer_env path sample_krworld = (Ok st, w')"
proof -
  have "ParseIP ''127.0.0.1''" by code_simp
  moreover have "keyring_New (se_sdk sample_signer_env) c b d = returnS sample_keyring" for c b d
    by (simp add: sample_signer_env_def sample_sdk_def)
  ultimately show ?thesis
    by (simp add: runSignerCmd_def sample_signer_config ParseSignerConfig_def ParseKeyStore_def KeyStoreFromString_def
        ParseServer_def ParseMetrics_def DefaultSignerMetricsConfig_def NewCosmosKeyringRetriever_def CreateKeyring_def
        signer_CreateClientCtx_def CreateClientCtx_def ResetInput_def NewChainKeyringControllerWithKeyring_def)
qed


end
