(* ===== verification/RequestLog.thy ===== *)
theory RequestLog
  imports HttpService
begin

text \<open>
  What the signing service logs: the identifiers of requests
  (\<^verbatim>\<open>covenant-signer/observability/tracing/tracing.go\<close>), the two outer middlewares
  (\<^verbatim>\<open>signerservice/middlewares/tracing.go\<close>, \<^verbatim>\<open>logging.go\<close>), and the lines that the inner
  middlewares and the writing of responses add. \<open>HttpService\<close> has the same server without its log.

  The state is a pair of the server and of what is observed: the log and the host, which has a clock
  and a source of identifiers (package uuid, a parameter). A context is a map, as the values a request
  carries are only looked up by their key.

  The lemmas show that the log is the only difference between the two servers, and which lines a
  request adds. The collection \<open>erases_intros\<close> proves that an action with a log does what one without
  it does.
\<close>

section \<open>Contexts\<close>

record SpanDetail =
  Span_Name :: string
  Span_Duration :: int64

record Info =
  SpanDetails :: "SpanDetail list"

datatype ctxKey = TraceContextKey string | LoggerKey

definition TraceInfoKey :: ctxKey where
  "TraceInfoKey = TraceContextKey ''requestTracingInfo''"

definition TraceIDKey :: ctxKey where
  "TraceIDKey = TraceContextKey ''requestTraceId''"

text \<open>A logger (package zerolog) is the fields it adds to a line.\<close>

datatype ctxValue = StringValue string | InfoValue Info | LoggerValue zlogger
  and zlogger = ZLogger (zl_path: "string option") (zl_traceID: "ctxValue option")

type_synonym goctx = "ctxKey \<rightharpoonup> ctxValue"

section \<open>The log\<close>

datatype logLevelTag = LogDebug | LogInfo | LogError

record logLine =
  ll_level :: logLevelTag
  ll_logger :: zlogger
  ll_error :: "error option"
  ll_status :: "int option"
  ll_info :: "ctxValue option"
  ll_duration :: "int option"
  ll_msg :: string

definition msgLine :: "logLevelTag \<Rightarrow> zlogger \<Rightarrow> string \<Rightarrow> logLine" where
  "msgLine lv lg msg = \<lparr>ll_level = lv, ll_logger = lg, ll_error = None, ll_status = None, ll_info = None,
     ll_duration = None, ll_msg = msg\<rparr>"

record 'u obs =
  obsLog :: "logLine list"
  obsHost :: 'u

record 'u tracelib =
  uuid_New :: "('u, string) act"
  time_Now :: "'u \<Rightarrow> int \<times> 'u"

definition logMsg :: "logLine \<Rightarrow> ('x \<times> 'u obs, unit) act" where
  "logMsg l = modifyS (\<lambda>(s, ob). (s, ob\<lparr>obsLog := obsLog ob @ [l]\<rparr>))"

definition onHost :: "('u, 'a) act \<Rightarrow> ('x \<times> 'u obs, 'a) act" where
  "onHost m = (\<lambda>(s, ob). case m (obsHost ob) of (r, u) \<Rightarrow> (r, (s, ob\<lparr>obsHost := u\<rparr>)))"

definition onServer :: "('x, 'a) act \<Rightarrow> ('x \<times> 'u obs, 'a) act" where
  "onServer m = (\<lambda>(s, ob). case m s of (r, t) \<Rightarrow> (r, (t, ob)))"

definition nowS :: "'u tracelib \<Rightarrow> ('x \<times> 'u obs, int) act" where
  "nowS tr = onHost (\<lambda>u. case time_Now tr u of (t, u') \<Rightarrow> (Ok t, u'))"

text \<open>\<^verbatim>\<open>logger.Ctx\<close>: the logger of a context; without one nothing is written.\<close>

definition logCtx :: "goctx \<Rightarrow> (zlogger \<Rightarrow> logLine) \<Rightarrow> ('x \<times> 'u obs, unit) act" where
  "logCtx ctx f = (case ctx LoggerKey of Some (LoggerValue lg) \<Rightarrow> logMsg (f lg) | _ \<Rightarrow> returnS ())"

text \<open>The global logger has no fields.\<close>

definition globalLogger :: zlogger where
  "globalLogger = ZLogger None None"

section \<open>Tracing and logging\<close>

type_synonym ('s, 'u) ctxHandler = "goctx \<Rightarrow> HttpRequest \<Rightarrow> ('s server \<times> 'u obs, HttpResponse) act"

definition AttachTracingIntoContext :: "'u tracelib \<Rightarrow> goctx \<Rightarrow> ('x \<times> 'u obs, goctx) act" where
  "AttachTracingIntoContext tr ctx =
     bindS (onHost (uuid_New tr)) (\<lambda>traceID.
     returnS (ctx(TraceIDKey \<mapsto> StringValue traceID, TraceInfoKey \<mapsto> InfoValue \<lparr>SpanDetails = []\<rparr>)))"

definition TracingMiddleware :: "'u tracelib \<Rightarrow> ('s, 'u) ctxHandler \<Rightarrow> ('s, 'u) ctxHandler" where
  "TracingMiddleware tr next1 ctx r = bindS (AttachTracingIntoContext tr ctx) (\<lambda>ctx1. next1 ctx1 r)"

text \<open>\<^verbatim>\<open>Duration.Milliseconds\<close>: a division of nanoseconds that rounds towards zero.\<close>

definition Milliseconds :: "int \<Rightarrow> int" where
  "Milliseconds d = sgn d * (\<bar>d\<bar> div 1000000)"

definition completedLine :: "zlogger \<Rightarrow> ctxValue option \<Rightarrow> int \<Rightarrow> logLine" where
  "completedLine lg info d =
     (msgLine LogInfo lg ''Request completed'')\<lparr>ll_info := info, ll_duration := Some (Milliseconds d)\<rparr>"

definition LoggingMiddleware :: "'u tracelib \<Rightarrow> ('s, 'u) ctxHandler \<Rightarrow> ('s, 'u) ctxHandler" where
  "LoggingMiddleware tr next1 ctx r =
     bindS (nowS tr) (\<lambda>startTime.
       (let lg = ZLogger (Some (URLPath r)) (ctx TraceIDKey); ctx1 = ctx(LoggerKey \<mapsto> LoggerValue lg)
        in bindS (logMsg (msgLine LogDebug lg ''request received'')) (\<lambda>_.
           bindS (next1 ctx1 r) (\<lambda>resp.
           bindS (nowS tr) (\<lambda>t.
           bindS (logMsg (completedLine lg (ctx1 TraceInfoKey) (t - startTime))) (\<lambda>_.
           returnS resp))))))"

section \<open>The inner handlers, with their log\<close>

definition ContentLengthLogged :: "int \<Rightarrow> ('s, 'u) ctxHandler \<Rightarrow> ('s, 'u) ctxHandler" where
  "ContentLengthLogged maxBytes h ctx r =
     (if ContentLength r > maxBytes
      then returnS (http_Error ''Request Entity Too Large'' StatusRequestEntityTooLarge)
      else h ctx (MaxBytesReader maxBytes r))"

definition HMACAuthLogged :: "string \<Rightarrow> ('s, 'u) ctxHandler \<Rightarrow> ('s, 'u) ctxHandler" where
  "HMACAuthLogged hmacKey next1 ctx r =
     (let refuse = (\<lambda>l appErr. bindS (logMsg l) (\<lambda>_. returnS (RespondWithError appErr)))
      in if hmacKey = [] then next1 ctx r
         else if HMACHeader r = []
         then refuse (msgLine LogDebug globalLogger ''Request rejected: Missing HMAC header'')
                (NewUnauthorizedError ''missing HMAC authentication header'')
         else
           (case RewindRequestBody r of
              Err e \<Rightarrow> refuse ((msgLine LogError globalLogger ''Failed to read request body for HMAC verification'')
                                 \<lparr>ll_error := Some e\<rparr>) (NewInternalServiceError e)
            | Panic p \<Rightarrow> liftR (Panic p)
            | Ok (body, r1) \<Rightarrow>
                (case ValidateHMAC hmacKey body (HMACHeader r) of
                   Err e \<Rightarrow> refuse ((msgLine LogError globalLogger ''Error validating HMAC'')\<lparr>ll_error := Some e\<rparr>)
                              (NewInternalServiceError e)
                 | Panic p \<Rightarrow> liftR (Panic p)
                 | Ok valid \<Rightarrow>
                     if \<not> valid
                     then refuse (msgLine LogDebug globalLogger ''Request rejected: Invalid HMAC'')
                            (NewUnauthorizedError ''invalid HMAC authentication'')
                     else next1 ctx r1)))"

definition registerLogged :: "'s handlerFunc \<Rightarrow> ('s, 'u) ctxHandler" where
  "registerLogged handlerFunc ctx r =
     bindS (onServer (handlerFunc r)) (\<lambda>out.
       case out of
         Inl err \<Rightarrow>
           bindS (if statusKnown (AE_StatusCode err) then returnS (AE_StatusCode err)
                  else bindS (logCtx ctx (\<lambda>lg. (msgLine LogError lg ''invalid status code'')
                                \<lparr>ll_error := Some (AE_Err err), ll_status := Some (AE_StatusCode err)\<rparr>))
                         (\<lambda>_. returnS StatusInternalServerError)) (\<lambda>statusCode.
           bindS (if statusCode \<ge> StatusInternalServerError
                  then bindS (logCtx ctx (\<lambda>lg. (msgLine LogError lg ''request failed with 5xx error'')
                                \<lparr>ll_error := Some (AE_Err err)\<rparr>))
                         (\<lambda>_. returnS ''Internal service error'')
                  else returnS (AE_Err err)) (\<lambda>message.
           returnS (writeResponse statusCode (jsonHTTPError (AE_ErrorCode err) message))))
       | Inr None \<Rightarrow>
           bindS (logCtx ctx (\<lambda>lg. msgLine LogError lg ''invalid success response, error returned'')) (\<lambda>_.
           returnS (writeResponse StatusInternalServerError newInternalServiceError))
       | Inr (Some result) \<Rightarrow>
           if \<not> statusKnown (Res_Status result)
           then bindS (logCtx ctx (\<lambda>lg. msgLine LogError lg ''invalid success response, error returned'')) (\<lambda>_.
                returnS (writeResponse StatusInternalServerError newInternalServiceError))
           else returnS (writeResponse (Res_Status result) (Res_Data result)))"

definition routesLogged :: "'s Handler \<Rightarrow> ((string \<times> string) \<times> ('s, 'u) ctxHandler) list" where
  "routesLogged h = [
     ((''POST'', ''/v1/sign-transactions''), registerLogged (HandleSignTransactions h)),
     ((''POST'', ''/v1/unlock''), registerLogged (HandleUnlock h)),
     ((''POST'', ''/v1/lock''), registerLogged (HandleLock h)),
     ((''GET'', ''/v1/public-key''), registerLogged (HandleGetPublicKey h))]"

definition routeLogged :: "chi \<Rightarrow> ((string \<times> string) \<times> ('s, 'u) ctxHandler) list \<Rightarrow> ('s, 'u) ctxHandler" where
  "routeLogged mux routes ctx r =
     (case chi_match mux (map fst routes) r of
        None \<Rightarrow> returnS (chi_default mux r)
      | Some i \<Rightarrow> snd (routes ! i) ctx r)"

text \<open>The handlers below the two outer middlewares, and all of them, in the order \<^verbatim>\<open>New\<close> adds them.\<close>

definition innerLogged :: "chi \<Rightarrow> ParsedServerConfig \<Rightarrow> 's Handler \<Rightarrow> ('s, 'u) ctxHandler" where
  "innerLogged mux cfg h =
     ContentLengthLogged (uint (PSC_MaxContentLength cfg))
       (if PSC_HMACKey cfg \<noteq> []
        then HMACAuthLogged (PSC_HMACKey cfg) (routeLogged mux (routesLogged h))
        else routeLogged mux (routesLogged h))"

definition serveLogged :: "'u tracelib \<Rightarrow> chi \<Rightarrow> ParsedServerConfig \<Rightarrow> 's Handler \<Rightarrow> ('s, 'u) ctxHandler" where
  "serveLogged tr mux cfg h = TracingMiddleware tr (LoggingMiddleware tr (innerLogged mux cfg h))"

section \<open>Lemmas: the log is the only difference\<close>

text \<open>
  An action that does what another does and adds lines to the log that satisfy a predicate, without
  using the host.
\<close>

definition erases :: "(logLine \<Rightarrow> bool) \<Rightarrow> ('x \<times> 'u obs, 'a) act \<Rightarrow> ('x, 'a) act \<Rightarrow> bool" where
  "erases P m m0 \<longleftrightarrow> (\<forall>s ob. \<exists>ls. list_all P ls
     \<and> m (s, ob) = (fst (m0 s), (snd (m0 s), ob\<lparr>obsLog := obsLog ob @ ls\<rparr>)))"

named_theorems erases_intros \<open>rules that show that an action with a log does what one without it does\<close>

lemma erasesE:
  assumes "erases P m m0" "m0 s = (r, s')"
  obtains ls where "list_all P ls" "m (s, ob) = (r, (s', ob\<lparr>obsLog := obsLog ob @ ls\<rparr>))"
  using assms(1) [unfolded erases_def, rule_format, of s ob] assms(2) that by auto

lemma erases_silent: "(\<And>s ob. m (s, ob) = (fst (m0 s), (snd (m0 s), ob))) \<Longrightarrow> erases P m m0"
  unfolding erases_def by (intro allI exI [of _ "[]"]) simp

lemma erases_basic [erases_intros]:
  "erases P (returnS a) (returnS a)" "erases P (liftR r) (liftR r)"
  by (rule erases_silent, simp)+

lemma erases_onServer [erases_intros]: "erases P (onServer m) m"
  by (rule erases_silent) (simp add: onServer_def split: prod.splits)

lemma erases_bindS [erases_intros]:
  assumes "erases P m m0" and "\<And>a. erases P (f a) (f0 a)"
  shows "erases P (bindS m f) (bindS m0 f0)"
  unfolding erases_def
proof (intro allI)
  fix s ob
  obtain q t where q: "m0 s = (q, t)" by fastforce
  with assms(1) obtain ls where ls: "list_all P ls" "m (s, ob) = (q, (t, ob\<lparr>obsLog := obsLog ob @ ls\<rparr>))"
    by (rule erasesE)
  show "\<exists>ls. list_all P ls \<and> bindS m f (s, ob)
      = (fst (bindS m0 f0 s), (snd (bindS m0 f0 s), ob\<lparr>obsLog := obsLog ob @ ls\<rparr>))"
  proof (cases q)
    case (Ok a)
    obtain r u where r: "f0 a t = (r, u)" by fastforce
    with assms(2) obtain ls' where "list_all P ls'"
      "f a (t, ob\<lparr>obsLog := obsLog ob @ ls\<rparr>) = (r, (u, ob\<lparr>obsLog := obsLog ob @ ls @ ls'\<rparr>))"
      by (rule erasesE [where ob = "ob\<lparr>obsLog := obsLog ob @ ls\<rparr>"]) simp
    with Ok q ls r show ?thesis by (intro exI [of _ "ls @ ls'"]) simp
  qed (use q ls in auto)
qed

lemma erases_logMsg [erases_intros]:
  assumes "P l" "erases P m m0"
  shows "erases P (bindS (logMsg l) (\<lambda>_. m)) m0"
proof -
  have "erases P (logMsg l) (returnS ())"
    unfolding erases_def using assms(1) by (intro allI exI [of _ "[l]"]) (simp add: logMsg_def)
  from erases_bindS [OF this, of "\<lambda>_. m" "\<lambda>_. m0"] assms(2) show ?thesis by (simp add: erases_def)
qed

lemma erases_logCtx [erases_intros]:
  assumes "\<And>lg. ctx LoggerKey = Some (LoggerValue lg) \<Longrightarrow> P (f lg)" "erases P m m0"
  shows "erases P (bindS (logCtx ctx f) (\<lambda>_. m)) m0"
  using assms erases_logMsg [of P _ m m0]
  by (auto simp: logCtx_def erases_def split: option.splits ctxValue.splits)

lemma erases_if [erases_intros]:
  "(b \<Longrightarrow> erases P m m0) \<Longrightarrow> (\<not> b \<Longrightarrow> erases P m' m0') \<Longrightarrow>
   erases P (if b then m else m') (if b then m0 else m0')"
  by simp

text \<open>The lines that may stand between the first and the last of a request.\<close>

definition innerLine :: "zlogger \<Rightarrow> logLine \<Rightarrow> bool" where
  "innerLine lg l \<longleftrightarrow> ll_logger l \<in> {lg, globalLogger} \<and> ll_info l = None \<and> ll_duration l = None"

lemma innerLine_simps [simp]:
  "innerLine lg (msgLine lv lg msg)" "innerLine lg (msgLine lv globalLogger msg)"
  "innerLine lg (l\<lparr>ll_error := e\<rparr>) \<longleftrightarrow> innerLine lg l" "innerLine lg (l\<lparr>ll_status := c\<rparr>) \<longleftrightarrow> innerLine lg l"
  by (simp_all add: innerLine_def msgLine_def)

text \<open>The writing of a response, with its two decisions as actions.\<close>

lemma registerHandler_alt:
  "registerHandler hf r = bindS (hf r) (\<lambda>out.
     case out of
       Inl err \<Rightarrow>
         bindS (returnS (if statusKnown (AE_StatusCode err) then AE_StatusCode err else StatusInternalServerError)) (\<lambda>sc.
         bindS (returnS (if sc \<ge> StatusInternalServerError then ''Internal service error'' else AE_Err err)) (\<lambda>msg.
         returnS (writeResponse sc (jsonHTTPError (AE_ErrorCode err) msg))))
     | Inr None \<Rightarrow> returnS (writeResponse StatusInternalServerError newInternalServiceError)
     | Inr (Some res) \<Rightarrow>
         if \<not> statusKnown (Res_Status res)
         then returnS (writeResponse StatusInternalServerError newInternalServiceError)
         else returnS (writeResponse (Res_Status res) (Res_Data res)))"
proof -
  have "bindS (returnS a) f = f a" for a :: 'a and f :: "'a \<Rightarrow> ('b, 'c) act" by (rule ext) simp
  then show ?thesis
    unfolding registerHandler_def Let_def
    by (intro arg_cong [where f = "bindS (hf r)"] ext) (simp split: sum.splits option.splits)
qed

lemma registerLogged_erases:
  assumes "ctx LoggerKey = Some (LoggerValue lg)"
  shows "erases (innerLine lg) (registerLogged hf ctx r) (registerHandler hf r)"
proof -
  have pick: "erases P (if b then returnS x else bindS (logCtx ctx f) (\<lambda>_. returnS y)) (returnS (if b then x else y))"
    if "P (f lg)" for P b f and x y :: 'c
    using that assms by (cases b) (auto intro!: erases_intros)
  have pick': "erases P (if b then bindS (logCtx ctx f) (\<lambda>_. returnS x) else returnS y) (returnS (if b then x else y))"
    if "P (f lg)" for P b f and x y :: 'c
    using that assms by (cases b) (auto intro!: erases_intros)
  show ?thesis
    unfolding registerLogged_def registerHandler_alt
    by (intro erases_bindS erases_onServer)
       (auto intro!: erases_intros pick pick' simp: assms split: sum.splits option.splits)
qed

lemma HMACAuthLogged_erases:
  assumes "\<And>r. erases (innerLine lg) (next1 ctx r) (next0 r)"
  shows "erases (innerLine lg) (HMACAuthLogged key next1 ctx r) (HMACAuthMiddleware key next0 r)"
  unfolding HMACAuthLogged_def HMACAuthMiddleware_def Let_def
  by (auto intro!: erases_intros assms split: result.splits)

lemma routesLogged_same: "map fst (routesLogged h) = map fst (SetupRoutes h)"
  by (simp add: routesLogged_def SetupRoutes_def)

lemma routeLogged_erases:
  assumes "chi_law mux" "ctx LoggerKey = Some (LoggerValue lg)"
  shows "erases (innerLine lg) (routeLogged mux (routesLogged h) ctx r) (routeRequest mux (SetupRoutes h) r)"
proof (cases "chi_match mux (map fst (SetupRoutes h)) r")
  case None
  then show ?thesis by (simp add: routeLogged_def routeRequest_def routesLogged_same erases_basic)
next
  case (Some i)
  then have "i < 4" using assms(1) routes_distinct [of h] by (simp add: chi_law_def SetupRoutes_def)
  then consider "i = 0" | "i = 1" | "i = 2" | "i = 3" by linarith
  then show ?thesis using Some registerLogged_erases [of ctx lg, OF assms(2)]
    by cases (simp_all add: routeLogged_def routeRequest_def routesLogged_same, simp_all add: routesLogged_def SetupRoutes_def)
qed

lemma innerLogged_erases:
  assumes "chi_law mux" "ctx LoggerKey = Some (LoggerValue lg)"
  shows "erases (innerLine lg) (innerLogged mux cfg h ctx r) (serveHTTP mux cfg h r)"
  using assms
  by (auto simp: innerLogged_def serveHTTP_def ContentLengthLogged_def ContentLengthMiddleware_def
      intro!: erases_intros HMACAuthLogged_erases routeLogged_erases)

text \<open>A request below the outer middlewares: what it does, and the lines around those of the inner handlers.\<close>

definition requestLogger :: "HttpRequest \<Rightarrow> string \<Rightarrow> zlogger" where
  "requestLogger r traceID = ZLogger (Some (URLPath r)) (Some (StringValue traceID))"

definition requestCtx :: "goctx \<Rightarrow> HttpRequest \<Rightarrow> string \<Rightarrow> goctx" where
  "requestCtx ctx r traceID = ctx(TraceIDKey \<mapsto> StringValue traceID, TraceInfoKey \<mapsto> InfoValue \<lparr>SpanDetails = []\<rparr>,
     LoggerKey \<mapsto> LoggerValue (requestLogger r traceID))"

definition receivedLine :: "HttpRequest \<Rightarrow> string \<Rightarrow> logLine" where
  "receivedLine r traceID = msgLine LogDebug (requestLogger r traceID) ''request received''"

definition finishedLine :: "HttpRequest \<Rightarrow> string \<Rightarrow> int \<Rightarrow> logLine" where
  "finishedLine r traceID d =
     completedLine (requestLogger r traceID) (Some (InfoValue \<lparr>SpanDetails = []\<rparr>)) d"

lemma nowS_apply: "nowS tr (s, ob) = (Ok (fst (time_Now tr (obsHost ob))), (s, ob\<lparr>obsHost := snd (time_Now tr (obsHost ob))\<rparr>))"
  by (simp add: nowS_def onHost_def split: prod.splits)

lemma serveLogged_eq:
  assumes "uuid_New tr (obsHost ob) = (Ok traceID, u)" and "time_Now tr u = (t0, u0)"
    and "innerLogged mux cfg h (requestCtx ctx r traceID) r (s, \<lparr>obsLog = obsLog ob @ [receivedLine r traceID], obsHost = u0\<rparr>)
      = (res, (s', \<lparr>obsLog = log1, obsHost = u0\<rparr>))"
  shows "serveLogged tr mux cfg h ctx r (s, ob) =
    (res, (s', if is_ok res
       then \<lparr>obsLog = log1 @ [finishedLine r traceID (fst (time_Now tr u0) - t0)], obsHost = snd (time_Now tr u0)\<rparr>
       else \<lparr>obsLog = log1, obsHost = u0\<rparr>))"
proof -
  have keys: "TraceIDKey \<noteq> TraceInfoKey" "TraceIDKey \<noteq> LoggerKey" "TraceInfoKey \<noteq> LoggerKey"
    by (simp_all add: TraceIDKey_def TraceInfoKey_def)
  have ob: "ob\<lparr>obsHost := w, obsLog := l\<rparr> = \<lparr>obsLog = l, obsHost = w\<rparr>" for w l by (cases ob) simp
  have "serveLogged tr mux cfg h ctx r (s, ob) =
      LoggingMiddleware tr (innerLogged mux cfg h)
        (ctx(TraceIDKey \<mapsto> StringValue traceID, TraceInfoKey \<mapsto> InfoValue \<lparr>SpanDetails = []\<rparr>)) r (s, ob\<lparr>obsHost := u\<rparr>)"
    using assms(1) by (simp add: serveLogged_def TracingMiddleware_def AttachTracingIntoContext_def onHost_def)
  also have "\<dots> = bindS (innerLogged mux cfg h (requestCtx ctx r traceID) r) (\<lambda>resp.
        bindS (nowS tr) (\<lambda>t. bindS (logMsg (finishedLine r traceID (t - t0))) (\<lambda>_. returnS resp)))
      (s, \<lparr>obsLog = obsLog ob @ [receivedLine r traceID], obsHost = u0\<rparr>)"
    using assms(2) keys
    by (simp add: LoggingMiddleware_def nowS_apply logMsg_def receivedLine_def finishedLine_def
        requestLogger_def requestCtx_def Let_def ob)
  also have "\<dots> = (res, (s', if is_ok res
       then \<lparr>obsLog = log1 @ [finishedLine r traceID (fst (time_Now tr u0) - t0)], obsHost = snd (time_Now tr u0)\<rparr>
       else \<lparr>obsLog = log1, obsHost = u0\<rparr>))"
    using assms(3) by (cases res) (simp_all add: nowS_apply logMsg_def)
  finally show ?thesis .
qed

text \<open>
  The lines of an answered request: the first, those of the inner handlers, and the last. A request
  whose handler panicked has no last line.
\<close>

definition requestLines :: "'u tracelib \<Rightarrow> 'u \<Rightarrow> HttpRequest \<Rightarrow> bool \<Rightarrow> logLine list \<Rightarrow> logLine list \<Rightarrow> bool" where
  "requestLines tr u r answered mid ls \<longleftrightarrow> (\<exists>traceID u1. uuid_New tr u = (Ok traceID, u1)
     \<and> list_all (innerLine (requestLogger r traceID)) mid
     \<and> ls = [receivedLine r traceID] @ mid @ (if answered then [finishedLine r traceID
           (fst (time_Now tr (snd (time_Now tr u1))) - fst (time_Now tr u1))] else []))"

lemma requestCtx_logger [simp]: "requestCtx ctx r traceID LoggerKey = Some (LoggerValue (requestLogger r traceID))"
  by (simp add: requestCtx_def)

lemma serveLogged_refines:
  assumes "chi_law mux" "uuid_New tr (obsHost ob) = (Ok traceID, u)" "serveHTTP mux cfg h r s = (res, s')"
  obtains mid ls ob' where "serveLogged tr mux cfg h ctx r (s, ob) = (res, (s', ob'))"
    "obsLog ob' = obsLog ob @ ls" "requestLines tr (obsHost ob) r (is_ok res) mid ls"
    "innerLogged mux cfg h (requestCtx ctx r traceID) r
       (s, \<lparr>obsLog = obsLog ob @ [receivedLine r traceID], obsHost = snd (time_Now tr u)\<rparr>)
     = (res, (s', \<lparr>obsLog = obsLog ob @ receivedLine r traceID # mid, obsHost = snd (time_Now tr u)\<rparr>))"
proof -
  let ?u = "snd (time_Now tr u)" and ?lg = "requestLogger r traceID"
  have er: "erases (innerLine ?lg) (innerLogged mux cfg h (requestCtx ctx r traceID) r) (serveHTTP mux cfg h r)"
    using assms(1) by (rule innerLogged_erases) simp
  from er assms(3) obtain mid where mid: "list_all (innerLine ?lg) mid"
    "innerLogged mux cfg h (requestCtx ctx r traceID) r (s, \<lparr>obsLog = obsLog ob @ [receivedLine r traceID], obsHost = ?u\<rparr>)
      = (res, (s', \<lparr>obsLog = obsLog ob @ receivedLine r traceID # mid, obsHost = ?u\<rparr>))"
    by (rule erasesE [where ob = "\<lparr>obsLog = obsLog ob @ [receivedLine r traceID], obsHost = ?u\<rparr>"]) simp
  have now: "time_Now tr u = (fst (time_Now tr u), ?u)" by simp
  show thesis
    using that [OF serveLogged_eq [OF assms(2) now mid(2)]] mid assms(2)
    by (fastforce simp: requestLines_def)
qed

lemma innerLogged_authentic:
  assumes "PSC_HMACKey cfg \<noteq> []" "authentic cfg r"
  shows "innerLogged mux cfg h ctx r = routeLogged mux (routesLogged h) ctx r"
  using assms
  by (simp add: innerLogged_def ContentLengthLogged_def MaxBytesReader_def HMACAuthLogged_def
      RewindRequestBody_def authentic_def ValidateHMAC_iff BodyError_None)

lemma routeLogged_unlock:
  assumes "chi_law mux" "Method r = ''POST''" "URLPath r = ''/v1/unlock''"
  shows "routeLogged mux (routesLogged h) ctx r = registerLogged (HandleUnlock h) ctx r"
proof -
  have "chi_match mux (map fst (SetupRoutes h)) r = Some 1"
    using assms routes_distinct [of h] by (simp add: chi_law_def SetupRoutes_def)
  then show ?thesis by (simp add: routeLogged_def routesLogged_same) (simp add: routesLogged_def)
qed

text \<open>Neither a success nor an error of the unlock handler is an internal error, so nothing is logged.\<close>

lemma unlock_silent:
  assumes "registerLogged (HandleUnlock h) ctx r (s, ob) = (Ok resp, (s', ob'))"
  shows "ob' = ob"
proof -
  from assms obtain out t where out: "HandleUnlock h r s = (Ok out, t)"
    by (auto simp: registerLogged_def onServer_def act_simps split: prod.splits)
  then have "case out of Inl err \<Rightarrow> AE_StatusCode err = 400
      | Inr x \<Rightarrow> \<exists>res. x = Some res \<and> Res_Status res = 200"
    by (auto simp: HandleUnlock_def NewResult_def NewErrorWithMsg_def NewError_def status_defs
        UninitializedStatusCode_def split: option.splits elim!: catchS_Ok_E bindS_Ok_E)
  with out assms show ?thesis
    by (auto simp: registerLogged_def onServer_def statusKnown_def status_defs split: sum.splits)
qed

lemma unlock_lines:
  assumes "chi_law mux" "PSC_HMACKey cfg \<noteq> []" "authentic cfg r" "Method r = ''POST''" "URLPath r = ''/v1/unlock''"
    and "uuid_New tr (obsHost ob) = (Ok traceID, u)" "serveLogged tr mux cfg h ctx r (s, ob) = (Ok resp, (s', ob'))"
  shows "requestLines tr (obsHost ob) r True [] (drop (length (obsLog ob)) (obsLog ob'))"
    and "obsLog ob' = obsLog ob @ drop (length (obsLog ob)) (obsLog ob')"
proof -
  obtain res t where run: "serveHTTP mux cfg h r s = (res, t)" by fastforce
  from assms(1,6) run obtain mid ls ob1 where
    eq: "serveLogged tr mux cfg h ctx r (s, ob) = (res, (t, ob1))" and ls: "obsLog ob1 = obsLog ob @ ls"
    "requestLines tr (obsHost ob) r (is_ok res) mid ls"
    and inner: "innerLogged mux cfg h (requestCtx ctx r traceID) r
       (s, \<lparr>obsLog = obsLog ob @ [receivedLine r traceID], obsHost = snd (time_Now tr u)\<rparr>)
     = (res, (t, \<lparr>obsLog = obsLog ob @ receivedLine r traceID # mid, obsHost = snd (time_Now tr u)\<rparr>))"
    by (rule serveLogged_refines)
  have "mid = []"
    using inner eq assms(7)
    by (auto simp: innerLogged_authentic [OF assms(2,3)] routeLogged_unlock [OF assms(1,4,5)] dest!: unlock_silent)
  with eq ls assms(7) show "requestLines tr (obsHost ob) r True [] (drop (length (obsLog ob)) (obsLog ob'))"
    "obsLog ob' = obsLog ob @ drop (length (obsLog ob)) (obsLog ob')" by auto
qed

text \<open>
  The comment of the logging middleware says that the identifier of a request is attached to each log
  of the request chain. The lines about a refused HMAC are written with the global logger.
\<close>

lemma refusal_untraced:
  assumes "chi_law mux" "PSC_HMACKey cfg \<noteq> []" "HMACHeader r = []" "ContentLength r \<le> uint (PSC_MaxContentLength cfg)"
    and "uuid_New tr (obsHost ob) = (Ok traceID, u)" "serveLogged tr mux cfg h ctx r (s, ob) = (res, (s', ob'))"
  shows "\<exists>l \<in> set (obsLog ob'). ll_msg l = ''Request rejected: Missing HMAC header'' \<and> zl_traceID (ll_logger l) = None"
proof -
  obtain q t where run: "serveHTTP mux cfg h r s = (q, t)" by fastforce
  from assms(1,5) run obtain mid ls ob1 where
    eq: "serveLogged tr mux cfg h ctx r (s, ob) = (q, (t, ob1))" and ls: "obsLog ob1 = obsLog ob @ ls"
    "requestLines tr (obsHost ob) r (is_ok q) mid ls"
    and inner: "innerLogged mux cfg h (requestCtx ctx r traceID) r
       (s, \<lparr>obsLog = obsLog ob @ [receivedLine r traceID], obsHost = snd (time_Now tr u)\<rparr>)
     = (q, (t, \<lparr>obsLog = obsLog ob @ receivedLine r traceID # mid, obsHost = snd (time_Now tr u)\<rparr>))"
    by (rule serveLogged_refines)
  have hdr: "HMACHeader (MaxBytesReader n r) = HMACHeader r" for n by (simp add: MaxBytesReader_def)
  have "mid = [msgLine LogDebug globalLogger ''Request rejected: Missing HMAC header'']"
    using inner assms(2-4) by (simp add: innerLogged_def ContentLengthLogged_def HMACAuthLogged_def hdr logMsg_def)
  with eq ls assms(6) show ?thesis by (auto simp: requestLines_def msgLine_def globalLogger_def)
qed

section \<open>Properties\<close>

text \<open>
  C11. Tracing and logging change nothing but the log. A request to the server with all its middlewares
  has the answer and the effect it has without the two outer ones. What it adds to the log is a first
  line and, when it was answered, a last line with the time it took, both with its path and its
  identifier; every line in between carries the same path and identifier, or none at all.
\<close>

theorem logging_transparent:
  assumes "chi_law mux" and "uuid_New tr (obsHost ob) = (Ok traceID, u)"
  shows "\<exists>mid ls ob'. serveLogged tr mux cfg h ctx r (s, ob)
      = (fst (serveHTTP mux cfg h r s), (snd (serveHTTP mux cfg h r s), ob'))
    \<and> obsLog ob' = obsLog ob @ ls \<and> requestLines tr (obsHost ob) r (is_ok (fst (serveHTTP mux cfg h r s))) mid ls"
proof -
  have "serveHTTP mux cfg h r s = (fst (serveHTTP mux cfg h r s), snd (serveHTTP mux cfg h r s))" by simp
  from serveLogged_refines [OF assms this] show ?thesis by metis
qed

definition sample_tracelib :: "nat tracelib" where
  "sample_tracelib = \<lparr>uuid_New = (\<lambda>n. (Ok ''id'', n)), time_Now = (\<lambda>n. (int n, n + 1))\<rparr>"

theorem logging_transparent_witness:
  "\<exists>resp s' ob'. serveLogged sample_tracelib sample_chi sample_server_cfg sample_handler Map.empty
       (sample_request ''POST'' ''/v1/lock'' []) (sample_server sample_kr, \<lparr>obsLog = [], obsHost = 0\<rparr>) = (Ok resp, (s', ob'))
     \<and> (\<exists>mid ls. obsLog ob' = ls
          \<and> requestLines sample_tracelib 0 (sample_request ''POST'' ''/v1/lock'' []) True mid ls)"
proof -
  let ?r = "sample_request ''POST'' ''/v1/lock'' []"
  have "\<exists>resp. serveHTTP sample_chi sample_server_cfg sample_handler ?r (sample_server sample_kr)
      = (Ok resp, sample_server sample_kr)"
    using serveHTTP_not_authentic [of sample_server_cfg ?r sample_chi sample_handler "sample_server sample_kr"]
    by (auto simp: sample_server_cfg_def authentic_def sample_request_def)
  moreover have "uuid_New sample_tracelib (obsHost (\<lparr>obsLog = [], obsHost = 0\<rparr> :: nat obs)) = (Ok ''id'', 0)"
    by (simp add: sample_tracelib_def)
  ultimately show ?thesis
    using logging_transparent [OF sample_chi_law, of sample_tracelib "\<lparr>obsLog = [], obsHost = 0\<rparr>" "''id''" 0
        sample_server_cfg sample_handler Map.empty ?r "sample_server sample_kr"] by auto
qed


definition sample_unlock :: "string \<Rightarrow> HttpRequest" where
  "sample_unlock pw =
     (let body = printValue (jsonUnlockRequest \<lparr>Passphrase = pw\<rparr>)
      in \<lparr>Method = ''POST'', URLPath = ''/v1/unlock'',
          HMACHeader = EncodeToString (hmac_sha256 (string_bytes ''secret'') (string_bytes body)),
          ContentLength = int (length body), BodyData = body, BodyError = None\<rparr>)"

lemma sample_unlock_decodes:
  "decodeRequestBody decUnlockRequest (sample_unlock ''secret'') = Some \<lparr>Passphrase = ''secret''\<rparr>"
  "decodeRequestBody decUnlockRequest (sample_unlock ''guess'') = Some \<lparr>Passphrase = ''guess''\<rparr>"
proof -
  have "json_Decode (printValue (jsonUnlockRequest \<lparr>Passphrase = ''secret''\<rparr>)) False
        = Some (jsonUnlockRequest \<lparr>Passphrase = ''secret''\<rparr>)"
    "json_Decode (printValue (jsonUnlockRequest \<lparr>Passphrase = ''guess''\<rparr>)) False
        = Some (jsonUnlockRequest \<lparr>Passphrase = ''guess''\<rparr>)" by code_simp+
  then show "decodeRequestBody decUnlockRequest (sample_unlock ''secret'') = Some \<lparr>Passphrase = ''secret''\<rparr>"
    "decodeRequestBody decUnlockRequest (sample_unlock ''guess'') = Some \<lparr>Passphrase = ''guess''\<rparr>"
    by (simp_all add: decodeRequestBody_def sample_unlock_def Let_def decUnlockRequest_json)
qed

lemma sample_unlock_authentic:
  "authentic sample_server_cfg (sample_unlock ''secret'')" "authentic sample_server_cfg (sample_unlock ''guess'')"
proof -
  have "length (printValue (jsonUnlockRequest \<lparr>Passphrase = ''secret''\<rparr>)) \<le> 100"
    "length (printValue (jsonUnlockRequest \<lparr>Passphrase = ''guess''\<rparr>)) \<le> 100" by code_simp+
  then show "authentic sample_server_cfg (sample_unlock ''secret'')" "authentic sample_server_cfg (sample_unlock ''guess'')"
    by (simp_all add: authentic_def sample_unlock_def sample_server_cfg_def Let_def)
qed

lemma sample_unlock_answers:
  assumes "pw \<in> {''secret'', ''guess''}"
  shows "\<exists>resp s' ob'. serveLogged sample_tracelib sample_chi sample_server_cfg sample_handler Map.empty (sample_unlock pw)
    (sample_server sample_kr, \<lparr>obsLog = [], obsHost = 0\<rparr>) = (Ok resp, (s', ob'))"
proof -
  let ?s = "sample_server sample_kr" and ?r = "sample_unlock pw"
  have dec: "decodeRequestBody decUnlockRequest ?r = Some \<lparr>Passphrase = pw\<rparr>" and auth: "authentic sample_server_cfg ?r"
    using assms sample_unlock_decodes sample_unlock_authentic by auto
  have "\<exists>q t. UnlockKr sample_kl sample_kc pw sample_kr = (q, t) \<and> \<not> is_panic q"
    using assms by (auto simp: UnlockKr_def GetChainPrivKey_def onKeyring_def sample_kl_def sample_kc_def sample_kr_def)
  then have "\<exists>out t. HandleUnlock sample_handler ?r ?s = (Ok out, t)"
    by (auto simp: HandleUnlock_def dec sample_handler_def keyringHandler_def onSigner_def UnlockApp_def
        KeyringRetriever_def metric_defs sample_server_def NewCovenantSignerMetrics_def catchS_def
        split: result.splits prod.splits)
  then have "\<exists>resp t. registerHandler (HandleUnlock sample_handler) ?r ?s = (Ok resp, t)"
    by (auto simp: registerHandler_def Let_def split: sum.splits option.splits)
  moreover have "Method ?r = ''POST''" "URLPath ?r = ''/v1/unlock''" "PSC_HMACKey sample_server_cfg \<noteq> []"
    by (simp_all add: sample_unlock_def Let_def sample_server_cfg_def)
  then have "serveHTTP sample_chi sample_server_cfg sample_handler ?r = registerHandler (HandleUnlock sample_handler) ?r"
    using serveHTTP_authentic [OF _ auth, of sample_chi sample_handler]
      routeRequest_unlock [OF sample_chi_law, of ?r sample_handler] by simp
  ultimately obtain resp t where "serveHTTP sample_chi sample_server_cfg sample_handler ?r ?s = (Ok resp, t)" by auto
  moreover have "uuid_New sample_tracelib (obsHost (\<lparr>obsLog = [], obsHost = 0\<rparr> :: nat obs)) = (Ok ''id'', 0)"
    by (simp add: sample_tracelib_def)
  ultimately show ?thesis using serveLogged_refines [OF sample_chi_law] by metis
qed


end
