(* ===== verification/Codecs.thy ===== *)
theory Codecs
  imports Prelude
begin

text \<open>
  The codecs of the keyrings (\<^verbatim>\<open>codec/codec.go\<close>, \<^verbatim>\<open>covenant-signer/keystore/cosmos/codec.go\<close>) and
  the context for the SDK's own commands (\<^verbatim>\<open>covenant-signer/cmd/helper.go\<close>).

  A codec keeps a pointer to a registry of interfaces, and the types are registered after the codec
  was made, so registries are in a heap. The SDK's functions on a registry, the encoding of Babylon
  and the context of a command (package cobra) are parameters.

  The lemmas show that the registrations reach the codec that was made before them, and that no other
  registry changes.
\<close>

section \<open>Registries and codecs\<close>

text \<open>The heap of registries, the next free address, and everything else.\<close>

record ('reg, 'w) sdkheap =
  regHeap :: "nat \<Rightarrow> 'reg"
  regNext :: nat
  sdkRest :: 'w

datatype ProtoCodec = ProtoCodec (cdc_ir: nat)

record 'reg codeclib =
  emptyRegistry :: 'reg
  crypto_RegisterInterfaces :: "'reg \<Rightarrow> 'reg"
  std_RegisterInterfaces :: "'reg \<Rightarrow> 'reg"
  bstypes_RegisterInterfaces :: "'reg \<Rightarrow> 'reg"

definition NewInterfaceRegistry :: "'reg codeclib \<Rightarrow> (('reg, 'w) sdkheap, nat) act" where
  "NewInterfaceRegistry lib = (\<lambda>s.
     (Ok (regNext s), s\<lparr>regHeap := (regHeap s)(regNext s := emptyRegistry lib), regNext := regNext s + 1\<rparr>))"

definition registerIn :: "nat \<Rightarrow> ('reg \<Rightarrow> 'reg) \<Rightarrow> (('reg, 'w) sdkheap, unit) act" where
  "registerIn ir f = modifyS (\<lambda>s. s\<lparr>regHeap := (regHeap s)(ir := f (regHeap s ir))\<rparr>)"

definition MakeCodec :: "'reg codeclib \<Rightarrow> (('reg, 'w) sdkheap, ProtoCodec) act" where
  "MakeCodec lib =
     bindS (NewInterfaceRegistry lib) (\<lambda>ir.
     let cdc = ProtoCodec ir
     in bindS (registerIn ir (crypto_RegisterInterfaces lib)) (\<lambda>_.
        returnS cdc))"

definition signer_MakeCodec :: "'reg codeclib \<Rightarrow> (('reg, 'w) sdkheap, ProtoCodec) act" where
  "signer_MakeCodec = MakeCodec"

section \<open>The context of the commands\<close>

text \<open>The encoding configuration of Babylon; what is only handed on is a name.\<close>

record EncodingConfig =
  enc_InterfaceRegistry :: nat
  enc_Codec :: ProtoCodec
  enc_TxConfig :: string
  enc_Amino :: string

record SdkContext =
  sdk_Codec :: "ProtoCodec option"
  sdk_InterfaceRegistry :: "nat option"
  sdk_TxConfig :: "string option"
  sdk_LegacyAmino :: "string option"
  sdk_Input :: "string option"

definition emptySdkContext :: SdkContext where
  "emptySdkContext = \<lparr>sdk_Codec = None, sdk_InterfaceRegistry = None, sdk_TxConfig = None,
     sdk_LegacyAmino = None, sdk_Input = None\<rparr>"

text \<open>
  What the function uses of Babylon, the SDK and cobra. The context of a command is part of the rest
  of the state.
\<close>

record ('reg, 'w) ctxlib =
  DefaultEncodingConfig :: "(('reg, 'w) sdkheap, EncodingConfig) act"
  SetOutputs :: "(('reg, 'w) sdkheap, unit) act"
  SetCmdClientContextHandler :: "SdkContext \<Rightarrow> (('reg, 'w) sdkheap, unit) act"
  GetClientContextFromCmd :: "('reg, 'w) sdkheap \<Rightarrow> SdkContext"
  SetCmdClientContext :: "SdkContext \<Rightarrow> (('reg, 'w) sdkheap, unit) act"

definition withEncoding :: "SdkContext \<Rightarrow> EncodingConfig \<Rightarrow> SdkContext" where
  "withEncoding ctx encCfg =
     ctx\<lparr>sdk_Codec := Some (enc_Codec encCfg), sdk_InterfaceRegistry := Some (enc_InterfaceRegistry encCfg),
         sdk_TxConfig := Some (enc_TxConfig encCfg), sdk_LegacyAmino := Some (enc_Amino encCfg),
         sdk_Input := Some ''stdin''\<rparr>"

text \<open>The variable the closure keeps is an argument, and its value at the end is part of the result.\<close>

definition PersistClientCtx ::
  "'reg codeclib \<Rightarrow> ('reg, 'w) ctxlib \<Rightarrow> SdkContext \<Rightarrow> (('reg, 'w) sdkheap, SdkContext) act" where
  "PersistClientCtx lib cl ctx =
     bindS (DefaultEncodingConfig cl) (\<lambda>encCfg.
     bindS (registerIn (enc_InterfaceRegistry encCfg) (std_RegisterInterfaces lib)) (\<lambda>_.
     bindS (registerIn (enc_InterfaceRegistry encCfg) (bstypes_RegisterInterfaces lib)) (\<lambda>_.
     bindS (SetOutputs cl) (\<lambda>_.
     bindS (SetCmdClientContextHandler cl (withEncoding ctx encCfg)) (\<lambda>_ s.
       (let ctx2 = GetClientContextFromCmd cl s
        in bindS (SetCmdClientContext cl ctx2) (\<lambda>_. returnS ctx2) s))))))"

section \<open>Lemmas\<close>

lemma registerIn_apply:
  "registerIn ir f s = (Ok (), s\<lparr>regHeap := (regHeap s)(ir := f (regHeap s ir))\<rparr>)"
  by (simp add: registerIn_def)

text \<open>The codec sees the key types, although they were registered after it was made.\<close>

lemma MakeCodec_registers:
  assumes "MakeCodec lib s = (r, s')"
  shows "\<exists>cdc. r = Ok cdc \<and> regHeap s' (cdc_ir cdc) = crypto_RegisterInterfaces lib (emptyRegistry lib)
    \<and> regNext s' = regNext s + 1 \<and> cdc_ir cdc = regNext s
    \<and> (\<forall>a. a \<noteq> cdc_ir cdc \<longrightarrow> regHeap s' a = regHeap s a) \<and> sdkRest s' = sdkRest s"
  using assms by (auto simp: MakeCodec_def NewInterfaceRegistry_def registerIn_apply Let_def)

text \<open>Two codecs never share a registry.\<close>

lemma MakeCodec_fresh:
  assumes "MakeCodec lib s = (Ok a, t)" "MakeCodec lib t = (Ok b, u)"
  shows "cdc_ir a \<noteq> cdc_ir b" "regHeap u (cdc_ir a) = regHeap t (cdc_ir a)"
  using MakeCodec_registers [OF assms(1)] MakeCodec_registers [OF assms(2)] by auto

text \<open>
  When the context of a command is set, the registry of its codec knows the types of the SDK and those
  of Babylon, if the packages that store and read the context leave the registries alone.
\<close>

definition keepsRegs :: "(('reg, 'w) sdkheap, 'a) act \<Rightarrow> bool" where
  "keepsRegs m \<longleftrightarrow> (\<forall>s. regHeap (snd (m s)) = regHeap s)"

definition ctx_law :: "('reg, 'w) ctxlib \<Rightarrow> bool" where
  "ctx_law cl \<longleftrightarrow> keepsRegs (SetOutputs cl)
     \<and> (\<forall>c. keepsRegs (SetCmdClientContextHandler cl c) \<and> keepsRegs (SetCmdClientContext cl c)
          \<and> (\<forall>s s'. SetCmdClientContextHandler cl c s = (Ok (), s') \<longrightarrow>
               sdk_Codec (GetClientContextFromCmd cl s') = sdk_Codec c
               \<and> sdk_InterfaceRegistry (GetClientContextFromCmd cl s') = sdk_InterfaceRegistry c))"

lemma keepsRegsD: "keepsRegs m \<Longrightarrow> m s = (r, s') \<Longrightarrow> regHeap s' = regHeap s"
  by (metis keepsRegs_def snd_conv)

lemma PersistClientCtx_registers:
  assumes "ctx_law cl" "PersistClientCtx lib cl ctx s = (Ok ctx', s')"
  shows "\<exists>enc t. DefaultEncodingConfig cl s = (Ok enc, t)
    \<and> sdk_Codec ctx' = Some (enc_Codec enc) \<and> sdk_InterfaceRegistry ctx' = Some (enc_InterfaceRegistry enc)
    \<and> regHeap s' (enc_InterfaceRegistry enc)
      = bstypes_RegisterInterfaces lib (std_RegisterInterfaces lib (regHeap t (enc_InterfaceRegistry enc)))"
proof -
  from assms(2) obtain enc t u v where enc: "DefaultEncodingConfig cl s = (Ok enc, t)"
    and out: "SetOutputs cl (t\<lparr>regHeap := (regHeap t)(enc_InterfaceRegistry enc := bstypes_RegisterInterfaces lib
        (std_RegisterInterfaces lib (regHeap t (enc_InterfaceRegistry enc))))\<rparr>) = (Ok (), u)"
    and set1: "SetCmdClientContextHandler cl (withEncoding ctx enc) u = (Ok (), v)" and ctx': "ctx' = GetClientContextFromCmd cl v"
    and set2: "SetCmdClientContext cl ctx' v = (Ok (), s')"
    by (auto simp: PersistClientCtx_def registerIn_apply Let_def act_simps)
  have "regHeap s' = regHeap u"
    using assms(1) set1 set2 unfolding ctx_law_def by (metis keepsRegsD)
  moreover have "regHeap u (enc_InterfaceRegistry enc) = bstypes_RegisterInterfaces lib
      (std_RegisterInterfaces lib (regHeap t (enc_InterfaceRegistry enc)))"
    using keepsRegsD [where m = "SetOutputs cl", OF _ out] assms(1) by (simp add: ctx_law_def)
  moreover have "sdk_Codec ctx' = Some (enc_Codec enc)" "sdk_InterfaceRegistry ctx' = Some (enc_InterfaceRegistry enc)"
    using assms(1) set1 ctx' by (auto simp: ctx_law_def withEncoding_def)
  ultimately show ?thesis using enc by auto
qed

end
