(* ===== verification/PromMetrics.thy ===== *)
theory PromMetrics
  imports GoStd
begin

text \<open>
  The metrics of the two programs as they are declared (\<^verbatim>\<open>covenant/metrics.go\<close>,
  \<^verbatim>\<open>covenant-signer/observability/metrics/signer.go\<close>) and their registration, with that of the
  collectors of the metrics server (\<^verbatim>\<open>covenant-signer/observability/metrics/prometheus.go\<close>). The values
  the metrics have while the programs run are in \<open>Metrics\<close> and \<open>HttpService\<close>.

  The registry (package prometheus) is a parameter: registering a metric whose name is taken is an
  error, and the functions the programs use turn the error into a panic. The lemmas show that the
  declared names are distinct, so that no registration panics.
\<close>

section \<open>Declarations\<close>

text \<open>Vectors have the names of their labels, a summary its quantiles and their errors, in thousandths.\<close>

datatype metricKind = Counter | CounterVec "string list" | Gauge | GaugeVec "string list" | Summary "(nat \<times> nat) list"

record metricDesc =
  MD_Kind :: metricKind
  MD_Name :: string
  MD_Help :: string

definition covenantMetrics :: "metricDesc list" where
  "covenantMetrics = [
     \<lparr>MD_Kind = CounterVec [''covenant_pk''], MD_Name = ''ce_total_sign_delegations_submitted'',
      MD_Help = ''Total number of signed delegations submitted''\<rparr>,
     \<lparr>MD_Kind = CounterVec [''covenant_pk''], MD_Name = ''ce_total_failed_sign_delegations'',
      MD_Help = ''Total number of failed sign delegations''\<rparr>,
     \<lparr>MD_Kind = GaugeVec [''covenant_pk''], MD_Name = ''ce_current_pending_delegations'',
      MD_Help = ''The number of current pending delegations''\<rparr>,
     \<lparr>MD_Kind = Gauge, MD_Name = ''ce_seconds_since_last_submission'',
      MD_Help = ''Seconds since last submission of signatures''\<rparr>,
     \<lparr>MD_Kind = Gauge, MD_Name = ''ce_seconds_since_last_sign_start_time'',
      MD_Help = ''Seconds since last sign start''\<rparr>,
     \<lparr>MD_Kind = Gauge, MD_Name = ''ce_seconds_since_last_sign_finish_time'',
      MD_Help = ''Seconds since last sign finish''\<rparr>,
     \<lparr>MD_Kind = Summary [(500, 50), (900, 10), (990, 1)], MD_Name = ''ce_sign_delegation_lag_seconds'',
      MD_Help = ''Seconds taken to sign a delegation''\<rparr>]"

definition signerMetrics :: "metricDesc list" where
  "signerMetrics = [
     \<lparr>MD_Kind = Counter, MD_Name = ''signer_received_signing_requests'',
      MD_Help = ''The total number of signing requests received by the signer''\<rparr>,
     \<lparr>MD_Kind = Counter, MD_Name = ''signer_succeeded_signing_requests'',
      MD_Help = ''The total number times the signer successfully responded with a signature''\<rparr>,
     \<lparr>MD_Kind = Counter, MD_Name = ''signer_failed_signing_requests'',
      MD_Help = ''The total number of times signer responded with an internal error''\<rparr>,
     \<lparr>MD_Kind = Gauge, MD_Name = ''signer_unlock_status'',
      MD_Help = ''The status indicating if the signer is unlocked or locked. 1 for unlocked, 0 for locked''\<rparr>,
     \<lparr>MD_Kind = Counter, MD_Name = ''signer_failed_unlock_requests'',
      MD_Help = ''The total number of times the signer failed to unlock''\<rparr>]"

section \<open>Registration\<close>

record 'reg promlib =
  prom_NewRegistry :: 'reg
  prom_Register :: "metricDesc list \<Rightarrow> 'reg \<Rightarrow> 'reg result"
  prom_names :: "'reg \<Rightarrow> string set"
  BuildInfoCollector :: "metricDesc list"
  GoCollector :: "metricDesc list"

definition MustRegister :: "'reg promlib \<Rightarrow> metricDesc list \<Rightarrow> 'reg \<Rightarrow> 'reg result" where
  "MustRegister prom ds reg = (case prom_Register prom ds reg of Err e \<Rightarrow> Panic e | r \<Rightarrow> r)"

fun registerEach :: "'reg promlib \<Rightarrow> metricDesc list \<Rightarrow> 'reg \<Rightarrow> 'reg result" where
  "registerEach prom [] reg = Ok reg"
| "registerEach prom (d # ds) reg = bindR (MustRegister prom [d] reg) (registerEach prom ds)"

text \<open>The registry of the signer, and the collectors its metrics server adds.\<close>

definition signerRegistry :: "'reg promlib \<Rightarrow> 'reg result" where
  "signerRegistry prom = registerEach prom signerMetrics (prom_NewRegistry prom)"

definition metricsRegister :: "'reg promlib \<Rightarrow> 'reg \<Rightarrow> 'reg result" where
  "metricsRegister prom reg =
     bindR (MustRegister prom (BuildInfoCollector prom) reg) (MustRegister prom (GoCollector prom))"

section \<open>Lemmas\<close>

text \<open>A collector can be registered when its names are distinct and none is taken.\<close>

definition prom_law :: "'reg promlib \<Rightarrow> bool" where
  "prom_law prom \<longleftrightarrow> prom_names prom (prom_NewRegistry prom) = {}
     \<and> (\<forall>ds reg. distinct (map MD_Name ds) \<longrightarrow> set (map MD_Name ds) \<inter> prom_names prom reg = {} \<longrightarrow>
          (\<exists>reg'. prom_Register prom ds reg = Ok reg'
             \<and> prom_names prom reg' = prom_names prom reg \<union> set (map MD_Name ds)))"

lemma MustRegister_Ok:
  assumes "prom_law prom" "distinct (map MD_Name ds)" "set (map MD_Name ds) \<inter> prom_names prom reg = {}"
  obtains reg' where "MustRegister prom ds reg = Ok reg'"
    "prom_names prom reg' = prom_names prom reg \<union> set (map MD_Name ds)"
proof -
  from assms obtain reg' where "prom_Register prom ds reg = Ok reg'"
    "prom_names prom reg' = prom_names prom reg \<union> set (map MD_Name ds)" unfolding prom_law_def by blast
  with that show thesis by (simp add: MustRegister_def)
qed

lemma registerEach_Ok:
  assumes "prom_law prom" "distinct (map MD_Name ds)" "set (map MD_Name ds) \<inter> prom_names prom reg = {}"
  shows "\<exists>reg'. registerEach prom ds reg = Ok reg'
    \<and> prom_names prom reg' = prom_names prom reg \<union> set (map MD_Name ds)"
  using assms(2,3)
proof (induction ds arbitrary: reg)
  case (Cons d ds)
  obtain reg1 where r1: "MustRegister prom [d] reg = Ok reg1" "prom_names prom reg1 = prom_names prom reg \<union> {MD_Name d}"
    by (rule MustRegister_Ok [OF assms(1), of "[d]" reg]) (use Cons.prems in auto)
  with Cons.IH [of reg1] Cons.prems show ?case by auto
qed simp

lemma metrics_distinct: "distinct (map MD_Name signerMetrics)" "distinct (map MD_Name covenantMetrics)"
  by (simp_all add: signerMetrics_def covenantMetrics_def)

lemma covenantMetrics_register:
  assumes "prom_law prom" "set (map MD_Name covenantMetrics) \<inter> prom_names prom reg = {}"
  shows "\<exists>reg'. registerEach prom covenantMetrics reg = Ok reg'"
  using registerEach_Ok [OF assms(1) metrics_distinct(2) assms(2)] by blast

lemma signerRegistry_Ok:
  assumes "prom_law prom"
  obtains reg where "signerRegistry prom = Ok reg" "prom_names prom reg = set (map MD_Name signerMetrics)"
  using registerEach_Ok [OF assms metrics_distinct(1), of "prom_NewRegistry prom"] assms
  by (auto simp: signerRegistry_def prom_law_def)

lemma metricsRegister_Ok:
  assumes "prom_law prom" "distinct (map MD_Name (BuildInfoCollector prom @ GoCollector prom))"
    and "set (map MD_Name (BuildInfoCollector prom @ GoCollector prom)) \<inter> prom_names prom reg = {}"
  shows "\<exists>reg'. metricsRegister prom reg = Ok reg'"
proof -
  obtain reg1 where r1: "MustRegister prom (BuildInfoCollector prom) reg = Ok reg1"
    "prom_names prom reg1 = prom_names prom reg \<union> set (map MD_Name (BuildInfoCollector prom))"
    by (rule MustRegister_Ok [OF assms(1), of "BuildInfoCollector prom" reg]) (use assms(2,3) in auto)
  obtain reg2 where "MustRegister prom (GoCollector prom) reg1 = Ok reg2"
    by (rule MustRegister_Ok [OF assms(1), of "GoCollector prom" reg1]) (use assms(2,3) r1(2) in auto)
  with r1 show ?thesis by (simp add: metricsRegister_def)
qed

end
