(* ===== verification/SignerMain.thy ===== *)
theory SignerMain
  imports SignerCmd RequestLog Codecs PromMetrics
begin

text \<open>
  The process of the signing service: the root command with its flags and children
  (\<^verbatim>\<open>covenant-signer/cmd/root.go\<close>, \<^verbatim>\<open>keys.go\<close> and the declarations in the files of the commands),
  the main function (\<^verbatim>\<open>covenant-signer/main.go\<close>), the serving of requests
  (\<^verbatim>\<open>signerservice/server.go\<close>, \<^verbatim>\<open>Start\<close>) and the metrics server beside it
  (\<^verbatim>\<open>observability/metrics/prometheus.go\<close>).

  The package that parses the command line (cobra) is a parameter, as is the SDK's own command for keys.
  A served process is a step relation: requests, and the return of one of the two listeners. Both only
  ever return with an error.

  The lemmas show that a process serves nothing but requests to the server that was built, and how it
  ends.
\<close>

section \<open>The root command\<close>

definition configPathKey :: string where "configPathKey = ''config''"
definition FlagHome :: string where "FlagHome = ''home''"

record persistentFlag =
  pf_Name :: string
  pf_Default :: string
  pf_Usage :: string

text \<open>The directory is computed by a package (btcutil) when the process starts.\<close>

definition defaultConfigPath :: "string \<Rightarrow> string" where
  "defaultConfigPath defaultConfigDir = JoinPath [defaultConfigDir, ''config.toml'']"

record 'a cobraCommand =
  cb_Use :: string
  cb_Short :: string
  cb_ExactArgs :: "nat option"
  cb_RunE :: "(string \<Rightarrow> string result) \<Rightarrow> string list \<Rightarrow> 'a"

record 'a rootCommand =
  rc_Use :: string
  rc_Short :: string
  rc_SilenceErrors :: bool
  rc_PersistentFlags :: "persistentFlag list"
  rc_Children :: "'a cobraCommand list"

text \<open>What the program uses; printing goes to the standard output.\<close>

datatype 'w served = SignerDone | SignerServing "'w started"

type_synonym ('reg, 'w) signerAct = "(('reg, 'w krworld) sdkheap, 'w served) act"

record ('reg, 'w, 'doc) signerProg =
  sp_env :: "('w, 'doc) signerEnv"
  sp_hdk :: hdkeychain
  sp_codec :: "'reg codeclib"
  sp_ctx :: "('reg, 'w krworld) ctxlib"
  sp_keys :: "(string \<Rightarrow> string result) \<Rightarrow> string list \<Rightarrow> (('reg, 'w krworld) sdkheap, unit) act"
  sp_print :: "string \<Rightarrow> 'w krworld \<Rightarrow> 'w krworld"
  sp_configDir :: string

definition NewRootCmd :: "('reg, 'w, 'doc) signerProg \<Rightarrow> ('reg, 'w) signerAct rootCommand" where
  "NewRootCmd prog = \<lparr>rc_Use = ''covenant-signer'', rc_Short = ''remote signing service to perform covenant duties'',
     rc_SilenceErrors = False,
     rc_PersistentFlags = [\<lparr>pf_Name = FlagHome, pf_Default = sp_configDir prog, pf_Usage = ''The application home directory''\<rparr>],
     rc_Children = []\<rparr>"

text \<open>The state below the heap of registries\<close>

definition onRest :: "('w, 'a) act \<Rightarrow> (('reg, 'w) sdkheap, 'a) act" where
  "onRest m = (\<lambda>s. case m (sdkRest s) of (r, w) \<Rightarrow> (r, s\<lparr>sdkRest := w\<rparr>))"

definition printDone :: "('reg, 'w, 'doc) signerProg \<Rightarrow> string \<Rightarrow> ('reg, 'w) signerAct" where
  "printDone prog out = bindS (onRest (modifyS (sp_print prog out))) (\<lambda>_. returnS SignerDone)"

definition deriveChildKeyCommand :: "('reg, 'w, 'doc) signerProg \<Rightarrow> ('reg, 'w) signerAct cobraCommand" where
  "deriveChildKeyCommand prog = \<lparr>cb_Use = ''derive-child-key [master-key] [derivation-path]'',
     cb_Short = ''derives a child key from a master key'', cb_ExactArgs = Some 2,
     cb_RunE = (\<lambda>getString args.
       bindS (liftR (indexR args 0)) (\<lambda>masterKey.
       bindS (liftR (indexR args 1)) (\<lambda>derivationPath.
       bindS (liftR (deriveChildKeyCmd (se_blib (sp_env prog)) (sp_hdk prog) masterKey derivationPath)) (printDone prog))))\<rparr>"

definition dumpCfgCommand :: "('reg, 'w, 'doc) signerProg \<Rightarrow> ('reg, 'w) signerAct cobraCommand" where
  "dumpCfgCommand prog = \<lparr>cb_Use = ''dump-cfg'', cb_Short = ''dumps default configuration file'', cb_ExactArgs = None,
     cb_RunE = (\<lambda>getString args.
       bindS (liftR (getString configPathKey)) (\<lambda>path.
       bindS (onRest (dumpCfgCmd (se_host (sp_env prog)) path)) (printDone prog)))\<rparr>"

definition keysCommand :: "('reg, 'w, 'doc) signerProg \<Rightarrow> ('reg, 'w) signerAct cobraCommand" where
  "keysCommand prog = \<lparr>cb_Use = ''keys'', cb_Short = [], cb_ExactArgs = None,
     cb_RunE = (\<lambda>getString args. bindS (sp_keys prog getString args) (\<lambda>_. returnS SignerDone))\<rparr>"

definition startSignerCommand :: "('reg, 'w, 'doc) signerProg \<Rightarrow> ('reg, 'w) signerAct cobraCommand" where
  "startSignerCommand prog = \<lparr>cb_Use = ''start'', cb_Short = ''starts the signer service'', cb_ExactArgs = None,
     cb_RunE = (\<lambda>getString args.
       bindS (liftR (getString configPathKey)) (\<lambda>path.
       bindS (onRest (runSignerCmd (sp_env prog) path)) (\<lambda>st.
       returnS (SignerServing st))))\<rparr>"

text \<open>The root command after the functions \<^verbatim>\<open>init\<close> of the package, in the order of its files.\<close>

definition rootCmd :: "('reg, 'w, 'doc) signerProg \<Rightarrow> ('reg, 'w) signerAct rootCommand" where
  "rootCmd prog =
     (let rc = NewRootCmd prog
      in rc\<lparr>rc_PersistentFlags := rc_PersistentFlags rc @
              [\<lparr>pf_Name = configPathKey, pf_Default = defaultConfigPath (sp_configDir prog),
                pf_Usage = ''path to the configuration file''\<rparr>],
            rc_Children := [deriveChildKeyCommand prog, dumpCfgCommand prog, keysCommand prog, startSignerCommand prog]\<rparr>)"

section \<open>The main function\<close>

text \<open>What cobra makes of a command line: a child with its flags and arguments, or none.\<close>

datatype cobraSelection = CobraRun nat "string \<Rightarrow> string result" "string list" | CobraNone "error option"

record cobralib =
  cobra_select :: "persistentFlag list \<Rightarrow> (string \<times> nat option) list \<Rightarrow> string list \<Rightarrow> cobraSelection"

definition Execute :: "cobralib \<Rightarrow> ('reg, 'w, 'doc) signerProg \<Rightarrow> string list \<Rightarrow> ('reg, 'w) signerAct" where
  "Execute lib prog args =
     (let rc = rootCmd prog
      in case cobra_select lib (rc_PersistentFlags rc) (map (\<lambda>c. (cb_Use c, cb_ExactArgs c)) (rc_Children rc)) args of
           CobraNone None \<Rightarrow> returnS SignerDone
         | CobraNone (Some e) \<Rightarrow> failS e
         | CobraRun i getString rest \<Rightarrow>
             bindS (PersistClientCtx (sp_codec prog) (sp_ctx prog) emptySdkContext) (\<lambda>_.
             cb_RunE (rc_Children rc ! i) getString rest))"

text \<open>The status of a process whose main function got this from \<^verbatim>\<open>Execute\<close>: the error is discarded.\<close>

definition mainStatus :: "'a result \<Rightarrow> nat" where
  "mainStatus r = (case r of Panic p \<Rightarrow> 2 | _ \<Rightarrow> 0)"

section \<open>The process\<close>

text \<open>
  The state while the start command serves: what the call of \<^verbatim>\<open>srv.Start\<close> returned, the status of the
  process if it has ended, and the server.
\<close>

record 's signerProc =
  sp_listen :: "error option"
  sp_exit :: "nat option"
  sp_server :: "'s server"

definition signerProcInit :: "'s server \<Rightarrow> 's signerProc" where
  "signerProcInit s = \<lparr>sp_listen = None, sp_exit = None, sp_server = s\<rparr>"

text \<open>\<^verbatim>\<open>log.Fatal\<close> of the metrics server ends the process with status 1.\<close>

definition metricsServerEnd :: "error \<Rightarrow> nat option" where
  "metricsServerEnd err = (if err \<noteq> ErrServerClosed then Some 1 else None)"

inductive signerStep :: "'s SigningServer \<Rightarrow> 'reg promlib \<Rightarrow> 'reg \<Rightarrow> 's signerProc \<Rightarrow> 's signerProc \<Rightarrow> bool"
  for srv prom reg where
  request: "sp_exit p = None \<Longrightarrow> SS_Handler srv r (sp_server p) = (res, s') \<Longrightarrow>
    signerStep srv prom reg p (p\<lparr>sp_server := s'\<rparr>)"
| metricsPanic: "sp_exit p = None \<Longrightarrow> metricsRegister prom reg = Panic msg \<Longrightarrow>
    signerStep srv prom reg p (p\<lparr>sp_exit := Some 2\<rparr>)"
| metricsEnd: "sp_exit p = None \<Longrightarrow> metricsServerEnd err = Some c \<Longrightarrow>
    signerStep srv prom reg p (p\<lparr>sp_exit := Some c\<rparr>)"
| listenReturns: "sp_exit p = None \<Longrightarrow>
    signerStep srv prom reg p (p\<lparr>sp_listen := Some err, sp_exit := Some (mainStatus (Err err :: unit result))\<rparr>)"

inductive_cases signerStepE: "signerStep srv prom reg p p'"

section \<open>Lemmas\<close>

text \<open>
  What cobra documents: the selected child is one of those given, the number of its arguments was
  checked, and every flag of the root command has a value.
\<close>

definition cobra_law :: "cobralib \<Rightarrow> bool" where
  "cobra_law lib \<longleftrightarrow> (\<forall>flags specs args i getString rest.
     cobra_select lib flags specs args = CobraRun i getString rest \<longrightarrow>
     i < length specs \<and> (\<forall>n. snd (specs ! i) = Some n \<longrightarrow> length rest = n)
     \<and> (\<forall>f \<in> set flags. \<exists>v. getString (pf_Name f) = Ok v))"

lemma rootCmd_children:
  "rc_Children (rootCmd prog) = [deriveChildKeyCommand prog, dumpCfgCommand prog, keysCommand prog, startSignerCommand prog]"
  "map pf_Name (rc_PersistentFlags (rootCmd prog)) = [''home'', ''config'']"
  by (simp_all add: rootCmd_def NewRootCmd_def FlagHome_def configPathKey_def)

lemmas child_defs = deriveChildKeyCommand_def dumpCfgCommand_def keysCommand_def startSignerCommand_def

lemma onRest_eq: "onRest m s = (r, s') \<longleftrightarrow> (\<exists>w. m (sdkRest s) = (r, w) \<and> s' = s\<lparr>sdkRest := w\<rparr>)"
  by (auto simp: onRest_def split: prod.splits)

lemma Execute_cases:
  assumes "cobra_law lib" "Execute lib prog args s = (r, s')"
  obtains "r = Ok SignerDone" | e where "r = Err e" | p where "r = Panic p"
    | path w w' st where "r = Ok (SignerServing st)" "runSignerCmd (sp_env prog) path w = (Ok st, w')"
proof (cases r)
  case (Ok out)
  show thesis
  proof (cases out)
    case (SignerServing st)
    let ?sel = "cobra_select lib (rc_PersistentFlags (rootCmd prog))
      (map (\<lambda>c. (cb_Use c, cb_ExactArgs c)) (rc_Children (rootCmd prog))) args"
    obtain i gs rest where sel: "?sel = CobraRun i gs rest"
      using assms(2) Ok SignerServing
      by (cases ?sel) (auto simp: Execute_def Let_def act_simps split: option.splits)
    then have "i < 4" using assms(1) unfolding cobra_law_def by (fastforce simp: rootCmd_children)
    then consider "i = 0" | "i = 1" | "i = 2" | "i = 3" by linarith
    moreover obtain t where run: "cb_RunE (rc_Children (rootCmd prog) ! i) gs rest t = (Ok (SignerServing st), s')"
      using assms(2) Ok SignerServing sel by (auto simp: Execute_def Let_def act_simps)
    ultimately have "\<exists>path w w'. runSignerCmd (sp_env prog) path w = (Ok st, w')"
      by cases (use run in \<open>auto simp: rootCmd_children child_defs printDone_def onRest_eq act_simps\<close>)
    with that(4) Ok SignerServing show thesis by blast
  qed (use Ok that in auto)
qed (use that in auto)

text \<open>The command that derives a key indexes its arguments, whose number was checked before.\<close>

lemma derive_args_in_range:
  assumes "cobra_law lib" "cobra_select lib flags (map (\<lambda>c. (cb_Use c, cb_ExactArgs c)) (rc_Children (rootCmd prog))) args
      = CobraRun 0 getString rest"
  shows "\<exists>a b. rest = [a, b] \<and> cb_RunE (deriveChildKeyCommand prog) getString rest
    = bindS (liftR (deriveChildKeyCmd (se_blib (sp_env prog)) (sp_hdk prog) a b)) (printDone prog)"
proof -
  have "length rest = 2"
    using assms unfolding cobra_law_def by (fastforce simp: rootCmd_children deriveChildKeyCommand_def)
  then obtain a b where "rest = [a, b]" by (auto simp: length_Suc_conv numeral_2_eq_2)
  then show ?thesis by (auto simp: deriveChildKeyCommand_def indexR_def fun_eq_iff)
qed

text \<open>The steps of a process are requests to its server, and its status tells which listener returned.\<close>

definition exitInv :: "'s signerProc \<Rightarrow> bool" where
  "exitInv p \<longleftrightarrow> (case sp_exit p of
     None \<Rightarrow> sp_listen p = None
   | Some c \<Rightarrow> (if c = 0 then sp_listen p \<noteq> None else c = 1 \<and> sp_listen p = None))"

lemma exitInv_step:
  assumes "metricsRegister prom reg = Ok reg'" "signerStep srv prom reg p p'" "exitInv p"
  shows "exitInv p'"
  using assms(2)
  by cases (use assms(1,3) in \<open>auto simp: exitInv_def mainStatus_def metricsServerEnd_def split: if_splits\<close>)

interpretation sp: step_invariant "signerStep srv prom reg" "\<lambda>p. (\<exists>reg'. metricsRegister prom reg = Ok reg') \<longrightarrow> exitInv p"
  for srv prom reg
  by unfold_locales (blast intro: exitInv_step)

lemma signerStep_requests:
  assumes "(signerStep srv prom reg)\<^sup>*\<^sup>* p p'"
  shows "(requestStep srv)\<^sup>*\<^sup>* (sp_server p) (sp_server p')"
  using assms
proof (induction rule: rtranclp_induct)
  case (step t u)
  from step(2) have "sp_server u = sp_server t \<or> requestStep srv (sp_server t) (sp_server u)"
    by cases (auto intro: requestStep.handle)
  with step(3) show ?case by (auto intro: rtranclp.rtrancl_into_rtrancl)
qed simp

section \<open>Properties\<close>

text \<open>
  C12. The signer never reports that it failed to serve. If the program gets to serving, it does so
  through the start command; whatever happens then is a sequence of requests to the server that command
  built; and the process ends with status 1 when the metrics server could not listen, and with status 0
  exactly when the call that serves requests has returned, which it only does with an error. The
  hypotheses on the metrics say that the names of the standard collectors are distinct and not those of
  the signer, so that no registration panics.
\<close>

theorem signer_process:
  assumes "cobra_law lib" and "prom_law prom" and "signerRegistry prom = Ok reg"
    and "distinct (map MD_Name (BuildInfoCollector prom @ GoCollector prom @ signerMetrics))"
    and "Execute lib prog args s = (Ok (SignerServing st), s')"
    and "(signerStep (st_server st) prom reg)\<^sup>*\<^sup>* (signerProcInit (st_state st)) p"
  shows "(\<exists>path w w'. runSignerCmd (sp_env prog) path w = (Ok st, w'))
    \<and> (requestStep (st_server st))\<^sup>*\<^sup>* (st_state st) (sp_server p)
    \<and> (case sp_exit p of
         None \<Rightarrow> sp_listen p = None
       | Some c \<Rightarrow> (if c = 0 then \<exists>err. sp_listen p = Some err else c = 1 \<and> sp_listen p = None))"
proof -
  have "prom_names prom reg = set (map MD_Name signerMetrics)"
    using signerRegistry_Ok [OF assms(2)] assms(3) by (metis result.inject(1))
  then have "\<exists>reg'. metricsRegister prom reg = Ok reg'"
    using assms(4) by (intro metricsRegister_Ok [OF assms(2)]) auto
  then have "exitInv p"
    using sp.reach [OF assms(6)] by (simp add: exitInv_def signerProcInit_def)
  moreover have "(requestStep (st_server st))\<^sup>*\<^sup>* (st_state st) (sp_server p)"
    using signerStep_requests [OF assms(6)] by (simp add: signerProcInit_def)
  moreover have "\<exists>path w w'. runSignerCmd (sp_env prog) path w = (Ok st, w')"
    using Execute_cases [OF assms(1,5)] by (metis result.distinct(1,3) result.inject(1) served.distinct(1) served.inject)
  ultimately show ?thesis by (auto simp: exitInv_def split: option.splits)
qed

text \<open>A registry of names, and a command line package that knows the start command.\<close>

definition sample_prom :: "string list promlib" where
  "sample_prom = \<lparr>prom_NewRegistry = [],
     prom_Register = (\<lambda>ds reg. if distinct (map MD_Name ds) \<and> set (map MD_Name ds) \<inter> set reg = {}
       then Ok (map MD_Name ds @ reg) else Err ''duplicate''),
     prom_names = set, BuildInfoCollector = [\<lparr>MD_Kind = Gauge, MD_Name = ''go_build_info'', MD_Help = []\<rparr>],
     GoCollector = [\<lparr>MD_Kind = Gauge, MD_Name = ''go_goroutines'', MD_Help = []\<rparr>]\<rparr>"

definition sample_cobra :: cobralib where
  "sample_cobra = \<lparr>cobra_select = (\<lambda>flags specs args.
     if length specs = 4 \<and> snd (specs ! 3) = None then CobraRun 3 (\<lambda>n. Ok ''/etc/config.toml'') [] else CobraNone None)\<rparr>"

definition sample_signer_prog :: "(unit, string \<Rightarrow> sdkRecord option, unit) signerProg" where
  "sample_signer_prog = \<lparr>sp_env = sample_signer_env, sp_hdk = sample_hdk,
     sp_codec = \<lparr>emptyRegistry = (), crypto_RegisterInterfaces = id, std_RegisterInterfaces = id, bstypes_RegisterInterfaces = id\<rparr>,
     sp_ctx = \<lparr>DefaultEncodingConfig = returnS \<lparr>enc_InterfaceRegistry = 0, enc_Codec = ProtoCodec 0, enc_TxConfig = [], enc_Amino = []\<rparr>,
       SetOutputs = returnS (), SetCmdClientContextHandler = (\<lambda>c. returnS ()),
       GetClientContextFromCmd = (\<lambda>s. emptySdkContext), SetCmdClientContext = (\<lambda>c. returnS ())\<rparr>,
     sp_keys = (\<lambda>gs args. returnS ()), sp_print = (\<lambda>out w. w), sp_configDir = ''/root/.signer''\<rparr>"

lemma sample_prom_law: "prom_law sample_prom"
  by (auto simp: prom_law_def sample_prom_def)

lemma sample_signer_executes:
  "\<exists>st s'. Execute sample_cobra sample_signer_prog args \<lparr>regHeap = (\<lambda>_. ()), regNext = 1, sdkRest = sample_krworld\<rparr>
     = (Ok (SignerServing st), s')"
proof -
  obtain st w' where "runSignerCmd (sp_env sample_signer_prog) ''/etc/config.toml'' sample_krworld = (Ok st, w')"
    using sample_signer_starts [of "''/etc/config.toml''"] by (auto simp: sample_signer_prog_def)
  moreover have "PersistClientCtx (sp_codec sample_signer_prog) (sp_ctx sample_signer_prog) c s
      = (Ok emptySdkContext, s\<lparr>regHeap := (regHeap s)(0 := ())\<rparr>)" for c s
    by (simp add: PersistClientCtx_def sample_signer_prog_def registerIn_apply Let_def)
  ultimately show ?thesis
    by (simp add: Execute_def sample_cobra_def rootCmd_children Let_def) (simp add: startSignerCommand_def onRest_def)
qed

theorem signer_process_witness:
  "\<exists>st s' p. Execute sample_cobra sample_signer_prog [''covenant-signer'', ''start'']
       \<lparr>regHeap = (\<lambda>_. ()), regNext = 1, sdkRest = sample_krworld\<rparr> = (Ok (SignerServing st), s')
     \<and> signerStep (st_server st) sample_prom (map MD_Name (rev signerMetrics)) (signerProcInit (st_state st)) p
     \<and> sp_exit p = Some 0 \<and> (\<exists>err. sp_listen p = Some err)"
proof -
  obtain st s' where st: "Execute sample_cobra sample_signer_prog [''covenant-signer'', ''start'']
      \<lparr>regHeap = (\<lambda>_. ()), regNext = 1, sdkRest = sample_krworld\<rparr> = (Ok (SignerServing st), s')"
    using sample_signer_executes by blast
  have cobra: "cobra_law sample_cobra" by (auto simp: cobra_law_def sample_cobra_def split: if_splits)
  have reg: "signerRegistry sample_prom = Ok (map MD_Name (rev signerMetrics))"
    "distinct (map MD_Name (BuildInfoCollector sample_prom @ GoCollector sample_prom @ signerMetrics))"
    by (simp_all add: signerRegistry_def signerMetrics_def MustRegister_def sample_prom_def)
  let ?p = "(signerProcInit (st_state st))\<lparr>sp_listen := Some ''address already in use'', sp_exit := Some 0\<rparr>"
  have step: "signerStep (st_server st) sample_prom (map MD_Name (rev signerMetrics)) (signerProcInit (st_state st)) ?p"
    using signerStep.listenReturns [of "signerProcInit (st_state st)" "st_server st" sample_prom _ "''address already in use''"]
    by (simp add: signerProcInit_def mainStatus_def)
  from signer_process [OF cobra sample_prom_law reg st r_into_rtranclp [of "signerStep (st_server st) sample_prom _", OF step]] st step
  show ?thesis by (auto intro!: exI [of _ st] exI [of _ ?p])
qed

end
