(* ===== verification/SignerClient.thy ===== *)
theory SignerClient
  imports HttpService
begin

text \<open>
  The client of the signing service (\<^verbatim>\<open>signerservice/client.go\<close>): the four calls, with the HMAC
  header, the limit on the size of the response and the treatment of its status.

  The network is a parameter: \<open>httpDo\<close> takes an outgoing request and gives the response or an
  error, which covers everything that fails before the body of a response has been read, including a
  URL that does not parse. So is the text of the errors of \<^verbatim>\<open>json.Unmarshal\<close>. The law
  \<open>delivers\<close> says that the network takes every request to a given server and brings back the
  answer.

  The lemmas follow a call through the service: what the client gets is what the handler of the
  service answers.
\<close>

record ClientRequest =
  CR_Method :: string
  CR_URL :: string
  CR_ContentType :: string
  CR_HMAC :: string
  CR_Body :: string

record 'w network =
  httpDo :: "Duration \<Rightarrow> ClientRequest \<Rightarrow> ('w, HttpResponse) act"
  jsonErrorText :: "string \<Rightarrow> error"

definition maxResponseSize :: nat where
  "maxResponseSize = 1048576"

text \<open>The header, empty if there is no key.\<close>

definition addHMACHeader :: "string \<Rightarrow> string \<Rightarrow> string result" where
  "addHMACHeader hmacKey body =
     (if hmacKey = [] then Ok []
      else wrapErr ''failed to generate HMAC'' (GenerateHMAC hmacKey body))"

definition readResponse :: "HttpResponse \<Rightarrow> string result" where
  "readResponse res =
     (if length (RespBody res) > maxResponseSize then Err ''http: request body too large''
      else Ok (RespBody res))"

text \<open>What all four calls have in common: send, read the body, and refuse any status but 200.\<close>

definition callSigner ::
  "'w network \<Rightarrow> Duration \<Rightarrow> string \<Rightarrow> string \<Rightarrow> ClientRequest \<Rightarrow> ('w, string) act" where
  "callSigner net timeout hmacKey what creq =
     bindS (liftR (addHMACHeader hmacKey (CR_Body creq))) (\<lambda>hdr.
     bindS (httpDo net timeout (creq\<lparr>CR_HMAC := hdr\<rparr>)) (\<lambda>res.
     bindS (liftR (readResponse res)) (\<lambda>resBody.
     if StatusCode res \<noteq> StatusOK
     then failS (what @ '' request failed. status code: '' @ show_int (StatusCode res)
                  @ '', message: '' @ resBody)
     else returnS resBody)))"

definition decodeResponse ::
  "'w network \<Rightarrow> (string \<Rightarrow> json \<Rightarrow> 'r \<Rightarrow> 'r option) \<Rightarrow> 'r \<Rightarrow> string \<Rightarrow> 'r result" where
  "decodeResponse net set1 zero resBody =
     (case Option.bind (json_Unmarshal resBody) (\<lambda>v. decPublic set1 v zero) of
        None \<Rightarrow> Err (jsonErrorText net resBody)
      | Some r \<Rightarrow> Ok r)"

definition RequestCovenantSignaure ::
  "'w network \<Rightarrow> btclib \<Rightarrow> string \<Rightarrow> Duration \<Rightarrow> ParsedSigningRequest \<Rightarrow> string
    \<Rightarrow> ('w, ParsedSigningResponse) act" where
  "RequestCovenantSignaure net blib signerURL timeout preq hmacKey =
     bindS (liftR (ToSignTransactionRequest blib preq)) (\<lambda>req.
     bindS (callSigner net timeout hmacKey ''signing''
              \<lparr>CR_Method = ''POST'', CR_URL = signerURL @ ''/v1/sign-transactions'',
               CR_ContentType = ''application/json'', CR_HMAC = [],
               CR_Body = printValue (jsonSignRequest req)\<rparr>) (\<lambda>resBody.
     bindS (liftR (decodeResponse net setSignResponse zeroSignResponse resBody)) (\<lambda>response.
     liftR (ToParsedSigningResponse blib response))))"

definition GetPublicKey ::
  "'w network \<Rightarrow> btclib \<Rightarrow> string \<Rightarrow> Duration \<Rightarrow> string \<Rightarrow> ('w, PublicKey) act" where
  "GetPublicKey net blib signerURL timeout hmacKey =
     bindS (callSigner net timeout hmacKey ''public key''
              \<lparr>CR_Method = ''GET'', CR_URL = signerURL @ ''/v1/public-key'', CR_ContentType = [],
               CR_HMAC = [], CR_Body = []\<rparr>) (\<lambda>resBody.
     bindS (liftR (decodeResponse net setPublicKey \<lparr>GPK_PublicKey = []\<rparr> resBody)) (\<lambda>response.
     bindS (liftR (DecodeString (GPK_PublicKey response))) (\<lambda>pubKey.
     liftR (ParsePubKey blib pubKey))))"

definition UnlockClient ::
  "'w network \<Rightarrow> string \<Rightarrow> Duration \<Rightarrow> string \<Rightarrow> string \<Rightarrow> ('w, unit) act" where
  "UnlockClient net signerURL timeout passphrase hmacKey =
     bindS (callSigner net timeout hmacKey ''unlocking''
              \<lparr>CR_Method = ''POST'', CR_URL = signerURL @ ''/v1/unlock'', CR_ContentType = ''application/json'',
               CR_HMAC = [], CR_Body = printValue (jsonUnlockRequest \<lparr>Passphrase = passphrase\<rparr>)\<rparr>) (\<lambda>_.
     returnS ())"

definition LockClient :: "'w network \<Rightarrow> string \<Rightarrow> Duration \<Rightarrow> string \<Rightarrow> ('w, unit) act" where
  "LockClient net signerURL timeout hmacKey =
     bindS (callSigner net timeout hmacKey ''locking''
              \<lparr>CR_Method = ''POST'', CR_URL = signerURL @ ''/v1/lock'', CR_ContentType = ''application/json'',
               CR_HMAC = [], CR_Body = []\<rparr>) (\<lambda>_.
     returnS ())"

section \<open>The network\<close>

text \<open>
  A request as the server sees it; a handler that panics closes the connection without an answer,
  which the client reports as an error.
\<close>

definition receive :: "string \<Rightarrow> ClientRequest \<Rightarrow> HttpRequest" where
  "receive signerURL creq = \<lparr>Method = CR_Method creq, URLPath = drop (length signerURL) (CR_URL creq),
     HMACHeader = CR_HMAC creq, ContentLength = int (length (CR_Body creq)), BodyData = CR_Body creq,
     BodyError = None\<rparr>"

definition delivers :: "'s server network \<Rightarrow> string \<Rightarrow> 's httpHandler \<Rightarrow> bool" where
  "delivers net signerURL serve \<longleftrightarrow>
     (\<forall>timeout creq s. has_prefix (CR_URL creq) signerURL \<longrightarrow>
        (case serve (receive signerURL creq) s of
           (Ok resp, s') \<Rightarrow> httpDo net timeout creq s = (Ok resp, s')
         | (Err e, s') \<Rightarrow> \<exists>e'. httpDo net timeout creq s = (Err e', s')
         | (Panic p, s') \<Rightarrow> \<exists>e'. httpDo net timeout creq s = (Err e', s')))"

text \<open>Client and server use the same key, or the server asks for none.\<close>

definition keysAgree :: "string \<Rightarrow> ParsedServerConfig \<Rightarrow> bool" where
  "keysAgree hmacKey cfg \<longleftrightarrow> PSC_HMACKey cfg = [] \<or> PSC_HMACKey cfg = hmacKey"

lemma addHMACHeader_Ok: "\<exists>hdr. addHMACHeader hmacKey body = Ok hdr"
  by (simp add: addHMACHeader_def GenerateHMAC_def)

lemma readResponse_short: "length (RespBody res) \<le> maxResponseSize \<Longrightarrow> readResponse res = Ok (RespBody res)"
  by (simp add: readResponse_def)

text \<open>A request of the client passes the middlewares.\<close>

lemma client_passes:
  assumes "keysAgree hmacKey cfg" "addHMACHeader hmacKey (CR_Body creq) = Ok hdr"
    and "int (length (CR_Body creq)) \<le> uint (PSC_MaxContentLength cfg)"
  shows "serveHTTP mux cfg h (receive url (creq\<lparr>CR_HMAC := hdr\<rparr>))
    = routeRequest mux (SetupRoutes h) (receive url (creq\<lparr>CR_HMAC := hdr\<rparr>))"
proof (cases "PSC_HMACKey cfg = []")
  case True
  with assms(3) show ?thesis
    by (simp add: serveHTTP_def ContentLengthMiddleware_def MaxBytesReader_def receive_def)
next
  case False
  with assms have "authentic cfg (receive url (creq\<lparr>CR_HMAC := hdr\<rparr>))"
    by (simp add: authentic_def receive_def keysAgree_def addHMACHeader_def GenerateHMAC_def)
  then show ?thesis by (rule serveHTTP_authentic [OF False])
qed

text \<open>The answer of the handler is the answer of the call.\<close>

lemma delivers_route:
  assumes "delivers net url (serveHTTP mux cfg h)" "has_prefix (CR_URL creq) url"
    and "keysAgree hmacKey cfg" "int (length (CR_Body creq)) \<le> uint (PSC_MaxContentLength cfg)"
    and "addHMACHeader hmacKey (CR_Body creq) = Ok hdr"
  shows "case routeRequest mux (SetupRoutes h) (receive url (creq\<lparr>CR_HMAC := hdr\<rparr>)) s of
      (Ok resp, s') \<Rightarrow> httpDo net timeout (creq\<lparr>CR_HMAC := hdr\<rparr>) s = (Ok resp, s')
    | (Err e, s') \<Rightarrow> \<exists>e'. httpDo net timeout (creq\<lparr>CR_HMAC := hdr\<rparr>) s = (Err e', s')
    | (Panic p, s') \<Rightarrow> \<exists>e'. httpDo net timeout (creq\<lparr>CR_HMAC := hdr\<rparr>) s = (Err e', s')"
proof -
  let ?c = "creq\<lparr>CR_HMAC := hdr\<rparr>"
  have "has_prefix (CR_URL ?c) url" using assms(2) by simp
  with assms(1) have "case serveHTTP mux cfg h (receive url ?c) s of
      (Ok resp, s') \<Rightarrow> httpDo net timeout ?c s = (Ok resp, s')
    | (Err e, s') \<Rightarrow> \<exists>e'. httpDo net timeout ?c s = (Err e', s')
    | (Panic p, s') \<Rightarrow> \<exists>e'. httpDo net timeout ?c s = (Err e', s')"
    unfolding delivers_def by (elim allE [of _ timeout] allE [of _ "?c"] allE [of _ s] impE)
  then show ?thesis using client_passes [OF assms(3,5,4), of mux h url] by simp
qed

lemma callSigner_route:
  assumes net: "delivers net url (serveHTTP mux cfg h)" "has_prefix (CR_URL creq) url"
    and agree: "keysAgree hmacKey cfg" "int (length (CR_Body creq)) \<le> uint (PSC_MaxContentLength cfg)"
    and hdr: "addHMACHeader hmacKey (CR_Body creq) = Ok hdr"
    and run: "routeRequest mux (SetupRoutes h) (receive url (creq\<lparr>CR_HMAC := hdr\<rparr>)) s = (Ok resp, s')"
    and short: "length (RespBody resp) \<le> maxResponseSize"
  shows "callSigner net timeout hmacKey what creq s =
    (if StatusCode resp = 200 then Ok (RespBody resp)
     else Err (what @ '' request failed. status code: '' @ show_int (StatusCode resp)
                @ '', message: '' @ RespBody resp), s')"
proof -
  have "httpDo net timeout (creq\<lparr>CR_HMAC := hdr\<rparr>) s = (Ok resp, s')"
    using delivers_route [OF net agree hdr, where s = s and timeout = timeout] run by simp
  then show ?thesis using hdr short by (simp add: callSigner_def readResponse_short status_defs)
qed

lemma callSigner_panic:
  assumes net: "delivers net url (serveHTTP mux cfg h)" "has_prefix (CR_URL creq) url"
    and agree: "keysAgree hmacKey cfg" "int (length (CR_Body creq)) \<le> uint (PSC_MaxContentLength cfg)"
    and hdr: "addHMACHeader hmacKey (CR_Body creq) = Ok hdr"
    and run: "routeRequest mux (SetupRoutes h) (receive url (creq\<lparr>CR_HMAC := hdr\<rparr>)) s = (Panic p, s')"
  shows "\<exists>e. callSigner net timeout hmacKey what creq s = (Err e, s')"
proof -
  obtain e where "httpDo net timeout (creq\<lparr>CR_HMAC := hdr\<rparr>) s = (Err e, s')"
    using delivers_route [OF net agree hdr, where s = s and timeout = timeout] run by auto
  then show ?thesis using hdr by (simp add: callSigner_def)
qed

section \<open>The signing call through the service\<close>

lemma asciiResponse_ToResponse: "asciiResponse (ToResponse blib resp)"
  by (cases "StakeExpSig resp") (auto simp: asciiResponse_def ToResponse_def ascii_hex list_all_iff)

lemma asciiRequest_To:
  assumes "ToSignTransactionRequest blib preq = Ok req"
  shows "asciiRequest req"
  using assms
  by (auto simp: ToSignTransactionRequest_def printStakeExpansion_def SerializeBTCTxToHex_def asciiRequest_def
      act_simps ascii_hex list_all_iff split: option.splits)

lemma decode_sign_request:
  assumes "asciiRequest req"
  shows "decodeRequestBody decSignRequest (receive url \<lparr>CR_Method = m, CR_URL = u, CR_ContentType = ct,
      CR_HMAC = hdr, CR_Body = printValue (jsonSignRequest req)\<rparr>) = Some req"
  using json_Decode_print [OF printable_request [OF assms]]
  by (simp add: decodeRequestBody_def receive_def decSignRequest_json)

lemma decode_sign_response:
  "decodeResponse net setSignResponse zeroSignResponse
     (printValue (jsonPublic (jsonSignResponse (ToResponse blib resp)))) = Ok (ToResponse blib resp)"
  using json_Unmarshal_print [OF printable_response [OF asciiResponse_ToResponse]]
  by (simp add: decodeResponse_def decSignResponse_json)

text \<open>
  The signing handler of an unlocked server on a request that parses: the answer of the reference
  signing function, printed, with the counters of the service.
\<close>

lemma register_sign:
  assumes "decodeRequestBody decSignRequest r = Some msg" "ParseSigningRequest blib msg = Ok preq"
    and key: "krCurrent (signerState s) = Some key"
  shows "registerHandler (HandleSignTransactions (keyringHandler kl kc blib sl)) r s =
    (case signAll blib sl key preq of
       Ok resp \<Rightarrow> (Ok (writeResponse 200 (jsonPublic (jsonSignResponse (ToResponse blib resp)))),
         s\<lparr>ReceivedSigningRequests := ReceivedSigningRequests s + 1,
           SuccessfulSigningRequests := SuccessfulSigningRequests s + 1\<rparr>)
     | Err e \<Rightarrow> (Ok (writeResponse 500 newInternalServiceError),
         s\<lparr>ReceivedSigningRequests := ReceivedSigningRequests s + 1,
           FailedSigningRequests := FailedSigningRequests s + 1\<rparr>)
     | Panic p \<Rightarrow> (Panic p, s\<lparr>ReceivedSigningRequests := ReceivedSigningRequests s + 1\<rparr>))"
proof -
  obtain t where t: "SignTransactionsApp loadKey (KeyringRetriever kl kc) blib sl preq (signerState s)
      = (signAll blib sl key preq, t)"
    using kr.sign_current [OF key] by blast
  with read_only(1) [OF t] have "onSigner (SignTransactionsApp loadKey (KeyringRetriever kl kc) blib sl preq)
      (s\<lparr>ReceivedSigningRequests := n\<rparr>) = (signAll blib sl key preq, s\<lparr>ReceivedSigningRequests := n\<rparr>)" for n
    by (intro onSigner_same) simp
  note run = this
  show ?thesis
    using assms(1,2) run
    by (cases "signAll blib sl key preq")
       (simp_all add: registerHandler_def HandleSignTransactions_def keyringHandler_def metric_defs
         NewResult_def NewErrorWithMsg_def NewError_def UninitializedStatusCode_def status_defs
         statusKnown_def newInternalServiceError_def InternalServiceError_def)
qed

end
