(* ===== verification/RemoteSigner.thy ===== *)
theory RemoteSigner
  imports Emulator SignerClient
begin

text \<open>
  The signer the emulator uses (\<^verbatim>\<open>remotesigner/signer.go\<close>): its requests and responses are
  translated into those of the signing service, and the service is called over HTTP.

  The property is that the remote signer is as good as a local one: through both translations, JSON
  in both directions, authentication, routing, the handler and the keyring, the answer is the one of
  signing the request with the service's key.
\<close>

definition covenantRequestToSignerRequestStkExp ::
  "SigningRequestStkExp \<Rightarrow> ParsedSigningRequestStkExp" where
  "covenantRequestToSignerRequestStkExp req = \<lparr>
     PSE_PreviousActiveStakeTx = PreviousActiveStakeTx req,
     PSE_OtherFundingOutput = OtherFundingOutput req,
     PSE_PreviousStakingOutputIdx = PreviousStakingOutputIdx req,
     PreviousActiveStakeUnbondingScript = PreviousActiveStakeUnbondingPkScriptPath req\<rparr>"

definition covenantRequestToSignerRequest :: "SigningRequest \<Rightarrow> ParsedSigningRequest" where
  "covenantRequestToSignerRequest req = \<lparr>
     PSR_StakingTx = Req_StakingTx req, PSR_SlashingTx = Req_SlashingTx req,
     PSR_UnbondingTx = Req_UnbondingTx req, PSR_SlashUnbondingTx = Req_SlashUnbondingTx req,
     PSR_StakeExp = map_option covenantRequestToSignerRequestStkExp (Req_StakeExp req),
     PSR_StakingOutputIdx = Req_StakingOutputIdx req,
     SlashingScript = SlashingPkScriptPath req,
     UnbondingScript = StakingTxUnbondingPkScriptPath req,
     UnbondingSlashingScript = UnbondingTxSlashingPkScriptPath req,
     PSR_FpEncKeys = Req_FpEncKeys req\<rparr>"

definition signerResponseToCovenantResponse :: "ParsedSigningResponse \<Rightarrow> SignaturesResponse" where
  "signerResponseToCovenantResponse resp = \<lparr>
     SlashSigs = SlashAdaptorSigs resp, UnbondingSig = PSP_UnbondingSig resp,
     SlashUnbondingSigs = SlashUnbondingAdaptorSigs resp, StkExtSig = StakeExpSig resp\<rparr>"

section \<open>The signer\<close>

definition RemoteSignTransactions ::
  "'w network \<Rightarrow> btclib \<Rightarrow> RemoteSignerCfg \<Rightarrow> SigningRequest \<Rightarrow> ('w, SignaturesResponse) act" where
  "RemoteSignTransactions net blib cfg req =
     bindS (RequestCovenantSignaure net blib (RS_URL cfg) (RS_Timeout cfg)
              (covenantRequestToSignerRequest req) (RS_HMACKey cfg)) (\<lambda>resp.
     returnS (signerResponseToCovenantResponse resp))"

definition RemotePubKey :: "'w network \<Rightarrow> btclib \<Rightarrow> RemoteSignerCfg \<Rightarrow> ('w, PublicKey) act" where
  "RemotePubKey net blib cfg = GetPublicKey net blib (RS_URL cfg) (RS_Timeout cfg) (RS_HMACKey cfg)"

definition NewRemoteSigner :: "'w network \<Rightarrow> btclib \<Rightarrow> RemoteSignerCfg \<Rightarrow> 'w Signer" where
  "NewRemoteSigner net blib cfg =
     \<lparr>Signer_SignTransactions = RemoteSignTransactions net blib cfg,
      Signer_PubKey = RemotePubKey net blib cfg\<rparr>"

section \<open>Lemmas\<close>

lemma covenantRequest_inj:
  "covenantRequestToSignerRequest a = covenantRequestToSignerRequest b \<longleftrightarrow> a = b"
proof
  have inj: "inj covenantRequestToSignerRequestStkExp"
    by (rule injI) (simp add: covenantRequestToSignerRequestStkExp_def)
  assume "covenantRequestToSignerRequest a = covenantRequestToSignerRequest b"
  then show "a = b"
    by (auto simp: covenantRequestToSignerRequest_def dest: injD [OF option.inj_map [OF inj]])
qed simp

lemma signerResponse_inj:
  "signerResponseToCovenantResponse a = signerResponseToCovenantResponse b \<longleftrightarrow> a = b"
  by (auto simp: signerResponseToCovenantResponse_def)

text \<open>What the emulator gets for a signing function that returns, fails or panics.\<close>

definition remoteAnswers :: "ParsedSigningResponse result \<Rightarrow> SignaturesResponse result \<Rightarrow> bool" where
  "remoteAnswers r a =
     (case r of
        Ok resp \<Rightarrow> a = Ok (signerResponseToCovenantResponse resp)
      | Err e \<Rightarrow> a = Err (''signing request failed. status code: 500, message: ''
                           @ printValue newInternalServiceError)
      | Panic p \<Rightarrow> (\<exists>e. a = Err e))"

lemma show_int_500: "show_int 500 = ''500''"
proof -
  have "show_nat 500 = map digit_char [5, 0, 0]"
    by (subst show_nat.simps, subst show_nat.simps, subst show_nat.simps) simp
  also have "\<dots> = ''500''" unfolding digit_char_def by code_simp
  finally show ?thesis by (simp add: show_int_def)
qed

lemma newInternal_short: "length (printValue newInternalServiceError) \<le> maxResponseSize"
proof -
  have "length (printValue newInternalServiceError) \<le> 1000" by code_simp
  then show ?thesis by (simp add: maxResponseSize_def)
qed

text \<open>The call of the client against a service that holds a key.\<close>

lemma request_signature:
  assumes net: "delivers net url (serveHTTP mux scfg (keyringHandler kl kc blib sl))" "chi_law mux"
    and agree: "keysAgree hmacKey scfg"
    and msg: "ToSignTransactionRequest blib p = Ok msg" "ParseSigningRequest blib msg = Ok p"
    and fits: "int (length (printValue (jsonSignRequest msg))) \<le> uint (PSC_MaxContentLength scfg)"
    and key: "krCurrent (signerState s) = Some key"
    and resp: "\<And>resp. signAll blib sl key p = Ok resp \<Longrightarrow>
      ToParsedSigningResponse blib (ToResponse blib resp) = Ok resp \<and>
      length (printValue (jsonPublic (jsonSignResponse (ToResponse blib resp)))) \<le> maxResponseSize"
  shows "\<exists>r s'. RequestCovenantSignaure net blib url timeout p hmacKey s = (r, s')
    \<and> signerState s' = signerState s \<and> ReceivedSigningRequests s' = ReceivedSigningRequests s + 1
    \<and> (case signAll blib sl key p of
         Ok resp \<Rightarrow> r = Ok resp
       | Err e \<Rightarrow> r = Err (''signing request failed. status code: 500, message: ''
                           @ printValue newInternalServiceError)
       | Panic q \<Rightarrow> \<exists>e. r = Err e)"
proof -
  let ?c = "\<lparr>CR_Method = ''POST'', CR_URL = url @ ''/v1/sign-transactions'', CR_ContentType = ''application/json'',
      CR_HMAC = [], CR_Body = printValue (jsonSignRequest msg)\<rparr>"
  let ?h = "keyringHandler kl kc blib sl"
  obtain hdr where hdr: "addHMACHeader hmacKey (CR_Body ?c) = Ok hdr" using addHMACHeader_Ok by blast
  let ?r = "receive url (?c\<lparr>CR_HMAC := hdr\<rparr>)"
  have pre: "has_prefix (CR_URL ?c) url" by (simp add: has_prefix_append)
  have fits': "int (length (CR_Body ?c)) \<le> uint (PSC_MaxContentLength scfg)" using fits by simp
  have dec: "decodeRequestBody decSignRequest ?r = Some msg"
    using decode_sign_request [OF asciiRequest_To [OF msg(1)]] by simp
  have route: "routeRequest mux (SetupRoutes ?h) ?r s = registerHandler (HandleSignTransactions ?h) ?r s"
    using routeRequest_sign [OF net(2), of ?r ?h] by (simp add: receive_def)
  note run = register_sign [OF dec msg(2) key, of kl kc sl]
  note call = callSigner_route [OF net(1) pre agree fits' hdr, where s = s and timeout = timeout and what = "''signing''"]
  have c: "RequestCovenantSignaure net blib url timeout p hmacKey =
      bindS (callSigner net timeout hmacKey ''signing'' ?c) (\<lambda>resBody.
      bindS (liftR (decodeResponse net setSignResponse zeroSignResponse resBody)) (\<lambda>response.
      liftR (ToParsedSigningResponse blib response)))"
    using msg(1) by (simp add: RequestCovenantSignaure_def fun_eq_iff)
  show ?thesis
  proof (cases "signAll blib sl key p")
    case (Ok x)
    with run route resp [OF Ok] call show ?thesis
      by (simp add: c writeResponse_def decode_sign_response)
  next
    case (Err e)
    with run route call newInternal_short show ?thesis
      by (simp add: c writeResponse_def show_int_500)
  next
    case (Panic q)
    with run route callSigner_panic [OF net(1) pre agree fits' hdr, where s = s and timeout = timeout and what = "''signing''"] show ?thesis
      by (fastforce simp: c)
  qed
qed

section \<open>Properties\<close>

text \<open>
  C9. Signing remotely is signing locally. Over a network that delivers, with the same HMAC key on both
  sides and a service that holds a key, a request with at least one finality provider key, scripts that
  are not empty and contents that survive serialisation and fit the limits gets exactly the answer of
  signing it with the service's key; an error of the signer comes back as the constant internal error
  and a panic as an error. The signer's state does not change and one more request is counted.
\<close>

theorem remote_is_local:
  assumes "delivers net (RS_URL cfg) (serveHTTP mux scfg (keyringHandler kl kc blib sl))" and "chi_law mux"
    and "keysAgree (RS_HMACKey cfg) scfg" and "krCurrent (signerState s) = Some key"
    and "request_codec_ok blib (covenantRequestToSignerRequest req)"
    and "scripts_nonempty (covenantRequestToSignerRequest req)" and "Req_FpEncKeys req \<noteq> []"
    and "\<forall>msg. ToSignTransactionRequest blib (covenantRequestToSignerRequest req) = Ok msg \<longrightarrow>
      int (length (printValue (jsonSignRequest msg))) \<le> uint (PSC_MaxContentLength scfg)"
    and "\<forall>resp. signAll blib sl key (covenantRequestToSignerRequest req) = Ok resp \<longrightarrow>
      response_codec_ok blib resp \<and>
      length (printValue (jsonPublic (jsonSignResponse (ToResponse blib resp)))) \<le> maxResponseSize"
  shows "\<exists>a s'. Signer_SignTransactions (NewRemoteSigner net blib cfg) req s = (a, s')
    \<and> remoteAnswers (signAll blib sl key (covenantRequestToSignerRequest req)) a
    \<and> signerState s' = signerState s \<and> ReceivedSigningRequests s' = ReceivedSigningRequests s + 1"
proof -
  let ?p = "covenantRequestToSignerRequest req"
  obtain msg where msg: "ToSignTransactionRequest blib ?p = Ok msg" "ParseSigningRequest blib msg = Ok ?p"
    using assms(5,6) by (rule request_roundtrip)
  have resp: "ToParsedSigningResponse blib (ToResponse blib resp) = Ok resp \<and>
      length (printValue (jsonPublic (jsonSignResponse (ToResponse blib resp)))) \<le> maxResponseSize"
    if Ok: "signAll blib sl key ?p = Ok resp" for resp
  proof -
    from signAll_Ok(1,2) [OF Ok] assms(7)
    have "SlashAdaptorSigs resp \<noteq> []" "SlashUnbondingAdaptorSigs resp \<noteq> []"
      by (auto simp: covenantRequestToSignerRequest_def)
    with assms(9) Ok show ?thesis by (simp add: response_roundtrip)
  qed
  have fits: "int (length (printValue (jsonSignRequest msg))) \<le> uint (PSC_MaxContentLength scfg)"
    using assms(8) msg(1) by blast
  from request_signature [OF assms(1-3) msg fits assms(4) resp, of "RS_Timeout cfg"] show ?thesis
    by (cases "signAll blib sl key ?p")
       (auto simp: NewRemoteSigner_def RemoteSignTransactions_def remoteAnswers_def)
qed

definition sample_sl64 :: signlib where
  "sample_sl64 = sample_sl\<lparr>SignTxWithOneScriptSpendInputStrict := (\<lambda>tx f i sc k. Ok sample_sig)\<rparr>"

lemma sample_req_translated: "covenantRequestToSignerRequest sample_req = sample_preq"
  by (simp add: covenantRequestToSignerRequest_def sample_req_def sample_preq_def)

lemma signAll_sample64:
  "signAll sample_blib sample_sl64 (PrivateKey [42]) sample_preq
     = Ok (sample_presp\<lparr>PSP_UnbondingSig := sample_sig\<rparr>)"
  by (simp add: signAll_def signForKey_def slashUnbondSig_def unbondSig_def sample_preq_def sample_sl64_def
      sample_sl_def sample_presp_def)

definition sample_net :: "unit krstate server network" where
  "sample_net = \<lparr>httpDo = (\<lambda>timeout creq s.
       case serveHTTP sample_chi sample_server_cfg (keyringHandler sample_kl sample_kc sample_blib sample_sl64)
              (receive ''http://signer'' creq) s of
         (Ok resp, s') \<Rightarrow> (Ok resp, s')
       | (_, s') \<Rightarrow> (Err ''EOF'', s')),
     jsonErrorText = (\<lambda>_. ''unexpected end of JSON input'')\<rparr>"

definition sample_rscfg :: RemoteSignerCfg where
  "sample_rscfg = \<lparr>RS_URL = ''http://signer'', RS_Timeout = 2000000000, RS_HMACKey = ''secret''\<rparr>"

lemma sample_net_delivers:
  "delivers sample_net (RS_URL sample_rscfg)
     (serveHTTP sample_chi sample_server_cfg (keyringHandler sample_kl sample_kc sample_blib sample_sl64))"
  by (auto simp: delivers_def sample_net_def sample_rscfg_def split: prod.splits result.splits)

lemma sample_unlocked_key: "krCurrent (signerState (sample_server sample_unlocked)) = Some (PrivateKey [42])"
  by (simp add: sample_server_def NewCovenantSignerMetrics_def sample_unlocked_def krCurrent_def)

lemma sample_fits:
  assumes "ToSignTransactionRequest sample_blib sample_preq = Ok msg"
  shows "int (length (printValue (jsonSignRequest msg))) \<le> 100000"
proof -
  have "(case ToSignTransactionRequest sample_blib sample_preq of
      Ok msg \<Rightarrow> length (printValue (jsonSignRequest msg)) \<le> 1000 | _ \<Rightarrow> False)" by code_simp
  with assms show ?thesis by simp
qed

lemma sample_response_fits:
  "length (printValue (jsonPublic (jsonSignResponse (ToResponse sample_blib
     (sample_presp\<lparr>PSP_UnbondingSig := sample_sig\<rparr>))))) \<le> maxResponseSize"
proof -
  have "length (printValue (jsonPublic (jsonSignResponse (ToResponse sample_blib
     (sample_presp\<lparr>PSP_UnbondingSig := sample_sig\<rparr>))))) \<le> 1000" by code_simp
  then show ?thesis by (simp add: maxResponseSize_def)
qed

theorem remote_is_local_witness:
  "\<exists>s'. Signer_SignTransactions (NewRemoteSigner sample_net sample_blib sample_rscfg) sample_req
       (sample_server sample_unlocked)
     = (Ok \<lparr>SlashSigs = [[42]], UnbondingSig = sample_sig, SlashUnbondingSigs = [[42]], StkExtSig = None\<rparr>, s')"
proof -
  have "\<exists>a s'. Signer_SignTransactions (NewRemoteSigner sample_net sample_blib sample_rscfg) sample_req
      (sample_server sample_unlocked) = (a, s')
    \<and> remoteAnswers (signAll sample_blib sample_sl64 (PrivateKey [42]) (covenantRequestToSignerRequest sample_req)) a
    \<and> signerState s' = signerState (sample_server sample_unlocked)
    \<and> ReceivedSigningRequests s' = ReceivedSigningRequests (sample_server sample_unlocked) + 1"
  proof (rule remote_is_local [OF sample_net_delivers sample_chi_law _ sample_unlocked_key])
    show "keysAgree (RS_HMACKey sample_rscfg) sample_server_cfg"
      by (simp add: keysAgree_def sample_rscfg_def sample_server_cfg_def)
    show "request_codec_ok sample_blib (covenantRequestToSignerRequest sample_req)"
      by (simp add: sample_req_translated request_codec_ok_def sample_preq_def sample_codecs)
    show "scripts_nonempty (covenantRequestToSignerRequest sample_req)"
      by (simp add: sample_req_translated scripts_nonempty_def sample_preq_def)
    show "Req_FpEncKeys sample_req \<noteq> []" by (simp add: sample_req_def)
    show "\<forall>msg. ToSignTransactionRequest sample_blib (covenantRequestToSignerRequest sample_req) = Ok msg \<longrightarrow>
        int (length (printValue (jsonSignRequest msg))) \<le> uint (PSC_MaxContentLength sample_server_cfg)"
      using sample_fits by (simp add: sample_req_translated sample_server_cfg_def)
    show "\<forall>resp. signAll sample_blib sample_sl64 (PrivateKey [42]) (covenantRequestToSignerRequest sample_req)
        = Ok resp \<longrightarrow> response_codec_ok sample_blib resp \<and>
        length (printValue (jsonPublic (jsonSignResponse (ToResponse sample_blib resp)))) \<le> maxResponseSize"
      using sample_response_fits
      by (simp add: sample_req_translated signAll_sample64)
         (simp add: response_codec_ok_def sig_codec_ok_def sample_sig_def sample_blib_def sample_presp_def)
  qed
  then show ?thesis
    by (auto simp: sample_req_translated signAll_sample64 remoteAnswers_def signerResponseToCovenantResponse_def
        sample_presp_def)
qed

end
