(* ===== verification/System.thy ===== *)
theory System
  imports Composition SignerMain RemoteSigner
begin

text \<open>
  The two programs together. The world outside the daemon is the log of what was sent to the chain, the
  running signing service, and everything else. The daemon's signer is the remote one, and between it
  and the service is a network that may lose, delay or repeat requests but does not make up answers;
  others may talk to the service at the same time.

  The lemmas go backwards from a signature the daemon got to the state of the service in which it was
  made, and from there to the key in the keyring that the service was started with.
\<close>

section \<open>The network and the other parties\<close>

definition signerOf :: "'l \<times> 's server \<times> 'v \<Rightarrow> 's server" where
  "signerOf w = fst (snd w)"

text \<open>An action that changes the service by requests only.\<close>

definition byRequests :: "'s SigningServer \<Rightarrow> ('l \<times> 's server \<times> 'v, 'a) act \<Rightarrow> bool" where
  "byRequests srv m \<longleftrightarrow> (\<forall>w r w'. m w = (r, w') \<longrightarrow> (requestStep srv)\<^sup>*\<^sup>* (signerOf w) (signerOf w'))"

text \<open>
  A call over the network: it may fail, and the service may get requests meanwhile, also this one more
  than once. An answer that arrives was given by the service to this request.
\<close>

definition faithful :: "'s SigningServer \<Rightarrow> string \<Rightarrow> ('l \<times> 's server \<times> 'v) network \<Rightarrow> bool" where
  "faithful srv url net \<longleftrightarrow>
     (\<forall>timeout creq. byRequests srv (httpDo net timeout creq))
     \<and> (\<forall>timeout creq w resp w'. httpDo net timeout creq w = (Ok resp, w') \<longrightarrow> has_prefix (CR_URL creq) url \<longrightarrow>
          (\<exists>s s'. (requestStep srv)\<^sup>*\<^sup>* (signerOf w) s \<and> SS_Handler srv (receive url creq) s = (Ok resp, s')))"

definition others_request ::
  "'s SigningServer \<Rightarrow> ('m list list \<times> 's server \<times> 'v) Emulator \<Rightarrow> ('m list list \<times> 's server \<times> 'v) bbnclient
    \<Rightarrow> (string \<Rightarrow> ('m list list \<times> 's server \<times> 'v, KeyRecord) act) \<Rightarrow> ('s server \<times> 'v, 'm) sender \<Rightarrow> bool" where
  "others_request srv ce bbn getKey sendMsgs \<longleftrightarrow>
     byRequests srv (Client_BTCCheckpointParams bbn)
     \<and> (\<forall>v. byRequests srv (Client_BTCStakingParamsByVersion bbn v))
     \<and> (\<forall>h. byRequests srv (Client_BTCDelegation bbn h))
     \<and> (\<forall>st pr. byRequests srv (Client_BTCDelegations bbn st pr))
     \<and> (\<forall>k. byRequests srv (getKey k))
     \<and> (\<forall>ms ex un. byRequests srv (logged sendMsgs ms ex un))
     \<and> (\<forall>w. (requestStep srv)\<^sup>*\<^sup>* (signerOf w) (signerOf (snd (em_clock ce w))))
     \<and> (\<forall>I n m. keeps I m \<longrightarrow> keeps I (em_retryDo ce n m))"

section \<open>Where a signature comes from\<close>

text \<open>
  The response is what the signing function makes with the key of the request as the service reads it;
  it has come back through the wire format.
\<close>

definition signedByKey ::
  "btclib \<Rightarrow> signlib \<Rightarrow> PrivateKey \<Rightarrow> ParsedSigningRequest \<Rightarrow> ParsedSigningResponse \<Rightarrow> bool" where
  "signedByKey blib sl key p resp \<longleftrightarrow>
     (\<exists>msg p' resp'. ToSignTransactionRequest blib p = Ok msg \<and> ParseSigningRequest blib msg = Ok p'
        \<and> signAll blib sl key p' = Ok resp' \<and> ToParsedSigningResponse blib (ToResponse blib resp') = Ok resp)"

text \<open>Contents that survive serialisation are signed as they are.\<close>

lemma signedByKey_exact:
  assumes "signedByKey blib sl key p resp" and "request_codec_ok blib p" and "scripts_nonempty p"
    and "\<And>r. signAll blib sl key p = Ok r \<Longrightarrow> response_codec_ok blib r"
    and "PSR_FpEncKeys p \<noteq> []"
  shows "signAll blib sl key p = Ok resp"
proof -
  from assms(1) obtain msg p' resp' where m: "ToSignTransactionRequest blib p = Ok msg"
    "ParseSigningRequest blib msg = Ok p'" "signAll blib sl key p' = Ok resp'"
    "ToParsedSigningResponse blib (ToResponse blib resp') = Ok resp" by (auto simp: signedByKey_def)
  from assms(2,3) obtain msg' where "ToSignTransactionRequest blib p = Ok msg'" "ParseSigningRequest blib msg' = Ok p"
    by (rule request_roundtrip)
  with m(1,2) have p: "p' = p" by simp
  with m(3) signAll_Ok(1,2) [of blib sl key p resp'] assms(5)
  have "SlashAdaptorSigs resp' \<noteq> []" "SlashUnbondingAdaptorSigs resp' \<noteq> []" by auto
  with m(3,4) p assms(4) show ?thesis by (simp add: response_roundtrip)
qed

text \<open>A status of 200 comes from the handler, and from the signing handler only with signatures.\<close>

lemma serve_200:
  assumes "serveHTTP mux cfg h r s = (Ok resp, s')" "StatusCode resp = 200"
    and "ContentLength r = int (length (BodyData r))"
  shows "routeRequest mux (SetupRoutes h) r s = (Ok resp, s')"
proof (cases "PSC_HMACKey cfg = []")
  case True
  with assms show ?thesis
    by (auto simp: serveHTTP_def ContentLengthMiddleware_def MaxBytesReader_def http_Error_def status_defs
        split: if_splits)
next
  case False
  have "authentic cfg r"
    using serveHTTP_not_authentic [OF False, of r mux h s] assms(1,2) by auto
  with serveHTTP_authentic [OF False, where mux = mux and h = h] assms(1) show ?thesis by simp
qed

lemma onSigner_keyring:
  "onSigner (SignTransactionsApp loadKey (KeyringRetriever kl kc) blib sl p) t =
     (case krCurrent (signerState t) of
        None \<Rightarrow> Err ''private key is not unlocked. Please call Unlock() first''
      | Some k \<Rightarrow> signAll blib sl k p, t)"
  by (rule onSigner_same) (simp add: SignTransactionsApp_keyring)

lemma sign_200:
  assumes "registerHandler (HandleSignTransactions (keyringHandler kl kc blib sl)) r s = (Ok resp, s')"
    and "StatusCode resp = 200" and "decodeRequestBody decSignRequest r = Some msg"
  shows "\<exists>p key resp'. ParseSigningRequest blib msg = Ok p \<and> krCurrent (signerState s) = Some key
    \<and> signAll blib sl key p = Ok resp'
    \<and> RespBody resp = printValue (jsonPublic (jsonSignResponse (ToResponse blib resp')))"
proof -
  note d = registerHandler_def HandleSignTransactions_def keyringHandler_def NewErrorWithMsg_def NewError_def
    UninitializedStatusCode_def status_defs statusKnown_def writeResponse_def metric_defs
  show ?thesis
  proof (cases "ParseSigningRequest blib msg")
    case (Ok p)
    show ?thesis
    proof (cases "krCurrent (signerState s)")
      case None
      with assms Ok show ?thesis by (auto simp: d onSigner_keyring)
    next
      case (Some key)
      with register_sign [OF assms(3) Ok Some, of kl kc sl] assms(1,2) Ok show ?thesis
        by (cases "signAll blib sl key p") (auto simp: writeResponse_def)
    qed
  qed (use assms in \<open>auto simp: d\<close>)
qed

text \<open>A signature that the client got was made by the service in a state that requests lead to.\<close>

lemma remote_signature_source:
  assumes mux: "chi_law mux" and srv: "SS_Handler srv = serveHTTP mux scfg (keyringHandler kl kc blib sl)"
    and net: "faithful srv url net"
    and run: "RequestCovenantSignaure net blib url timeout p hmacKey w = (Ok resp, w')"
  shows "\<exists>s key. (requestStep srv)\<^sup>*\<^sup>* (signerOf w) s \<and> krCurrent (signerState s) = Some key
    \<and> signedByKey blib sl key p resp"
proof -
  from run obtain msg where msg: "ToSignTransactionRequest blib p = Ok msg"
    by (auto simp: RequestCovenantSignaure_def act_simps)
  let ?c = "\<lambda>hdr. \<lparr>CR_Method = ''POST'', CR_URL = url @ ''/v1/sign-transactions'', CR_ContentType = ''application/json'',
      CR_HMAC = hdr, CR_Body = printValue (jsonSignRequest msg)\<rparr>"
  from run msg obtain hdr res w1 where h: "httpDo net timeout (?c hdr) w = (Ok res, w1)" "StatusCode res = 200"
    and dec: "\<exists>m. decodeResponse net setSignResponse zeroSignResponse (RespBody res) = Ok m
      \<and> ToParsedSigningResponse blib m = Ok resp"
    by (auto simp: RequestCovenantSignaure_def callSigner_def readResponse_def act_simps status_defs split: if_splits)
  let ?r = "receive url (?c hdr)" and ?h = "keyringHandler kl kc blib sl"
  from net h(1) obtain s s' where s: "(requestStep srv)\<^sup>*\<^sup>* (signerOf w) s"
    "serveHTTP mux scfg ?h ?r s = (Ok res, s')"
    unfolding faithful_def srv by (metis ClientRequest.select_convs(2) has_prefix_append)
  have "routeRequest mux (SetupRoutes ?h) ?r s = (Ok res, s')"
    using s(2) h(2) by (rule serve_200) (simp add: receive_def)
  moreover have "routeRequest mux (SetupRoutes ?h) ?r = registerHandler (HandleSignTransactions ?h) ?r"
    using mux by (rule routeRequest_sign) (simp_all add: receive_def)
  moreover have "decodeRequestBody decSignRequest ?r = Some msg"
    by (rule decode_sign_request [OF asciiRequest_To [OF msg]])
  ultimately obtain p' key resp' where "ParseSigningRequest blib msg = Ok p'" "krCurrent (signerState s) = Some key"
    "signAll blib sl key p' = Ok resp'"
    "RespBody res = printValue (jsonPublic (jsonSignResponse (ToResponse blib resp')))"
    using sign_200 [of kl kc blib sl ?r s res s' msg] h(2) by auto
  with dec msg s(1) show ?thesis
    by (auto simp: signedByKey_def decode_sign_response)
qed

section \<open>Runs of both programs\<close>

definition reached :: "'s SigningServer \<Rightarrow> 's server \<Rightarrow> 'l \<times> 's server \<times> 'v \<Rightarrow> bool" where
  "reached srv s0 w \<longleftrightarrow> (requestStep srv)\<^sup>*\<^sup>* s0 (signerOf w)"

lemma keeps_reached: "byRequests srv m \<Longrightarrow> keeps (reached srv s0) m"
  unfolding byRequests_def reached_def by (rule keepsI) (meson rtranclp_trans)

lemma keeps_remote:
  assumes "faithful srv url net"
  shows "keeps (reached srv s0) (Signer_SignTransactions (NewRemoteSigner net blib rs) req)"
    and "keeps (reached srv s0) (Signer_PubKey (NewRemoteSigner net blib rs))"
proof -
  have http: "keeps (reached srv s0) (httpDo net timeout creq)" for timeout creq
    using assms by (simp add: faithful_def keeps_reached)
  show "keeps (reached srv s0) (Signer_SignTransactions (NewRemoteSigner net blib rs) req)"
    unfolding NewRemoteSigner_def RemoteSignTransactions_def RequestCovenantSignaure_def callSigner_def Signer.simps
    by (intro keeps_intros http)
  show "keeps (reached srv s0) (Signer_PubKey (NewRemoteSigner net blib rs))"
    unfolding NewRemoteSigner_def RemotePubKey_def GetPublicKey_def callSigner_def Signer.simps
    by (intro keeps_intros http)
qed

lemma system_closed:
  assumes "em_signer ce = NewRemoteSigner net blib rs" and "faithful srv url net"
    and "em_cc ce = babylonClient bbn qlib (logged sendMsgs) getKey blib lib bc"
    and "outside_silent ce bbn getKey" and "others_request srv ce bbn getKey sendMsgs"
  shows "closed_system (reached srv s0) ce bbn qlib sendMsgs getKey blib lib bc"
proof -
  have "reached srv s0 w \<Longrightarrow> reached srv s0 (snd (em_clock ce w))" for w
    using assms(5) unfolding others_request_def reached_def by (meson rtranclp_trans)
  then show ?thesis
    using assms keeps_remote [OF assms(2)]
    by (simp add: closed_system_def parties_keep_def others_request_def keeps_reached)
qed

text \<open>The request the daemon builds from a delegation that passed all checks under its parameters.\<close>

definition checkedRequest ::
  "'w Emulator \<Rightarrow> btclib \<Rightarrow> stakinglib \<Rightarrow> Delegation \<Rightarrow> SigningRequest \<Rightarrow> bool" where
  "checkedRequest ce blib slib del req \<longleftrightarrow>
     (\<exists>undel params req0 stkExp. BtcUndelegation del = Some undel
        \<and> (\<exists>t t'. emGet ce (ParamsVersion del) t = (Ok params, t'))
        \<and> meetsParams params del undel
        \<and> requestFor slib (BTCNetParams (em_config ce)) params del undel req0
        \<and> (\<exists>t t'. stakeExpRequest ce blib slib del t = (Ok stkExp, t'))
        \<and> req = req0\<lparr>Req_StakeExp := stkExp\<rparr>)"

definition sigsOf :: "'w Emulator \<Rightarrow> btclib \<Rightarrow> SigningRequest \<Rightarrow> ParsedSigningResponse \<Rightarrow> CovenantSigs" where
  "sigsOf ce blib req resp =
     \<lparr>CS_PublicKey = em_pk ce, CS_StakingTxHash = TxHash blib (Req_StakingTx req),
      CS_SlashingSigs = SlashAdaptorSigs resp, CS_UnbondingSig = PSP_UnbondingSig resp,
      CS_SlashingUnbondingSigs = SlashUnbondingAdaptorSigs resp, CS_StkExpSig = StakeExpSig resp\<rparr>"

text \<open>What the daemon holds for a delegation was signed with the key of the service.\<close>

lemma signedIn_source:
  assumes mux: "chi_law (se_chi env)" and st: "runSignerCmd env path w0 = (Ok st, w1)"
    and signer: "em_signer ce = NewRemoteSigner net (se_blib env) rs"
    and net: "faithful (st_server st) (RS_URL rs) net"
    and signed: "signedIn (reached (st_server st) (st_state st)) ce (se_blib env) slib (Some del) sigs"
  shows "\<exists>req resp key. keyFromKeyring (se_kl env) (retrieverController (st_controller st)) key
    \<and> checkedRequest ce (se_blib env) slib del req
    \<and> signedByKey (se_blib env) (se_sl env) key (covenantRequestToSignerRequest req) resp
    \<and> sigs = sigsOf ce (se_blib env) req resp"
proof -
  from signed obtain req0 stkExp resp w w' where req: "checkedRequest ce (se_blib env) slib del (req0\<lparr>Req_StakeExp := stkExp\<rparr>)"
    and w: "reached (st_server st) (st_state st) w"
    and ask: "Signer_SignTransactions (em_signer ce) (req0\<lparr>Req_StakeExp := stkExp\<rparr>) w = (Ok resp, w')"
    and sigs: "sigs = \<lparr>CS_PublicKey = em_pk ce, CS_StakingTxHash = TxHash (se_blib env) (Req_StakingTx req0),
            CS_SlashingSigs = SlashSigs resp, CS_UnbondingSig = UnbondingSig resp,
            CS_SlashingUnbondingSigs = SlashUnbondingSigs resp, CS_StkExpSig = StkExtSig resp\<rparr>"
    unfolding signedIn_def checkedRequest_def option.inject by blast
  let ?req = "req0\<lparr>Req_StakeExp := stkExp\<rparr>"
  from ask obtain presp where run: "RequestCovenantSignaure net (se_blib env) (RS_URL rs) (RS_Timeout rs)
      (covenantRequestToSignerRequest ?req) (RS_HMACKey rs) w = (Ok presp, w')"
    and resp: "resp = signerResponseToCovenantResponse presp"
    by (auto simp: signer NewRemoteSigner_def RemoteSignTransactions_def act_simps)
  from remote_signature_source [OF mux runSignerCmd_Ok(1) [OF st] net run] obtain s key
    where s: "(requestStep (st_server st))\<^sup>*\<^sup>* (signerOf w) s" "krCurrent (signerState s) = Some key"
    and by_key: "signedByKey (se_blib env) (se_sl env) key (covenantRequestToSignerRequest ?req) presp" by blast
  have "krInv (se_kl env) (retrieverController (st_controller st)) (signerState s)"
    using w s(1) unfolding reached_def by (intro started_krInv [OF mux st]) (rule rtranclp_trans)
  with s(2) have "keyFromKeyring (se_kl env) (retrieverController (st_controller st)) key"
    by (auto simp: krInv_def krCurrent_def)
  with req by_key sigs resp show ?thesis
    by (intro exI [of _ ?req] exI [of _ presp] exI [of _ key])
       (simp add: sigsOf_def signerResponseToCovenantResponse_def)
qed

section \<open>A sample system\<close>

text \<open>A network on the service alone, beside a log and anything else.\<close>

definition liftAct :: "('s, 'a) act \<Rightarrow> ('l \<times> 's \<times> 'v, 'a) act" where
  "liftAct m = (\<lambda>(l, s, v). case m s of (r, s') \<Rightarrow> (r, (l, s', v)))"

definition liftNet :: "'s network \<Rightarrow> ('l \<times> 's \<times> 'v) network" where
  "liftNet net = \<lparr>httpDo = (\<lambda>timeout creq. liftAct (httpDo net timeout creq)), jsonErrorText = jsonErrorText net\<rparr>"

lemma liftAct_simps:
  "liftAct (bindS m f) = bindS (liftAct m) (\<lambda>x. liftAct (f x))"
  "liftAct (liftR r) = liftR r" "liftAct (failS e) = failS e" "liftAct (returnS a) = returnS a"
  "liftAct (if b then m else n) = (if b then liftAct m else liftAct n)"
  by (auto simp: liftAct_def bindS_def catchS_def liftR_def failS_def returnS_def fun_eq_iff split: prod.splits result.splits)

lemma liftNet_simps:
  "decodeResponse (liftNet net) st zero body = decodeResponse net st zero body"
  "httpDo (liftNet net) timeout creq = liftAct (httpDo net timeout creq)"
  by (simp_all add: decodeResponse_def liftNet_def cong: option.case_cong)

lemma lift_request:
  "RequestCovenantSignaure (liftNet net) blib url timeout p hmacKey
     = liftAct (RequestCovenantSignaure net blib url timeout p hmacKey)"
  by (simp add: RequestCovenantSignaure_def callSigner_def liftAct_simps liftNet_simps cong: if_cong)

definition sample_net_to :: "'s SigningServer \<Rightarrow> 's server network" where
  "sample_net_to srv = \<lparr>httpDo = (\<lambda>timeout creq s.
       case SS_Handler srv (receive ''http://signer'' creq) s of
         (Ok resp, s') \<Rightarrow> (Ok resp, s')
       | (_, s') \<Rightarrow> (Err ''EOF'', s')),
     jsonErrorText = (\<lambda>_. ''unexpected end of JSON input'')\<rparr>"

lemma sample_net_call:
  assumes "httpDo (liftNet (sample_net_to srv)) timeout creq w = (r, w')"
  shows "\<exists>q. SS_Handler srv (receive ''http://signer'' creq) (signerOf w) = (q, signerOf w') \<and> (\<forall>resp. r = Ok resp \<longrightarrow> q = r)"
  using assms
  by (cases w) (auto simp: liftNet_def liftAct_def sample_net_to_def signerOf_def split: prod.splits result.splits)

lemma sample_net_faithful: "faithful srv ''http://signer'' (liftNet (sample_net_to srv))"
  unfolding faithful_def byRequests_def
  by (metis sample_net_call requestStep.handle r_into_rtranclp rtranclp.rtrancl_refl)

definition sample_system_env :: "(string \<Rightarrow> sdkRecord option, unit) signerEnv" where
  "sample_system_env = sample_signer_env\<lparr>se_sl := sample_sl64\<rparr>"

definition sample_remote :: RemoteSignerCfg where
  "sample_remote = \<lparr>RS_URL = ''http://signer'', RS_Timeout = 2000000000, RS_HMACKey = []\<rparr>"

lemma sample_system_starts:
  "\<exists>st w'. runSignerCmd sample_system_env path \<lparr>kr_input = [], kr_ext = [''key'' \<mapsto> sample_record]\<rparr> = (Ok st, w')
     \<and> st_controller st = \<lparr>kc_kr = sample_keyring, kc_name = ''key''\<rparr> \<and> kr_ext w' = [''key'' \<mapsto> sample_record]
     \<and> PSC_HMACKey (PC_ServerConfig (st_config st)) = []
     \<and> uint (PSC_MaxContentLength (PC_ServerConfig (st_config st))) = 10485760"
proof -
  have "ParseIP ''127.0.0.1''" by code_simp
  moreover have "keyring_New (se_sdk sample_system_env) c b d = returnS sample_keyring"
    "se_viper sample_system_env = se_viper sample_signer_env" for c b d
    by (simp_all add: sample_system_env_def sample_signer_env_def sample_sdk_def)
  ultimately show ?thesis
    by (simp add: runSignerCmd_def sample_signer_config ParseSignerConfig_def ParseKeyStore_def KeyStoreFromString_def
        ParseServer_def ParseMetrics_def DefaultSignerMetricsConfig_def NewCosmosKeyringRetriever_def CreateKeyring_def
        signer_CreateClientCtx_def CreateClientCtx_def ResetInput_def NewChainKeyringControllerWithKeyring_def
        DefaultServerConfig_def)
qed

text \<open>The operator unlocks the service.\<close>

lemma sample_system_unlocks:
  assumes st: "runSignerCmd sample_system_env path w = (Ok st, w')"
    and kc: "st_controller st = \<lparr>kc_kr = sample_keyring, kc_name = ''key''\<rparr>" "kr_ext w' = [''key'' \<mapsto> sample_record]"
    and cfg: "PSC_HMACKey (PC_ServerConfig (st_config st)) = []"
      "uint (PSC_MaxContentLength (PC_ServerConfig (st_config st))) = 10485760"
  shows "\<exists>s. requestStep (st_server st) (st_state st) s \<and> krCurrent (signerState s) = Some (PrivateKey [42])"
proof -
  let ?r = "sample_unlock ''secret''" and ?kc = "retrieverController (st_controller st)"
  let ?h = "keyringHandler sample_kl ?kc sample_blib sample_sl64"
  note run = runSignerCmd_Ok [OF st]
  have env: "se_chi sample_system_env = sample_chi" "se_kl sample_system_env = sample_kl"
    "se_blib sample_system_env = sample_blib" "se_sl sample_system_env = sample_sl64"
    by (simp_all add: sample_system_env_def sample_signer_env_def)
  have "ContentLength ?r \<le> 10485760" "int (length (BodyData ?r)) \<le> 10485760"
    using sample_unlock_authentic(1) by (auto simp: authentic_def sample_server_cfg_def)
  then have "SS_Handler (st_server st) ?r = routeRequest sample_chi (SetupRoutes ?h) ?r"
    unfolding run(1) env by (simp add: serveHTTP_def ContentLengthMiddleware_def MaxBytesReader_def cfg)
  moreover have "routeRequest sample_chi (SetupRoutes ?h) ?r = registerHandler (HandleUnlock ?h) ?r"
    using sample_chi_law by (rule routeRequest_unlock) (simp_all add: sample_unlock_def Let_def)
  moreover obtain k where k: "UnlockKr sample_kl ?kc ''secret'' (krNew w') = (Ok (), k)"
    "krCurrent k = Some (PrivateKey [42])"
    by (simp add: UnlockKr_def GetChainPrivKey_def onKeyring_def krNew_def retrieverController_def kc ResetInput_def
        sample_keyring_def sample_record_def sample_kl_def krCurrent_def)
  have "\<exists>q. HandleUnlock ?h ?r (st_state st) = (Ok q, (st_state st)\<lparr>signerState := k, SignerUnlockStatus := 1\<rparr>)"
    by (simp add: HandleUnlock_def sample_unlock_decodes keyringHandler_def onSigner_def UnlockApp_def KeyringRetriever_def
        run(2) NewCovenantSignerMetrics_def k(1) metric_defs)
  then obtain q where "HandleUnlock ?h ?r (st_state st) = (Ok q, (st_state st)\<lparr>signerState := k, SignerUnlockStatus := 1\<rparr>)" ..
  then have "\<exists>res. registerHandler (HandleUnlock ?h) ?r (st_state st) = (res, (st_state st)\<lparr>signerState := k, SignerUnlockStatus := 1\<rparr>)"
    by (auto simp: registerHandler_def Let_def split: sum.splits option.splits)
  ultimately have "\<exists>res. SS_Handler (st_server st) ?r (st_state st) = (res, (st_state st)\<lparr>signerState := k, SignerUnlockStatus := 1\<rparr>)"
    by simp
  then have "requestStep (st_server st) (st_state st) ((st_state st)\<lparr>signerState := k, SignerUnlockStatus := 1\<rparr>)"
    by (auto intro: requestStep.handle)
  with k(2) show ?thesis by fastforce
qed

definition sample_made :: ParsedSigningResponse where
  "sample_made = sample_presp\<lparr>PSP_UnbondingSig := sample_sig\<rparr>"

definition sample_link :: "'s SigningServer \<Rightarrow> (MsgAddCovenantSigs list list \<times> 's server \<times> unit) Signer" where
  "sample_link srv = NewRemoteSigner (liftNet (sample_net_to srv)) sample_blib sample_remote"

text \<open>The unlocked service answers the daemon's request over the network.\<close>

lemma sample_link_signs:
  assumes srv: "SS_Handler srv = serveHTTP sample_chi scfg (keyringHandler kl kc sample_blib sample_sl64)"
    and cfg: "PSC_HMACKey scfg = []" "uint (PSC_MaxContentLength scfg) = 10485760"
    and key: "krCurrent (signerState u) = Some (PrivateKey [42])"
  shows "\<exists>u'. Signer_SignTransactions (sample_link srv) sample_req (l, u, v)
    = (Ok (signerResponseToCovenantResponse sample_made), (l, u', v))"
proof -
  obtain msg where msg: "ToSignTransactionRequest sample_blib sample_preq = Ok msg"
    "ParseSigningRequest sample_blib msg = Ok sample_preq"
    by (rule request_roundtrip [of sample_blib sample_preq])
       (simp_all add: request_codec_ok_def scripts_nonempty_def sample_preq_def sample_codecs)
  have net: "delivers (sample_net_to srv) ''http://signer'' (serveHTTP sample_chi scfg (keyringHandler kl kc sample_blib sample_sl64))"
    by (auto simp: delivers_def sample_net_to_def srv split: prod.splits result.splits)
  have fits: "int (length (printValue (jsonSignRequest msg))) \<le> uint (PSC_MaxContentLength scfg)"
    using sample_fits [OF msg(1)] by (simp add: cfg)
  have resp: "ToParsedSigningResponse sample_blib (ToResponse sample_blib resp) = Ok resp \<and>
      length (printValue (jsonPublic (jsonSignResponse (ToResponse sample_blib resp)))) \<le> maxResponseSize"
    if "signAll sample_blib sample_sl64 (PrivateKey [42]) sample_preq = Ok resp" for resp
    using that sample_response_fits
    by (simp add: signAll_sample64, intro response_roundtrip)
       (auto simp: response_codec_ok_def sig_codec_ok_def sample_sig_def sample_blib_def sample_presp_def)
  have "keysAgree [] scfg" by (simp add: keysAgree_def cfg)
  from request_signature [OF net sample_chi_law this msg fits key resp, of 2000000000]
  obtain u' where "RequestCovenantSignaure (sample_net_to srv) sample_blib ''http://signer'' 2000000000 sample_preq [] u
      = (Ok sample_made, u')" by (auto simp: signAll_sample64 sample_made_def)
  then show ?thesis
    by (simp add: sample_link_def NewRemoteSigner_def RemoteSignTransactions_def sample_remote_def sample_req_translated
        lift_request) (simp add: liftAct_def)
qed

lemma keeps_liftAct: "keeps (\<lambda>w. fst w = l) (liftAct m)"
  by (rule keepsI) (auto simp: liftAct_def split: prod.splits)

lemma sample_link_silent:
  "\<forall>req. silent (Signer_SignTransactions (sample_link srv) req)" "silent (Signer_PubKey (sample_link srv))"
proof -
  show "\<forall>req. silent (Signer_SignTransactions (sample_link srv) req)"
    unfolding sample_link_def NewRemoteSigner_def RemoteSignTransactions_def RequestCovenantSignaure_def callSigner_def
      Signer.simps silent_iff_keeps liftNet_simps by (intro allI keeps_intros keeps_liftAct)
  show "silent (Signer_PubKey (sample_link srv))"
    unfolding sample_link_def NewRemoteSigner_def RemotePubKey_def GetPublicKey_def callSigner_def
      Signer.simps silent_iff_keeps liftNet_simps by (intro allI keeps_intros keeps_liftAct)
qed

lemma sample_others: "others_request srv (sample_covd sg) sample_node sample_getKey sample_sender"
  by (auto simp: others_request_def byRequests_def sample_covd_def sample_node_def sample_getKey_def sample_sender_def
      logged_def signerOf_def)

end
