(* ===== verification/Logger.thy ===== *)
theory Logger
  imports Paths
begin

text \<open>
  The construction of the daemon's logger (\<^verbatim>\<open>log/log.go\<close>): which formats and levels it accepts,
  and the file it appends to. What is written to the log is not part of the model; a logger is the
  encoder and the level it was made with.

  The lemmas describe the accepted levels. One level that the configuration offers is not among them.
\<close>

datatype encoder = JSONEncoder | ConsoleEncoder | LogfmtEncoder

datatype zapLevel = PanicLevel | FatalLevel | ErrorLevel | WarnLevel | InfoLevel | DebugLevel

record logger =
  log_enc :: encoder
  log_lvl :: zapLevel

text \<open>
  \<^verbatim>\<open>strings.ToLower\<close> on UTF-8, as far as a comparison with an ASCII text can tell: two characters
  beyond ASCII have an ASCII lower case, the dotted capital I (U+0130) and the Kelvin sign (U+212A);
  every other character beyond ASCII keeps one and is left as it is.
\<close>

fun ToLower :: "string \<Rightarrow> string" where
  "ToLower [] = []"
| "ToLower (c # s) =
     (if c = CHR 0xC4 \<and> take 1 s = [CHR 0xB0] then CHR ''i'' # ToLower (drop 1 s)
      else if c = CHR 0xE2 \<and> take 2 s = [CHR 0x84, CHR 0xAA] then CHR ''k'' # ToLower (drop 2 s)
      else to_lower_char c # ToLower s)"

definition logEncoder :: "string \<Rightarrow> encoder result" where
  "logEncoder format =
     (if format = ''json'' then Ok JSONEncoder
      else if format \<in> {''auto'', ''console''} then Ok ConsoleEncoder
      else if format = ''logfmt'' then Ok LogfmtEncoder
      else Err (''unrecognized log format '' @ [CHR 0x22] @ format @ [CHR 0x22]))"

definition logLevel :: "string \<Rightarrow> zapLevel result" where
  "logLevel level =
     (let l = ToLower level in
      if l = ''panic'' then Ok PanicLevel
      else if l = ''fatal'' then Ok FatalLevel
      else if l = ''error'' then Ok ErrorLevel
      else if l \<in> {''warn'', ''warning''} then Ok WarnLevel
      else if l = ''info'' then Ok InfoLevel
      else if l = ''debug'' then Ok DebugLevel
      else Err (''unsupported log level: '' @ level))"

text \<open>
  The quotes around the format stand for \<^verbatim>\<open>%q\<close>, which would also escape special characters in it;
  the program calls this function with a constant.
\<close>

definition NewRootLogger :: "string \<Rightarrow> string \<Rightarrow> logger result" where
  "NewRootLogger format level =
     bindR (logEncoder format) (\<lambda>enc.
     bindR (logLevel level) (\<lambda>lvl.
     Ok \<lparr>log_enc = enc, log_lvl = lvl\<rparr>))"

definition NewRootLoggerWithFile :: "'w host \<Rightarrow> string \<Rightarrow> string \<Rightarrow> ('w, logger) act" where
  "NewRootLoggerWithFile hst logFile level =
     bindS (MakeDirectory hst (Dir logFile)) (\<lambda>_.
     bindS (os_OpenAppend hst logFile) (\<lambda>_.
     liftR (NewRootLogger ''console'' level)))"

section \<open>Lemmas\<close>

lemma NewRootLogger_console [act_simps]:
  "NewRootLogger ''console'' level = Ok l \<longleftrightarrow> (\<exists>lvl. logLevel level = Ok lvl \<and> l = \<lparr>log_enc = ConsoleEncoder, log_lvl = lvl\<rparr>)"
  by (auto simp: NewRootLogger_def logEncoder_def act_simps)

lemma logLevel_Ok_iff:
  "(\<exists>l. logLevel level = Ok l) \<longleftrightarrow>
     ToLower level \<in> {''panic'', ''fatal'', ''error'', ''warn'', ''warning'', ''info'', ''debug''}"
  by (auto simp: logLevel_def Let_def)

lemma ToLower_idem_ascii: "list_all (\<lambda>c. (of_char c :: nat) < 128) s \<Longrightarrow> ToLower s = map to_lower_char s"
proof (induction s)
  case (Cons c s)
  then have "c \<noteq> CHR 0xC4" "c \<noteq> CHR 0xE2" by auto
  with Cons show ?case by simp
qed simp

text \<open>The levels the configuration offers; the first of them is no level of the logger.\<close>

lemma trace_unsupported: "logLevel ''trace'' = Err ''unsupported log level: trace''"
proof -
  have "ToLower ''trace'' = ''trace''" by (simp add: to_lower_char_def)
  then show ?thesis by (simp add: logLevel_def)
qed

end
