(* ===== verification/CovdCmd.thy ===== *)
theory CovdCmd
  imports Lifecycle Controller RemoteSigner Keyring Logger
begin

text \<open>
  The commands of the daemon \<^verbatim>\<open>covd\<close> (\<^verbatim>\<open>cmd/covd/\<close>): \<^verbatim>\<open>start\<close>, which loads the configuration
  and puts the components together, \<^verbatim>\<open>init\<close>, \<^verbatim>\<open>create-key\<close> and \<^verbatim>\<open>show-key\<close>. A command
  is given the values of its flags; their declarations and the command line are in \<open>CovdMain\<close>.

  The lemmas are about the composition: what is known when \<^verbatim>\<open>start\<close> serves, that the file
  \<^verbatim>\<open>init\<close> or \<^verbatim>\<open>create-key\<close> writes is the configuration a later command loads, and that
  \<^verbatim>\<open>show-key\<close> prints what \<^verbatim>\<open>create-key\<close> printed.
\<close>

section \<open>The start command\<close>

text \<open>A connection of the Babylon client: its queries, its sender and its keyring.\<close>

record 'w bbnConn =
  conn_client :: "'w bbnclient"
  conn_send :: "('w, MsgAddCovenantSigs) sender"
  conn_key :: "string \<Rightarrow> ('w, KeyRecord) act"

text \<open>The packages and the host that the command uses.\<close>

record 'w covdEnv =
  env_host :: "'w host"
  env_ini :: "'w iniParser"
  env_nets :: chaincfg
  env_clib :: "('w, 'w bbnConn) bbnclientlib"
  env_qlib :: querylib
  env_net :: "'w network"
  env_blib :: btclib
  env_lib :: bbnlib
  env_retryDo :: "nat \<Rightarrow> ('w, StakingParams) act \<Rightarrow> ('w, StakingParams) act"
  env_clock :: "'w \<Rightarrow> int \<times> 'w"
  env_intercept :: "('w, unit) act"

text \<open>The state of a process before anything was cached, counted or logged.\<close>

definition emuInit :: "'w \<Rightarrow> 'w emu" where
  "emuInit w = \<lparr>paramsByVersion = Map.empty, world = w, totalSignDelegationsSubmitted = 0,
     failedSignDelegations = 0, currentPendingDelegations = 0, previousSubmission = None,
     previousLocalSignStart = None, previousLocalSignFinish = None, timedSignDelegationLag = [],
     secondsSinceLastSubmission = 0, secondsSinceLastSignStart = 0, secondsSinceLastSignFinish = 0,
     errorLog = []\<rparr>"

definition homeOf :: "'w host \<Rightarrow> string \<Rightarrow> string result" where
  "homeOf hst flag = bindR (AbsPath hst flag) (\<lambda>p. Ok (CleanAndExpandPath hst p))"

definition BackendTest :: string where
  "BackendTest = ''test''"

definition checkBackend :: "BBNConfig \<Rightarrow> unit result" where
  "checkBackend bbn =
     (if BBN_KeyringBackend bbn \<noteq> BackendTest
      then Err (''the keyring backend in config must be `test` for automatic signing, got ''
                  @ BBN_KeyringBackend bbn
                  @ ''. Other keyring backends are not supported as they require manual passphrase entry'')
      else Ok ())"

text \<open>The nil pointer of a configuration without a signer is read by the health check.\<close>

definition newRemoteSignerFromConfig :: "'w covdEnv \<Rightarrow> Config \<Rightarrow> 'w Signer result" where
  "newRemoteSignerFromConfig env cfg =
     bindR (derefR (Cfg_RemoteSigner cfg)) (\<lambda>rs. Ok (NewRemoteSigner (env_net env) (env_blib env) rs))"

text \<open>
  Up to and including the start of the server: the emulator and the daemon that
  \<^verbatim>\<open>RunUntilShutdown\<close> runs.
\<close>

definition start :: "'w covdEnv \<Rightarrow> string \<Rightarrow> ('w, 'w Emulator \<times> 'w daemon) act" where
  "start env home =
     bindS (liftR (homeOf (env_host env) home)) (\<lambda>homePath.
     bindS (mapErrS (\<lambda>e. ''failed to load config at '' @ homePath @ '': '' @ e)
              (LoadConfig (env_host env) (env_ini env) (env_nets env) homePath)) (\<lambda>cfg.
     bindS (liftR (derefR (Cfg_BabylonConfig cfg))) (\<lambda>bbn.
     bindS (liftR (checkBackend bbn)) (\<lambda>_.
     bindS (mapErrS (\<lambda>e. ''failed to load the logger: '' @ e)
              (NewRootLoggerWithFile (env_host env) (LogFile homePath) (LogLevel cfg))) (\<lambda>_.
     bindS (mapErrS (\<lambda>e. ''failed to create rpc client for the consumer chain: '' @ e)
              (NewBabylonController (env_clib env) bbn (Cfg_MaxRetiresBatchRemovingMsgs cfg))) (\<lambda>(conn, bc).
     bindS (liftR (newRemoteSignerFromConfig env cfg)) (\<lambda>signer.
     bindS (mapErrS (\<lambda>e. ''remote signer health check failed - ensure the signer is running and unlocked: '' @ e)
              (Signer_PubKey signer)) (\<lambda>_.
     bindS (mapErrS (\<lambda>e. ''failed to start the covenant emulator: '' @ e)
              (NewEmulator (env_retryDo env) (env_clock env) cfg
                 (babylonClient (conn_client conn) (env_qlib env) (conn_send conn) (conn_key conn)
                    (env_blib env) (env_lib env) bc) signer)) (\<lambda>ce.
     bindS (env_intercept env) (\<lambda>_ w.
       (Ok (ce, RunUntilShutdown ce (daemonInit (emuInit w))), w)))))))))))"

section \<open>The init command\<close>

definition initHome ::
  "'w host \<Rightarrow> 'w iniParser \<Rightarrow> chaincfg \<Rightarrow> BabylonConfig \<Rightarrow> string \<Rightarrow> bool \<Rightarrow> ('w, unit) act" where
  "initHome hst ini nets dc home force =
     bindS (liftR (homeOf hst home)) (\<lambda>homePath w.
       if FileExists hst homePath w \<and> \<not> force
       then (Err (''home path '' @ homePath @ '' already exists''), w)
       else
         bindS (MakeDirectory hst homePath) (\<lambda>_.
         bindS (MakeDirectory hst (LogDir homePath)) (\<lambda>_.
         bindS (liftR (DefaultConfigWithHomePath dc nets homePath)) (\<lambda>defaultConfig.
         ini_WriteFile ini defaultConfig (File homePath)))) w)"

section \<open>The key commands\<close>

record covenantKey =
  CK_Name :: string
  CK_PublicKey :: string
  CK_BabylonAddr :: string

text \<open>\<^verbatim>\<open>json.MarshalIndent\<close> of the struct, which cannot fail, and a newline\<close>

definition keyJSON :: "covenantKey \<Rightarrow> string" where
  "keyJSON k =
     (let nl = [CHR 0x0A]; field = (\<lambda>name v. ''    '' @ printString name @ '': '' @ printString v)
      in ''{'' @ nl @ field ''name'' (CK_Name k) @ '','' @ nl
         @ field ''public-key-hex'' (CK_PublicKey k) @ '','' @ nl
         @ field ''babylon-address'' (CK_BabylonAddr k) @ nl @ ''}'' @ nl)"

text \<open>What the commands use, on the world of the keyring; the last field is the standard output.\<close>

record 'w keyEnv =
  ke_host :: "'w krworld host"
  ke_ini :: "'w krworld iniParser"
  ke_nets :: chaincfg
  ke_sdk :: "'w sdklib"
  ke_kl :: keylib
  ke_MarshalHex :: "PublicKey \<Rightarrow> string"
  ke_print :: "string \<Rightarrow> 'w krworld \<Rightarrow> 'w krworld"

definition printRespJSON :: "'w keyEnv \<Rightarrow> covenantKey \<Rightarrow> ('w krworld, unit) act" where
  "printRespJSON env resp = modifyS (ke_print env (keyJSON resp))"

text \<open>The home directory is used as it was given: only the other two commands expand it.\<close>

definition createKey ::
  "'w keyEnv \<Rightarrow> string \<Rightarrow> string \<Rightarrow> string \<Rightarrow> string \<Rightarrow> string \<Rightarrow> string \<Rightarrow> ('w krworld, unit) act" where
  "createKey env homePath chainID keyName backend passphrase hdPath =
     bindS (mapErrS (\<lambda>e. ''failed to load the config from '' @ File homePath @ '': '' @ e)
              (LoadConfig (ke_host env) (ke_ini env) (ke_nets env) homePath)) (\<lambda>cfg.
     bindS (mapErrS (\<lambda>e. ''failed to create covenant key: '' @ e)
              (CreateCovenantKey (ke_host env) (ke_sdk env) (ke_kl env) homePath chainID keyName backend
                 passphrase hdPath)) (\<lambda>keyPair.
     bindS (printRespJSON env \<lparr>CK_Name = keyName, CK_PublicKey = ke_MarshalHex env (CKI_PublicKey keyPair),
              CK_BabylonAddr = KO_Address (CKI_KeyOutput keyPair)\<rparr>) (\<lambda>_.
     bindS (liftR (derefR (Cfg_BabylonConfig cfg))) (\<lambda>bbn.
     ini_WriteFile (ke_ini env)
       (cfg\<lparr>Cfg_BabylonConfig := Some (bbn\<lparr>BBN_Key := keyName, BBN_KeyringBackend := backend\<rparr>)\<rparr>)
       (File homePath)))))"

definition showKey ::
  "'w keyEnv \<Rightarrow> string \<Rightarrow> string \<Rightarrow> string \<Rightarrow> string \<Rightarrow> string \<Rightarrow> ('w krworld, unit) act" where
  "showKey env homePath chainID keyName backend passphrase =
     bindS (liftR (CreateClientCtx (ke_host env) homePath chainID)) (\<lambda>sdkCtx.
     bindS (NewChainKeyringController (ke_sdk env) sdkCtx keyName backend) (\<lambda>krController.
     bindS (GetPrivKey krController passphrase) (\<lambda>privKey.
     bindS (KeyRecordOf krController) (\<lambda>r.
     bindS (liftR (SR_Address r)) (\<lambda>babylonAddr.
     printRespJSON env \<lparr>CK_Name = keyName,
       CK_PublicKey = ke_MarshalHex env (btcecPubKey (ke_sdk env) (PrivKeyFromBytes (ke_kl env) privKey)),
       CK_BabylonAddr = babylonAddr\<rparr>)))))"

section \<open>Lemmas\<close>

lemma LoadConfig_Ok:
  assumes "LoadConfig hst ini nets homePath w = (Ok cfg, w')"
  shows "(\<exists>metrics. Cfg_Metrics cfg = Some metrics \<and> ValidateMetrics metrics = Ok ())
    \<and> networkParams nets (BitcoinNetwork cfg) = Some (BTCNetParams cfg)"
  using assms by (auto simp: LoadConfig_def act_simps Validate_Ok_iff split: if_splits)

text \<open>A valid metrics configuration is all that the server needs to get to its loops.\<close>

lemma run_serves:
  assumes "Cfg_Metrics (em_config ce) = Some metrics" "ValidateMetrics metrics = Ok ()"
  shows "d_main (RunUntilShutdown ce (daemonInit e)) = MainServing"
    and "d_proc (RunUntilShutdown ce (daemonInit e)) = Start (procInit e)"
  using assms
  by (simp_all add: RunUntilShutdown_def daemonInit_def Address_def SetReadinessChecker_def
      NewPrometheusServer_def)

lemma NewEmulator_Ok:
  assumes "NewEmulator rd clock cfg cc signr w = (Ok ce, w')"
  shows "em_config ce = cfg" "em_signer ce = signr" "em_cc ce = cc" "em_retryDo ce = rd" "em_clock ce = clock"
    and "Signer_PubKey signr w = (Ok (em_pk ce), w')"
  using assms by (auto simp: NewEmulator_def act_simps)

lemma checkBackend_Ok_iff [act_simps]: "checkBackend bbn = Ok u \<longleftrightarrow> BBN_KeyringBackend bbn = ''test''"
  by (simp add: checkBackend_def BackendTest_def)

text \<open>
  What the INI parser can write and read back: the choices of the tags, and all groups present. The
  parameters of the network are not in the file.
\<close>

definition iniWritable :: "Config \<Rightarrow> bool" where
  "iniWritable cfg \<longleftrightarrow>
     LogLevel cfg \<in> {''trace'', ''debug'', ''info'', ''warn'', ''error'', ''fatal''}
     \<and> BitcoinNetwork cfg \<in> {''mainnet'', ''regtest'', ''testnet'', ''simnet'', ''signet''}
     \<and> Cfg_Metrics cfg \<noteq> None \<and> Cfg_BabylonConfig cfg \<noteq> None \<and> Cfg_RemoteSigner cfg \<noteq> None"

definition ini_law :: "'w host \<Rightarrow> 'w iniParser \<Rightarrow> chaincfg \<Rightarrow> bool" where
  "ini_law hst ini nets \<longleftrightarrow>
     (\<forall>cfg f w w'. iniWritable cfg \<longrightarrow> ini_WriteFile ini cfg f w = (Ok (), w') \<longrightarrow>
        FileExists hst f w'
        \<and> ini_ParseFile ini (zeroConfig nets) f w' = (Ok (cfg\<lparr>BTCNetParams := zeroNetParams nets\<rparr>), w'))"

lemma written_loads:
  assumes law: "ini_law hst ini nets" and "iniWritable cfg"
    and "ini_WriteFile ini cfg (File home) w = (Ok (), w')"
    and "Cfg_Metrics cfg = Some metrics" "ValidateMetrics metrics = Ok ()"
    and "networkParams nets (BitcoinNetwork cfg) = Some (BTCNetParams cfg)"
  shows "LoadConfig hst ini nets home w' = (Ok cfg, w')"
proof -
  have "Validate nets (cfg\<lparr>BTCNetParams := zeroNetParams nets\<rparr>) = Ok cfg"
    using assms(4-6) by (simp add: Validate_Ok_iff)
  moreover have "FileExists hst (File home) w'"
    "ini_ParseFile ini (zeroConfig nets) (File home) w' = (Ok (cfg\<lparr>BTCNetParams := zeroNetParams nets\<rparr>), w')"
    using law assms(2,3) unfolding ini_law_def by blast+
  ultimately show ?thesis by (simp add: LoadConfig_def)
qed

text \<open>
  What the key commands rely on: opening the keyring twice gives the same keyring, a key that was
  read can be read again, and neither printing nor writing the configuration changes a key.
\<close>

definition keyring_reopens :: "'w keyEnv \<Rightarrow> string \<Rightarrow> string \<Rightarrow> string \<Rightarrow> 'w sdkKeyring \<Rightarrow> bool" where
  "keyring_reopens env chainID backend dir kr \<longleftrightarrow>
     (\<forall>w. keyring_New (ke_sdk env) chainID backend dir w = (Ok kr, w))
     \<and> (\<forall>name w r w'. kr_Key kr name w = (Ok r, w') \<longrightarrow> (\<exists>w''. kr_Key kr name w' = (Ok r, w'')))"

definition keys_apart :: "'w keyEnv \<Rightarrow> 'w sdkKeyring \<Rightarrow> bool" where
  "keys_apart env kr \<longleftrightarrow>
     (\<forall>cfg f w w' name p. ini_WriteFile (ke_ini env) cfg f w = (Ok (), w') \<longrightarrow>
        fst (kr_Key kr name (w'\<lparr>kr_input := p\<rparr>)) = fst (kr_Key kr name (w\<lparr>kr_input := p\<rparr>)))
     \<and> (\<forall>out w name p. fst (kr_Key kr name ((ke_print env out w)\<lparr>kr_input := p\<rparr>))
          = fst (kr_Key kr name (w\<lparr>kr_input := p\<rparr>)))"

lemma keys_apartD:
  assumes "keys_apart env kr" "ini_WriteFile (ke_ini env) cfg f (ke_print env out t) = (Ok (), w')"
    and "kr_Key kr name (t\<lparr>kr_input := p\<rparr>) = (Ok r, u)"
  obtains u' where "kr_Key kr name (w'\<lparr>kr_input := p\<rparr>) = (Ok r, u')"
proof -
  have "fst (kr_Key kr name (w'\<lparr>kr_input := p\<rparr>)) = fst (kr_Key kr name ((ke_print env out t)\<lparr>kr_input := p\<rparr>))"
    using assms(1,2) unfolding keys_apart_def by blast
  also have "\<dots> = fst (kr_Key kr name (t\<lparr>kr_input := p\<rparr>))" using assms(1) unfolding keys_apart_def by blast
  finally have "fst (kr_Key kr name (w'\<lparr>kr_input := p\<rparr>)) = Ok r" using assms(3) by simp
  with that show thesis by (cases "kr_Key kr name (w'\<lparr>kr_input := p\<rparr>)") auto
qed

lemma CreateCovenantKey_Ok:
  assumes "keyring_reopens env chainID backend home kr" "home \<noteq> []"
    and "CreateCovenantKey hst (ke_sdk env) kl home chainID keyName backend passphrase hdPath w = (Ok info, t)"
  obtains m r v w0 where "newAccount (ke_sdk env) \<lparr>kc_kr = kr, kc_name = keyName\<rparr> passphrase hdPath w0 = (Ok (m, r), t)"
    "SR_Key r = LocalRecord (Secp256k1Key v)" "CKI_PublicKey info = btcecPubKey (ke_sdk env) (PrivKeyFromBytes kl v)"
    "MkAccKeyOutput (ke_sdk env) r = Ok (CKI_KeyOutput info)" "keyName \<noteq> []" "backend \<noteq> []"
  using assms
  by (auto simp: CreateCovenantKey_def CreateClientCtx_def NewChainKeyringController_def keyring_reopens_def
      CreateChainKey_def NewChainKeyInfo_def Let_def act_simps split: if_splits)

section \<open>A sample host\<close>

text \<open>The world is the content of the configuration file, and the signer answers one key.\<close>

definition sample_nets :: chaincfg where
  "sample_nets = \<lparr>MainNetParams = NetParams ''mainnet'', TestNet3Params = NetParams ''testnet3'',
     RegressionNetParams = NetParams ''regtest'', SimNetParams = NetParams ''simnet'',
     SigNetParams = NetParams ''signet'', zeroNetParams = NetParams []\<rparr>"

definition sample_dc :: BabylonConfig where
  "sample_dc = \<lparr>BC_Key = ''node0'', BC_ChainID = ''chain-test'', BC_RPCAddr = ''http://localhost:26657'',
     BC_GRPCAddr = [], BC_AccountPrefix = ''bbn'', BC_KeyringBackend = ''test'', BC_GasAdjustment = 1,
     BC_GasPrices = [], BC_KeyDirectory = [], BC_Debug = True, BC_Timeout = 20, BC_BlockTimeout = 60,
     BC_OutputFormat = ''json'', BC_SignModeStr = ''direct'', BC_SubmitterAddress = []\<rparr>"

definition sample_host :: "('w \<Rightarrow> bool) \<Rightarrow> 'w host" where
  "sample_host exists = \<lparr>userCurrent = Ok ''/root'', Getenv = (\<lambda>_. []), Getwd = Ok ''/root'',
     os_Stat = (\<lambda>p w. if exists w then StatOk else StatNotExist), os_MkdirAll = (\<lambda>p w. (None, w)),
     os_Readlink = (\<lambda>p w. Err ''not a link''), os_OpenAppend = (\<lambda>p. returnS ()),
     os_WriteFile = (\<lambda>p t. returnS ())\<rparr>"

definition sample_ini :: "('w \<Rightarrow> Config option) \<Rightarrow> (Config \<Rightarrow> 'w \<Rightarrow> 'w) \<Rightarrow> 'w iniParser" where
  "sample_ini rd wr = \<lparr>ini_ParseFile = (\<lambda>z f w. (case rd w of Some c \<Rightarrow> Ok c | None \<Rightarrow> Err ''no such file'', w)),
     ini_WriteFile = (\<lambda>cfg f w. (Ok (), wr (cfg\<lparr>BTCNetParams := NetParams []\<rparr>) w))\<rparr>"

lemma sample_ini_law:
  assumes "\<And>c w. rd (wr c w) = Some c"
  shows "ini_law (sample_host (\<lambda>w. rd w \<noteq> None)) (sample_ini rd wr) sample_nets"
  by (auto simp: ini_law_def sample_ini_def sample_host_def sample_nets_def FileExists_def assms)

definition sample_pknet :: "'w network" where
  "sample_pknet = \<lparr>httpDo = (\<lambda>timeout creq. returnS \<lparr>StatusCode = 200, ContentType = ''application/json'',
       RespBody = printValue (jsonPublic (jsonPublicKey \<lparr>GPK_PublicKey = ''01''\<rparr>))\<rparr>),
     jsonErrorText = (\<lambda>_. ''unexpected end of JSON input'')\<rparr>"

lemma sample_pk: "RemotePubKey sample_pknet sample_blib DefaultRemoteSignerConfig w = (Ok key_a, w)"
proof -
  let ?body = "printValue (jsonPublic (jsonPublicKey \<lparr>GPK_PublicKey = ''01''\<rparr>))"
  have "length ?body \<le> 1000" by code_simp
  then have "readResponse \<lparr>StatusCode = 200, ContentType = ct, RespBody = ?body\<rparr> = Ok ?body" for ct
    by (simp add: readResponse_short maxResponseSize_def)
  moreover have "Option.bind (json_Unmarshal ?body) (\<lambda>v. decPublic setPublicKey v \<lparr>GPK_PublicKey = []\<rparr>)
      = Some \<lparr>GPK_PublicKey = ''01''\<rparr>" by code_simp
  moreover have "DecodeString ''01'' = Ok [1]" by code_simp
  ultimately show ?thesis
    by (simp add: RemotePubKey_def GetPublicKey_def callSigner_def addHMACHeader_def sample_pknet_def StatusOK_def
        DefaultRemoteSignerConfig_def decodeResponse_def)
       (simp add: sample_blib_def key_a_def)
qed

definition sample_file :: Config where
  "sample_file = (case DefaultConfigWithHomePath sample_dc sample_nets ''/covd'' of
     Ok cfg \<Rightarrow> cfg\<lparr>BTCNetParams := NetParams []\<rparr> | _ \<Rightarrow> zeroConfig sample_nets)"

definition sample_conn :: "'w bbnConn" where
  "sample_conn = \<lparr>conn_client = \<lparr>Client_BTCCheckpointParams = failS ''offline'',
       Client_BTCStakingParamsByVersion = (\<lambda>_. failS ''offline''), Client_BTCDelegation = (\<lambda>_. failS ''offline''),
       Client_BTCDelegations = (\<lambda>_ _. failS ''offline'')\<rparr>,
     conn_send = (\<lambda>_ _ _. failS ''offline''), conn_key = (\<lambda>_. failS ''offline'')\<rparr>"

definition sample_env :: "Config option covdEnv" where
  "sample_env = \<lparr>env_host = sample_host (\<lambda>w. w \<noteq> None), env_ini = sample_ini id (\<lambda>c _. Some c), env_nets = sample_nets,
     env_clib = \<lparr>BabylonConfig_Validate = (\<lambda>_. Ok ()), bbnclient_New = (\<lambda>_. returnS sample_conn)\<rparr>,
     env_qlib = sample_qlib, env_net = sample_pknet, env_blib = sample_blib, env_lib = sample_lib,
     env_retryDo = (\<lambda>n f. f), env_clock = (\<lambda>w. (7, w)), env_intercept = returnS ()\<rparr>"

lemma sample_home: "homeOf (sample_host ex) ''/covd'' = Ok ''/covd''"
proof -
  have "Clean ''/covd'' = ''/covd''" "ExpandWith (\<lambda>_. []) ''/covd'' = ''/covd''" "isRooted ''/covd''"
    by code_simp+
  then show ?thesis by (simp add: homeOf_def AbsPath_def CleanAndExpandPath_def sample_host_def)
qed

lemma sample_file_fields:
  "DefaultConfigWithHomePath sample_dc sample_nets ''/covd'' = Ok (sample_file\<lparr>BTCNetParams := NetParams ''simnet''\<rparr>)"
  "Cfg_RemoteSigner sample_file = Some DefaultRemoteSignerConfig" "LogLevel sample_file = ''debug''"
  "\<exists>bbn. Cfg_BabylonConfig sample_file = Some bbn \<and> BBN_KeyringBackend bbn = ''test''"
  "Validate sample_nets sample_file = Ok (sample_file\<lparr>BTCNetParams := NetParams ''simnet''\<rparr>)"
  by (simp_all add: sample_file_def DefaultConfigWithHomePath_def Let_def Validate_def ValidateMetrics_def
      DefaultMetricsConfig_def networkParams_def sample_nets_def DefaultBBNConfig_def sample_dc_def)

lemma sample_debug: "logLevel ''debug'' = Ok DebugLevel"
proof -
  have "ToLower ''debug'' = ''debug''" by (simp add: to_lower_char_def)
  then show ?thesis by (simp add: logLevel_def)
qed

text \<open>A keyring, a file and a terminal.\<close>

type_synonym desk = "(string \<Rightarrow> sdkRecord option) \<times> Config option \<times> string"

definition sample_desk_keyring :: "desk sdkKeyring" where
  "sample_desk_keyring = \<lparr>kr_SupportedAlgorithms = [''secp256k1''],
     kr_NewAccount = (\<lambda>name mnemonic passphrase hdPath algo w.
       (Ok sample_record, w\<lparr>kr_ext := ((fst (kr_ext w))(name \<mapsto> sample_record), snd (kr_ext w))\<rparr>)),
     kr_Key = (\<lambda>name w. (case fst (kr_ext w) name of Some r \<Rightarrow> Ok r | None \<Rightarrow> Err ''key not found'', w))\<rparr>"

definition sample_desk :: "desk keyEnv" where
  "sample_desk = \<lparr>ke_host = sample_host (\<lambda>w. fst (snd (kr_ext w)) \<noteq> None),
     ke_ini = sample_ini (\<lambda>w. fst (snd (kr_ext w)))
       (\<lambda>c w. w\<lparr>kr_ext := (fst (kr_ext w), Some c, snd (snd (kr_ext w)))\<rparr>),
     ke_nets = sample_nets,
     ke_sdk = \<lparr>keyring_New = (\<lambda>chainID backend dir. returnS sample_desk_keyring),
       NewSigningAlgoFromString = (\<lambda>name algos. if name \<in> set algos then Ok name else Err ''unsupported''),
       bip39_NewEntropy = (\<lambda>n. returnS [1, 2]), bip39_NewMnemonic = (\<lambda>seed. Ok ''abandon''),
       MkAccKeyOutput = (\<lambda>r. case SR_Address r of Ok a \<Rightarrow> Ok \<lparr>KO_Name = ''key'', KO_Address = a\<rparr> | _ \<Rightarrow> Err ''no address''),
       btcecPubKey = PrivKey_PubKey sample_sl\<rparr>,
     ke_kl = sample_kl, ke_MarshalHex = (\<lambda>k. case k of PublicKey b \<Rightarrow> EncodeToString b),
     ke_print = (\<lambda>out w. w\<lparr>kr_ext := (fst (kr_ext w), fst (snd (kr_ext w)), snd (snd (kr_ext w)) @ out)\<rparr>)\<rparr>"

definition sample_desk_world :: "desk krworld" where
  "sample_desk_world = \<lparr>kr_input = [], kr_ext = (Map.empty, Some sample_file, [])\<rparr>"

lemma sample_desk_loads:
  "LoadConfig (ke_host sample_desk) (ke_ini sample_desk) (ke_nets sample_desk) home sample_desk_world
     = (Ok (sample_file\<lparr>BTCNetParams := NetParams ''simnet''\<rparr>), sample_desk_world)"
  by (simp add: LoadConfig_def sample_desk_def sample_ini_def sample_host_def FileExists_def sample_desk_world_def
      sample_file_fields(5))

lemma sample_desk_creates:
  "\<exists>w'. createKey sample_desk ''/covd'' ''chain-test'' ''key'' ''test'' pw [] sample_desk_world = (Ok (), w')"
proof -
  have kr: "keyring_New (ke_sdk sample_desk) c b dir = returnS sample_desk_keyring" for c b dir
    by (simp add: sample_desk_def)
  have acc: "\<exists>t. newAccount (ke_sdk sample_desk) \<lparr>kc_kr = sample_desk_keyring, kc_name = n\<rparr> pw hd w
      = (Ok (''abandon'', sample_record), t)" for n pw hd w
    by (simp add: newAccount_def sample_desk_def ResetInput_def secp256k1Type_def sample_desk_keyring_def)
  have "\<exists>info t. CreateChainKey (ke_sdk sample_desk) kl \<lparr>kc_kr = sample_desk_keyring, kc_name = n\<rparr> pw hd w = (Ok info, t)"
    for kl n pw hd w
    using acc [of n pw hd w]
    by (auto simp: CreateChainKey_def localKey_def sample_record_def NewChainKeyInfo_def sample_desk_def Let_def)
  then have "\<exists>info t. CreateCovenantKey (ke_host sample_desk) (ke_sdk sample_desk) (ke_kl sample_desk) ''/covd'' ''chain-test''
      ''key'' ''test'' pw [] sample_desk_world = (Ok info, t)"
    by (simp add: CreateCovenantKey_def CreateClientCtx_def NewChainKeyringController_def ResetInput_def kr)
  then obtain info t where "CreateCovenantKey (ke_host sample_desk) (ke_sdk sample_desk) (ke_kl sample_desk) ''/covd''
      ''chain-test'' ''key'' ''test'' pw [] sample_desk_world = (Ok info, t)" by blast
  moreover obtain bbn where "Cfg_BabylonConfig sample_file = Some bbn" using sample_file_fields(4) by blast
  moreover have "\<exists>w'. ini_WriteFile (ke_ini sample_desk) cfg f w = (Ok (), w')" for cfg f w
    by (simp add: sample_desk_def sample_ini_def)
  ultimately show ?thesis by (simp add: createKey_def sample_desk_loads printRespJSON_def)
qed

lemma sample_desk_laws:
  "ini_law (ke_host sample_desk) (ke_ini sample_desk) (ke_nets sample_desk)"
  "keyring_reopens sample_desk chainID backend dir sample_desk_keyring"
  "keyring_stores sample_desk_keyring" "keys_apart sample_desk sample_desk_keyring"
  "\<forall>r ko. MkAccKeyOutput (ke_sdk sample_desk) r = Ok ko \<longrightarrow> SR_Address r = Ok (KO_Address ko)"
proof -
  show "ini_law (ke_host sample_desk) (ke_ini sample_desk) (ke_nets sample_desk)"
    using sample_ini_law [of "\<lambda>w. fst (snd (kr_ext w))" "\<lambda>c w. w\<lparr>kr_ext := (fst (kr_ext w), Some c, snd (snd (kr_ext w)))\<rparr>"]
    by (simp add: sample_desk_def)
qed (auto simp: keyring_reopens_def keyring_stores_def keys_apart_def sample_desk_def sample_desk_keyring_def
    sample_ini_def split: result.splits option.splits)

section \<open>Properties\<close>

text \<open>
  C37. What a started daemon rests on. If the start command gets to serving, then the configuration
  was loaded and is valid, the keyring backend is the one that needs no passphrase, the log level is
  one the logger knows, and the remote signer has answered twice: the answer of the second call is
  the key of the emulator. The emulator has this configuration, the remote signer and the Babylon
  controller with the configured key, and the server has launched exactly the two loops.
\<close>

theorem start_serves:
  fixes env :: "'w covdEnv"
  assumes "start env home w = (Ok (ce, d), w')"
  shows "\<exists>homePath cfg bbn rs lvl (conn :: 'w bbnConn) pk t1 t2 t3 t4.
      homeOf (env_host env) home = Ok homePath
      \<and> LoadConfig (env_host env) (env_ini env) (env_nets env) homePath w = (Ok cfg, t1)
      \<and> networkParams (env_nets env) (BitcoinNetwork cfg) = Some (BTCNetParams cfg)
      \<and> Cfg_BabylonConfig cfg = Some bbn \<and> BBN_KeyringBackend bbn = ''test''
      \<and> logLevel (LogLevel cfg) = Ok lvl \<and> Cfg_RemoteSigner cfg = Some rs
      \<and> RemotePubKey (env_net env) (env_blib env) rs t2 = (Ok pk, t3)
      \<and> RemotePubKey (env_net env) (env_blib env) rs t3 = (Ok (em_pk ce), t4)
      \<and> em_config ce = cfg \<and> em_signer ce = NewRemoteSigner (env_net env) (env_blib env) rs
      \<and> em_cc ce = babylonClient (conn_client conn) (env_qlib env) (conn_send conn) (conn_key conn)
          (env_blib env) (env_lib env) \<lparr>Cfg_Key = BBN_Key bbn, Cfg_AccountPrefix = BBN_AccountPrefix bbn,
            MaxRetiresBatchRemovingMsgs = Cfg_MaxRetiresBatchRemovingMsgs cfg\<rparr>
      \<and> d_main d = MainServing
      \<and> p_loops (d_proc d) = [(SubmissionLoop, Launched), (MetricsLoop, Launched)]
      \<and> p_emu (d_proc d) = emuInit w'"
proof -
  from assms obtain homePath cfg bbn t1 ta tb conn bc rs lg pk t2 t3 t4 where
    home: "homeOf (env_host env) home = Ok homePath"
    and load: "LoadConfig (env_host env) (env_ini env) (env_nets env) homePath w = (Ok cfg, t1)"
    and bbn: "Cfg_BabylonConfig cfg = Some bbn" "BBN_KeyringBackend bbn = ''test''"
    and log1: "NewRootLoggerWithFile (env_host env) (LogFile homePath) (LogLevel cfg) t1 = (Ok lg, ta)"
    and ctl: "NewBabylonController (env_clib env) bbn (Cfg_MaxRetiresBatchRemovingMsgs cfg) ta = (Ok (conn, bc), t2)"
    and rs: "Cfg_RemoteSigner cfg = Some rs"
    and pk: "Signer_PubKey (NewRemoteSigner (env_net env) (env_blib env) rs) t2 = (Ok pk, t3)"
    and em: "NewEmulator (env_retryDo env) (env_clock env) cfg
                 (babylonClient (conn_client conn) (env_qlib env) (conn_send conn) (conn_key conn)
                    (env_blib env) (env_lib env) bc) (NewRemoteSigner (env_net env) (env_blib env) rs) t3 = (Ok ce, t4)"
    and d: "d = RunUntilShutdown ce (daemonInit (emuInit w'))"
    by (auto simp: start_def newRemoteSignerFromConfig_def act_simps split: prod.splits)
  from log1 obtain lvl where lvl: "logLevel (LogLevel cfg) = Ok lvl"
    by (auto simp: NewRootLoggerWithFile_def act_simps)
  have bc: "bc = \<lparr>Cfg_Key = BBN_Key bbn, Cfg_AccountPrefix = BBN_AccountPrefix bbn,
      MaxRetiresBatchRemovingMsgs = Cfg_MaxRetiresBatchRemovingMsgs cfg\<rparr>"
    using ctl by (auto simp: NewBabylonController_def Let_def act_simps)
  note em = NewEmulator_Ok [OF em [unfolded bc]]
  from LoadConfig_Ok [OF load] em(1) obtain metrics where
    "Cfg_Metrics (em_config ce) = Some metrics" "ValidateMetrics metrics = Ok ()" by auto
  from run_serves [OF this, of "emuInit w'"] d have "d_main d = MainServing" "d_proc d = Start (procInit (emuInit w'))"
    by simp_all
  then have "d_main d = MainServing" "p_loops (d_proc d) = [(SubmissionLoop, Launched), (MetricsLoop, Launched)]"
    "p_emu (d_proc d) = emuInit w'" by (simp_all add: Start_def procInit_def)
  moreover have "RemotePubKey (env_net env) (env_blib env) rs t2 = (Ok pk, t3)"
    "RemotePubKey (env_net env) (env_blib env) rs t3 = (Ok (em_pk ce), t4)"
    using pk em(6) by (simp_all add: NewRemoteSigner_def)
  ultimately show ?thesis
    using home load bbn lvl rs em(1-3) LoadConfig_Ok [OF load]
    by (intro exI [of _ homePath] exI [of _ cfg] exI [of _ bbn] exI [of _ rs] exI [of _ lvl] exI [of _ conn]
        exI [of _ pk] exI [of _ t1] exI [of _ t2] exI [of _ t3] exI [of _ t4]) simp
qed

text \<open>The default configuration can be written, and is what is loaded after the init command.\<close>

lemma initHome_loads:
  assumes "ini_law hst ini nets" and "initHome hst ini nets dc home force w = (Ok (), w')"
  obtains homePath cfg where "homeOf hst home = Ok homePath" "DefaultConfigWithHomePath dc nets homePath = Ok cfg"
    "LoadConfig hst ini nets homePath w' = (Ok cfg, w')" "iniWritable cfg"
proof -
  from assms(2) obtain homePath cfg t where home: "homeOf hst home = Ok homePath"
    and cfg: "DefaultConfigWithHomePath dc nets homePath = Ok cfg"
    and wr: "ini_WriteFile ini cfg (File homePath) t = (Ok (), w')"
    by (auto simp: initHome_def act_simps split: if_splits)
  have "iniWritable cfg" "Cfg_Metrics cfg = Some DefaultMetricsConfig"
    "networkParams nets (BitcoinNetwork cfg) = Some (BTCNetParams cfg)"
    using cfg by (auto simp: DefaultConfigWithHomePath_def Let_def iniWritable_def Validate_def ValidateMetrics_def
        DefaultMetricsConfig_def networkParams_def split: result.splits)
  with written_loads [OF assms(1) _ wr] home cfg that show thesis
    by (auto simp: ValidateMetrics_def DefaultMetricsConfig_def)
qed

text \<open>
  C39. Initialisation and loading agree. When the init command succeeds, loading the configuration of
  that home directory gives exactly the default configuration, with the parameters of its network,
  for an INI parser that reads back what it wrote.
\<close>

theorem init_then_load:
  assumes "ini_law hst ini nets" and "initHome hst ini nets dc home force w = (Ok (), w')"
  shows "\<exists>homePath cfg. homeOf hst home = Ok homePath
    \<and> DefaultConfigWithHomePath dc nets homePath = Ok cfg
    \<and> LoadConfig hst ini nets homePath w' = (Ok cfg, w')"
  using initHome_loads [OF assms] by blast

text \<open>
  A created key is the configured key. When create-key succeeds, the configuration that is loaded
  afterwards is the one from before with the name of the new key and its keyring backend, and nothing
  else changed.
\<close>

lemma created_key_configured:
  assumes "ini_law (ke_host env) (ke_ini env) (ke_nets env)"
    and "LoadConfig (ke_host env) (ke_ini env) (ke_nets env) home w = (Ok cfg, w1)" and "iniWritable cfg"
    and "createKey env home chainID keyName backend passphrase hdPath w = (Ok (), w')"
  shows "\<exists>bbn. Cfg_BabylonConfig cfg = Some bbn
    \<and> LoadConfig (ke_host env) (ke_ini env) (ke_nets env) home w'
      = (Ok (cfg\<lparr>Cfg_BabylonConfig := Some (bbn\<lparr>BBN_Key := keyName, BBN_KeyringBackend := backend\<rparr>)\<rparr>), w')"
proof -
  from assms(2,4) obtain bbn t where bbn: "Cfg_BabylonConfig cfg = Some bbn"
    and wr: "ini_WriteFile (ke_ini env)
       (cfg\<lparr>Cfg_BabylonConfig := Some (bbn\<lparr>BBN_Key := keyName, BBN_KeyringBackend := backend\<rparr>)\<rparr>) (File home) t = (Ok (), w')"
    by (auto simp: createKey_def act_simps)
  from LoadConfig_Ok [OF assms(2)] obtain metrics where "Cfg_Metrics cfg = Some metrics" "ValidateMetrics metrics = Ok ()"
    "networkParams (ke_nets env) (BitcoinNetwork cfg) = Some (BTCNetParams cfg)" by blast
  with written_loads [OF assms(1) _ wr] assms(3) bbn show ?thesis by (auto simp: iniWritable_def)
qed

theorem start_serves_witness:
  "\<exists>ce d. start sample_env ''/covd'' (Some sample_file) = (Ok (ce, d), Some sample_file)
     \<and> d_main d = MainServing \<and> em_pk ce = key_a"
proof -
  obtain bbn where bbn: "Cfg_BabylonConfig sample_file = Some bbn" "BBN_KeyringBackend bbn = ''test''"
    using sample_file_fields(4) by blast
  have load: "LoadConfig (env_host sample_env) (env_ini sample_env) (env_nets sample_env) ''/covd'' (Some sample_file)
      = (Ok (sample_file\<lparr>BTCNetParams := NetParams ''simnet''\<rparr>), Some sample_file)"
    by (simp add: LoadConfig_def sample_env_def sample_ini_def sample_host_def FileExists_def sample_file_fields(5))
  have home: "homeOf (env_host sample_env) ''/covd'' = Ok ''/covd''" by (simp add: sample_env_def sample_home)
  have logger: "NewRootLoggerWithFile (env_host sample_env) f ''debug'' w
      = (Ok \<lparr>log_enc = ConsoleEncoder, log_lvl = DebugLevel\<rparr>, w)" for f w
    by (simp add: NewRootLoggerWithFile_def MakeDirectory_def sample_env_def sample_host_def NewRootLogger_def
        logEncoder_def sample_debug)
  have pk: "Signer_PubKey (NewRemoteSigner (env_net sample_env) (env_blib sample_env) DefaultRemoteSignerConfig) w
      = (Ok key_a, w)" for w by (simp add: NewRemoteSigner_def sample_env_def sample_pk)
  have ctl: "NewBabylonController (env_clib sample_env) b n w = (Ok (sample_conn, \<lparr>Cfg_Key = BBN_Key b,
      Cfg_AccountPrefix = BBN_AccountPrefix b, MaxRetiresBatchRemovingMsgs = n\<rparr>), w)" for b n w
    by (simp add: NewBabylonController_def sample_env_def)
  have "env_intercept sample_env = returnS ()" by (simp add: sample_env_def)
  then have run: "\<exists>ce d. start sample_env ''/covd'' (Some sample_file) = (Ok (ce, d), Some sample_file) \<and> em_pk ce = key_a"
    by (simp add: start_def home load bbn checkBackend_def BackendTest_def sample_file_fields(2,3) logger
        newRemoteSignerFromConfig_def NewEmulator_def pk ctl)
  then obtain ce d where "start sample_env ''/covd'' (Some sample_file) = (Ok (ce, d), Some sample_file)" "em_pk ce = key_a"
    by blast
  with start_serves [OF this(1)] show ?thesis by blast
qed

theorem init_then_load_witness:
  "\<exists>w'. initHome (sample_host (\<lambda>w. w \<noteq> None)) (sample_ini id (\<lambda>c _. Some c)) sample_nets sample_dc ''/covd'' False None
       = (Ok (), w')
     \<and> LoadConfig (sample_host (\<lambda>w. w \<noteq> None)) (sample_ini id (\<lambda>c _. Some c)) sample_nets ''/covd'' w'
       = (Ok (sample_file\<lparr>BTCNetParams := NetParams ''simnet''\<rparr>), w')"
proof -
  have law: "ini_law (sample_host (\<lambda>w. w \<noteq> None)) (sample_ini id (\<lambda>c _. Some c)) sample_nets"
    using sample_ini_law [of id "\<lambda>c _. Some c"] by simp
  have "\<exists>w'. initHome (sample_host (\<lambda>w. w \<noteq> None)) (sample_ini id (\<lambda>c _. Some c)) sample_nets sample_dc ''/covd'' False None
      = (Ok (), w')"
    by (simp add: initHome_def sample_home sample_file_fields(1))
       (simp add: sample_host_def sample_ini_def MakeDirectory_def FileExists_def)
  then obtain w' where w': "initHome (sample_host (\<lambda>w. w \<noteq> None)) (sample_ini id (\<lambda>c _. Some c)) sample_nets sample_dc
      ''/covd'' False None = (Ok (), w')" by blast
  from init_then_load [OF law w'] w' show ?thesis by (auto simp: sample_home sample_file_fields(1))
qed



lemma created_key_configured_example:
  "\<exists>w' cfg bbn. createKey sample_desk ''/covd'' ''chain-test'' ''key'' ''test'' ''pw'' [] sample_desk_world = (Ok (), w')
     \<and> LoadConfig (ke_host sample_desk) (ke_ini sample_desk) (ke_nets sample_desk) ''/covd'' w' = (Ok cfg, w')
     \<and> Cfg_BabylonConfig cfg = Some bbn \<and> BBN_Key bbn = ''key''"
proof -
  obtain w' where w': "createKey sample_desk ''/covd'' ''chain-test'' ''key'' ''test'' ''pw'' [] sample_desk_world = (Ok (), w')"
    using sample_desk_creates by blast
  have "iniWritable (sample_file\<lparr>BTCNetParams := NetParams ''simnet''\<rparr>)"
    by (simp add: iniWritable_def sample_file_def DefaultConfigWithHomePath_def Validate_def ValidateMetrics_def
        DefaultMetricsConfig_def networkParams_def sample_nets_def)
  from created_key_configured [OF sample_desk_laws(1) sample_desk_loads this w'] w' show ?thesis by fastforce
qed

end
