(* ===== verification/CovdMain.thy ===== *)
theory CovdMain
  imports CovdCmd
begin

text \<open>
  The command line of the daemon \<^verbatim>\<open>covd\<close>: the names of the flags (\<^verbatim>\<open>cmd/covd/flags.go\<close>), the
  declarations of the four commands (\<^verbatim>\<open>start.go\<close>, \<^verbatim>\<open>init.go\<close>, \<^verbatim>\<open>key.go\<close>) and the main
  function (\<^verbatim>\<open>main.go\<close>). The actions are those of \<open>CovdCmd\<close>.

  The package that parses the command line (urfave/cli) is a parameter: given the declared commands it
  selects one and gives its action the values of the flags. The law \<open>cli_law\<close> says what it documents
  for a command followed by flags with values.

  The lemmas show that an action reads no flag its command does not declare, that the defaults of the
  flags fit together, and how the process ends.
\<close>

section \<open>Flags\<close>

definition homeFlag :: string where "homeFlag = ''home''"
definition forceFlag :: string where "forceFlag = ''force''"
definition keyNameFlag :: string where "keyNameFlag = ''key-name''"
definition passphraseFlag :: string where "passphraseFlag = ''passphrase''"
definition hdPathFlag :: string where "hdPathFlag = ''hd-path''"
definition chainIDFlag :: string where "chainIDFlag = ''chain-id''"
definition keyringBackendFlag :: string where "keyringBackendFlag = ''keyring-backend''"
definition defaultChainID :: string where "defaultChainID = ''chain-test''"
definition defaultKeyringBackend :: string where "defaultKeyringBackend = BackendTest"
definition defaultPassphrase :: string where "defaultPassphrase = []"
definition defaultHdPath :: string where "defaultHdPath = []"

lemmas flag_defs = homeFlag_def forceFlag_def keyNameFlag_def passphraseFlag_def hdPathFlag_def chainIDFlag_def
  keyringBackendFlag_def defaultChainID_def defaultKeyringBackend_def defaultPassphrase_def defaultHdPath_def

datatype cliFlag =
    StringFlag (flagName: string) (flagUsage: string) (flagValue: string) (flagRequired: bool)
  | BoolFlag (flagName: string) (flagUsage: string) (flagRequired: bool)

record cliContext =
  ctx_String :: "string \<Rightarrow> string"
  ctx_Bool :: "string \<Rightarrow> bool"

record 'a cliCommand =
  cmd_Name :: string
  cmd_ShortName :: string
  cmd_Usage :: string
  cmd_Description :: string
  cmd_Flags :: "cliFlag list"
  cmd_Action :: "cliContext \<Rightarrow> 'a"

section \<open>Commands\<close>

text \<open>
  The program and what it uses. \<^verbatim>\<open>DefaultCovenantDir\<close> is computed by a package (btcutil) when the
  process starts.
\<close>

record 'v covdProg =
  cp_env :: "'v krworld covdEnv"
  cp_dc :: BabylonConfig
  cp_sdk :: "'v sdklib"
  cp_kl :: keylib
  cp_MarshalHex :: "PublicKey \<Rightarrow> string"
  cp_print :: "string \<Rightarrow> 'v krworld \<Rightarrow> 'v krworld"
  DefaultCovenantDir :: string

definition keyEnvOf :: "'v covdProg \<Rightarrow> 'v keyEnv" where
  "keyEnvOf prog = \<lparr>ke_host = env_host (cp_env prog), ke_ini = env_ini (cp_env prog), ke_nets = env_nets (cp_env prog),
     ke_sdk = cp_sdk prog, ke_kl = cp_kl prog, ke_MarshalHex = cp_MarshalHex prog, ke_print = cp_print prog\<rparr>"

definition DefaultConfig :: "'v covdProg \<Rightarrow> Config result" where
  "DefaultConfig prog = DefaultConfigWithHomePath (cp_dc prog) (env_nets (cp_env prog)) (DefaultCovenantDir prog)"

text \<open>A command is done, or it serves until the daemon ends.\<close>

datatype 'v outcome = Done | Serving "'v krworld Emulator" "'v krworld daemon"

type_synonym 'v action = "('v krworld, 'v outcome) act"

definition startCommand :: "'v covdProg \<Rightarrow> 'v action cliCommand" where
  "startCommand prog = \<lparr>cmd_Name = ''start'', cmd_ShortName = [], cmd_Usage = ''Start the Covenant Emulator Daemon'',
     cmd_Description = ''Start the Covenant Emulator Daemon. Note that the Covenant key pair should be created beforehand'',
     cmd_Flags = [StringFlag homeFlag ''The path to the covenant home directory'' (DefaultCovenantDir prog) False],
     cmd_Action = (\<lambda>ctx. bindS (start (cp_env prog) (ctx_String ctx homeFlag)) (\<lambda>(ce, d). returnS (Serving ce d)))\<rparr>"

definition initCommand :: "'v covdProg \<Rightarrow> 'v action cliCommand" where
  "initCommand prog = \<lparr>cmd_Name = ''init'', cmd_ShortName = [], cmd_Usage = ''Initialize a covenant home directory.'',
     cmd_Description = [],
     cmd_Flags = [
       StringFlag homeFlag ''Path to where the home directory will be initialized'' (DefaultCovenantDir prog) False,
       BoolFlag forceFlag ''Override existing configuration'' False],
     cmd_Action = (\<lambda>ctx.
       bindS (initHome (env_host (cp_env prog)) (env_ini (cp_env prog)) (env_nets (cp_env prog)) (cp_dc prog)
                (ctx_String ctx homeFlag) (ctx_Bool ctx forceFlag)) (\<lambda>_. returnS Done))\<rparr>"

definition createKeyCommand :: "'v covdProg \<Rightarrow> 'v action cliCommand" where
  "createKeyCommand prog = \<lparr>cmd_Name = ''create-key'', cmd_ShortName = ''ck'',
     cmd_Usage = ''Create a Covenant account in the keyring.'', cmd_Description = [],
     cmd_Flags = [
       StringFlag chainIDFlag ''The chainID of the consumer chain'' defaultChainID False,
       StringFlag keyNameFlag ''The unique name of the covenant key'' [] True,
       StringFlag passphraseFlag ''The pass phrase used to encrypt the keys'' defaultPassphrase False,
       StringFlag hdPathFlag ''The hd path used to derive the private key'' defaultHdPath False,
       StringFlag keyringBackendFlag ''Select keyring's backend'' defaultKeyringBackend False,
       StringFlag homeFlag ''The home directory for the covenant'' (DefaultCovenantDir prog) False],
     cmd_Action = (\<lambda>ctx.
       bindS (createKey (keyEnvOf prog) (ctx_String ctx homeFlag) (ctx_String ctx chainIDFlag) (ctx_String ctx keyNameFlag)
                (ctx_String ctx keyringBackendFlag) (ctx_String ctx passphraseFlag) (ctx_String ctx hdPathFlag))
         (\<lambda>_. returnS Done))\<rparr>"

definition showKeyCommand :: "'v covdProg \<Rightarrow> 'v action cliCommand" where
  "showKeyCommand prog = \<lparr>cmd_Name = ''show-key'', cmd_ShortName = ''sk'',
     cmd_Usage = ''Show a Covenant account in the keyring.'', cmd_Description = [],
     cmd_Flags = [
       StringFlag chainIDFlag ''The chainID of the consumer chain'' defaultChainID False,
       StringFlag keyNameFlag ''The name of the covenant key'' [] True,
       StringFlag passphraseFlag ''The pass phrase used to decrypt the key'' defaultPassphrase False,
       StringFlag keyringBackendFlag ''Select keyring's backend'' defaultKeyringBackend False,
       StringFlag homeFlag ''The home directory for the covenant'' (DefaultCovenantDir prog) False],
     cmd_Action = (\<lambda>ctx.
       bindS (showKey (keyEnvOf prog) (ctx_String ctx homeFlag) (ctx_String ctx chainIDFlag) (ctx_String ctx keyNameFlag)
                (ctx_String ctx keyringBackendFlag) (ctx_String ctx passphraseFlag))
         (\<lambda>_. returnS Done))\<rparr>"

section \<open>The main function\<close>

text \<open>What the package makes of a command line: an action with its flags, or none, as for a request for help.\<close>

datatype selection = RunCommand nat cliContext | NoCommand "error option"

type_synonym cmdSpec = "string \<times> string \<times> cliFlag list"

record clilib =
  cli_select :: "cmdSpec list \<Rightarrow> string list \<Rightarrow> selection"

definition specOf :: "'a cliCommand \<Rightarrow> cmdSpec" where
  "specOf c = (cmd_Name c, cmd_ShortName c, cmd_Flags c)"

definition covdCommands :: "'v covdProg \<Rightarrow> 'v action cliCommand list" where
  "covdCommands prog = [startCommand prog, initCommand prog, createKeyCommand prog, showKeyCommand prog]"

definition appRun :: "clilib \<Rightarrow> 'v action cliCommand list \<Rightarrow> string list \<Rightarrow> 'v action" where
  "appRun lib cmds args =
     (case cli_select lib (map specOf cmds) args of
        RunCommand i ctx \<Rightarrow> cmd_Action (cmds ! i) ctx
      | NoCommand None \<Rightarrow> returnS Done
      | NoCommand (Some e) \<Rightarrow> failS e)"

text \<open>The end of the process: its status and what it wrote to the standard error; a panic is status 2.\<close>

datatype 'v exit = ProcExit nat string | Running "'v krworld Emulator" "'v krworld daemon"

definition fatal :: "error \<Rightarrow> 'v exit" where
  "fatal err = ProcExit 1 (''[covd] '' @ err @ [CHR 0x0A])"

definition covdMain :: "clilib \<Rightarrow> 'v covdProg \<Rightarrow> string list \<Rightarrow> 'v krworld \<Rightarrow> 'v exit \<times> 'v krworld" where
  "covdMain lib prog args w =
     (case appRun lib (covdCommands prog) args w of
        (Ok Done, w1) \<Rightarrow> (ProcExit 0 [], w1)
      | (Ok (Serving ce d), w1) \<Rightarrow> (Running ce d, w1)
      | (Err e, w1) \<Rightarrow> (fatal e, w1)
      | (Panic p, w1) \<Rightarrow> (ProcExit 2 (''panic: '' @ p), w1))"

text \<open>The end of a process that served: the return of \<^verbatim>\<open>RunUntilShutdown\<close> is that of the action.\<close>

definition daemonExit :: "'v krworld daemon \<Rightarrow> 'v exit option" where
  "daemonExit d =
     (case d_main d of
        MainReturned (Ok _) \<Rightarrow> Some (ProcExit 0 [])
      | MainReturned (Err e) \<Rightarrow> Some (fatal e)
      | _ \<Rightarrow> None)"

section \<open>Lemmas: flags\<close>

text \<open>Two contexts that give the declared flags the same values, each at its type.\<close>

definition agreeOn :: "cliFlag list \<Rightarrow> cliContext \<Rightarrow> cliContext \<Rightarrow> bool" where
  "agreeOn fs c c' \<longleftrightarrow> (\<forall>f \<in> set fs.
     case f of StringFlag n _ _ _ \<Rightarrow> ctx_String c n = ctx_String c' n
     | BoolFlag n _ _ \<Rightarrow> ctx_Bool c n = ctx_Bool c' n)"

lemmas command_defs = startCommand_def initCommand_def createKeyCommand_def showKeyCommand_def

lemma command_names_distinct:
  "distinct (concat (map (\<lambda>c. cmd_Name c # (if cmd_ShortName c = [] then [] else [cmd_ShortName c])) (covdCommands prog)))"
  by (simp add: covdCommands_def command_defs)

text \<open>The values of the flags of a command line that has the given ones.\<close>

definition givenCtx :: "cliFlag list \<Rightarrow> (string \<times> string) list \<Rightarrow> cliContext" where
  "givenCtx fs given = \<lparr>
     ctx_String = (\<lambda>n. case map_of given n of
         Some v \<Rightarrow> v
       | None \<Rightarrow> (case List.find (\<lambda>f. is_StringFlag f \<and> flagName f = n) fs of Some f \<Rightarrow> flagValue f | None \<Rightarrow> [])),
     ctx_Bool = (\<lambda>n. False)\<rparr>"

definition flagArgs :: "(string \<times> string) list \<Rightarrow> string list" where
  "flagArgs given = concat (map (\<lambda>(n, v). [''--'' @ n, v]) given)"

text \<open>A name the package takes as one name.\<close>

definition plainName :: "string \<Rightarrow> bool" where
  "plainName n \<longleftrightarrow> n \<notin> {[], ''h'', ''help''} \<and> hd n \<noteq> CHR ''-'' \<and> list_all (\<lambda>c. c \<notin> set ''=, '') n"

definition callable :: "cmdSpec list \<Rightarrow> nat \<Rightarrow> (string \<times> string) list \<Rightarrow> bool" where
  "callable specs i given \<longleftrightarrow> i < length specs
     \<and> list_all (\<lambda>(name, short, fs). plainName name \<and> (short = [] \<or> plainName short) \<and> list_all (\<lambda>f. plainName (flagName f)) fs) specs
     \<and> distinct (concat (map (\<lambda>(name, short, fs). name # (if short = [] then [] else [short])) specs))
     \<and> distinct (map flagName (snd (snd (specs ! i)))) \<and> distinct (map fst given)
     \<and> (\<forall>n \<in> set (map fst given). \<exists>f \<in> set (snd (snd (specs ! i))). is_StringFlag f \<and> flagName f = n)
     \<and> (\<forall>f \<in> set (snd (snd (specs ! i))). flagRequired f \<longrightarrow> flagName f \<in> set (map fst given))"

text \<open>What the package documents: the command is found by its name, and flags have the given or the declared value.\<close>

definition cli_law :: "clilib \<Rightarrow> bool" where
  "cli_law lib \<longleftrightarrow> (\<forall>specs i given prog. callable specs i given \<longrightarrow>
     cli_select lib specs (prog # fst (specs ! i) # flagArgs given) = RunCommand i (givenCtx (snd (snd (specs ! i))) given))"

lemma cli_lawD:
  assumes "cli_law lib" "callable (map specOf cmds) i given"
  shows "appRun lib cmds (prog # cmd_Name (cmds ! i) # flagArgs given)
    = cmd_Action (cmds ! i) (givenCtx (cmd_Flags (cmds ! i)) given)"
proof -
  have i: "i < length cmds" using assms(2) by (simp add: callable_def)
  have "cli_select lib (map specOf cmds) (prog # fst (map specOf cmds ! i) # flagArgs given)
      = RunCommand i (givenCtx (snd (snd (map specOf cmds ! i))) given)"
    using assms unfolding cli_law_def by blast
  with i show ?thesis by (simp add: appRun_def specOf_def)
qed

lemma covd_callable:
  "callable (map specOf (covdCommands prog)) 0 []" "callable (map specOf (covdCommands prog)) 1 []"
  "callable (map specOf (covdCommands prog)) 2 [(''key-name'', k)]"
  by (simp_all add: callable_def covdCommands_def command_defs specOf_def plainName_def flag_defs)

lemma covdMain_ended:
  assumes "covdMain lib prog args w = (ProcExit 0 out, w')"
  shows "appRun lib (covdCommands prog) args w = (Ok Done, w')"
  using assms by (auto simp: covdMain_def fatal_def split: prod.splits result.splits outcome.splits)

lemma covdMain_init:
  assumes "cli_law lib" "covdMain lib prog [p, ''init''] w = (ProcExit 0 out, w')"
  shows "initHome (env_host (cp_env prog)) (env_ini (cp_env prog)) (env_nets (cp_env prog)) (cp_dc prog)
    (DefaultCovenantDir prog) False w = (Ok (), w')"
proof -
  have "appRun lib (covdCommands prog) [p, ''init''] = cmd_Action (initCommand prog) (givenCtx (cmd_Flags (initCommand prog)) [])"
    using cli_lawD [OF assms(1) covd_callable(2), of prog p] by (simp add: covdCommands_def flagArgs_def) (simp add: initCommand_def)
  with covdMain_ended [OF assms(2)] show ?thesis
    by (auto simp: initCommand_def givenCtx_def flag_defs act_simps)
qed

lemma covdMain_createKey:
  assumes "cli_law lib" "covdMain lib prog [p, ''create-key'', ''--key-name'', k] w = (ProcExit 0 out, w')"
  shows "createKey (keyEnvOf prog) (DefaultCovenantDir prog) ''chain-test'' k ''test'' [] [] w = (Ok (), w')"
proof -
  have "appRun lib (covdCommands prog) [p, ''create-key'', ''--key-name'', k]
      = cmd_Action (createKeyCommand prog) (givenCtx (cmd_Flags (createKeyCommand prog)) [(''key-name'', k)])"
    using cli_lawD [OF assms(1) covd_callable(3), of prog p] by (simp add: covdCommands_def flagArgs_def) (simp add: createKeyCommand_def)
  with covdMain_ended [OF assms(2)] show ?thesis
    by (auto simp: createKeyCommand_def givenCtx_def flag_defs BackendTest_def act_simps)
qed

section \<open>A sample program\<close>

text \<open>A parser for flags with a value each.\<close>

fun sample_pairs :: "string list \<Rightarrow> (string \<times> string) list" where
  "sample_pairs (f # v # rest) = (drop 2 f, v) # sample_pairs rest"
| "sample_pairs _ = []"

definition sample_cli :: clilib where
  "sample_cli = \<lparr>cli_select = (\<lambda>specs args.
     case args of
       prog # name # rest \<Rightarrow>
         (case List.find (\<lambda>i. fst (specs ! i) = name) [0..<length specs] of
            Some i \<Rightarrow> RunCommand i (givenCtx (snd (snd (specs ! i))) (sample_pairs rest))
          | None \<Rightarrow> NoCommand (Some ''no such command''))
     | _ \<Rightarrow> NoCommand None)\<rparr>"

lemma sample_pairs_args: "sample_pairs (flagArgs given) = given"
  by (induction given) (auto simp: flagArgs_def)

lemma distinct_map_fst:
  assumes "distinct (concat (map f xs))" and "\<And>x. fst x \<in> set (f x)"
  shows "distinct (map fst xs)"
  using assms(1)
proof (induction xs)
  case (Cons x xs)
  have "fst x \<noteq> fst y" if "y \<in> set xs" for y using that Cons.prems assms(2) [of x] assms(2) [of y] by auto
  with Cons show ?case by auto
qed simp

lemma sample_cli_law: "cli_law sample_cli"
  unfolding cli_law_def
proof (intro allI impI)
  fix specs i given prog
  assume "callable specs i given"
  then have i: "i < length specs" and d: "distinct (concat (map (\<lambda>(name, short, fs). name # (if short = [] then [] else [short])) specs))"
    by (simp_all add: callable_def)
  have "distinct (map fst specs)" 
    using distinct_map_fst [where f = "\<lambda>(name, short, fs). name # (if short = [] then [] else [short])", OF d] by auto
  then have "fst (specs ! j) \<noteq> fst (specs ! i)" if "j < i" for j
    using that i by (simp add: distinct_conv_nth)
  with i have "List.find (\<lambda>j. fst (specs ! j) = fst (specs ! i)) [0..<length specs] = Some i"
    by (auto simp: find_Some_iff intro!: exI [of _ i])
  then show "cli_select sample_cli specs (prog # fst (specs ! i) # flagArgs given)
      = RunCommand i (givenCtx (snd (snd (specs ! i))) given)"
    by (simp add: sample_cli_def sample_pairs_args)
qed

definition sample_prog :: "desk covdProg" where
  "sample_prog = \<lparr>cp_env = \<lparr>env_host = ke_host sample_desk, env_ini = ke_ini sample_desk, env_nets = sample_nets,
       env_clib = \<lparr>BabylonConfig_Validate = (\<lambda>_. Ok ()), bbnclient_New = (\<lambda>_. returnS sample_conn)\<rparr>,
       env_qlib = sample_qlib, env_net = sample_pknet, env_blib = sample_blib, env_lib = sample_lib,
       env_retryDo = (\<lambda>n f. f), env_clock = (\<lambda>w. (7, w)), env_intercept = returnS ()\<rparr>,
     cp_dc = sample_dc, cp_sdk = ke_sdk sample_desk, cp_kl = ke_kl sample_desk, cp_MarshalHex = ke_MarshalHex sample_desk,
     cp_print = ke_print sample_desk, DefaultCovenantDir = ''/covd''\<rparr>"

lemma sample_file_net: "sample_file\<lparr>BTCNetParams := NetParams []\<rparr> = sample_file"
  by (simp add: sample_file_def DefaultConfigWithHomePath_def Validate_def ValidateMetrics_def DefaultMetricsConfig_def
      networkParams_def sample_nets_def zeroConfig_def)

lemma sample_prog_desk: "keyEnvOf sample_prog = sample_desk"
  by (simp add: keyEnvOf_def sample_prog_def sample_desk_def)

section \<open>Properties\<close>

text \<open>
  C14. An action reads no flag that its command does not declare, and every flag at its declared type:
  two command lines that give the declared flags the same values have the same effect. A flag that is
  read but not declared would silently be empty.
\<close>

theorem commands_read_declared_flags:
  assumes "c \<in> set (covdCommands prog)" and "agreeOn (cmd_Flags c) ctx ctx'"
  shows "cmd_Action c ctx = cmd_Action c ctx'"
  using assms by (auto simp: covdCommands_def command_defs agreeOn_def)

theorem commands_read_declared_flags_witness:
  "cmd_Action (startCommand sample_prog) \<lparr>ctx_String = (\<lambda>n. ''/covd''), ctx_Bool = (\<lambda>n. True)\<rparr>
     = cmd_Action (startCommand sample_prog)
         \<lparr>ctx_String = (\<lambda>n. if n = ''home'' then ''/covd'' else []), ctx_Bool = (\<lambda>n. False)\<rparr>"
  by (rule commands_read_declared_flags [of _ sample_prog])
     (simp_all add: covdCommands_def agreeOn_def startCommand_def homeFlag_def)



section \<open>Lemmas: the end of the process\<close>

lemma start_runs:
  assumes "start env home w = (Ok (ce, d), w')"
  shows "d = RunUntilShutdown ce (daemonInit (emuInit w'))"
  using assms by (auto simp: start_def act_simps split: prod.splits)

text \<open>A daemon that served and returned has status 0, and both of its loops have exited.\<close>

lemma served_exit_clean:
  assumes "start env home w = (Ok (ce, d), w')" "d_main d = MainServing"
    and "(daemonStep ce blib slib)\<^sup>*\<^sup>* d d'" "daemonExit d' = Some ex"
  shows "ex = ProcExit 0 []" "\<forall>l \<in> set (p_loops (d_proc d')). snd l = Exited"
proof -
  let ?d0 = "daemonInit (emuInit w')"
  have "daemonStep ce blib slib ?d0 d"
    unfolding start_runs [OF assms(1)] by (rule daemonStep.run) (simp_all add: daemonInit_def procInit_def)
  then have inv: "mainInv ce d" using mainInv_step mainInv_init by blast
  then have "p_startOnce (d_proc d)" using assms(2) by (simp add: mainInv_def)
  with inv have "p_startOnce (d_proc d')"
  proof (rule dm.reach_with [OF assms(3)])
    fix t u
    assume "daemonStep ce blib slib t u" "mainInv ce t" "p_startOnce (d_proc t)"
    then show "p_startOnce (d_proc u)"
      by cases (auto simp: mainInv_def StopCall_def dest!: readiness_only_world)
  qed
  moreover have "mainInv ce d'" using dm.reach [OF assms(3) inv] .
  ultimately show "ex = ProcExit 0 []" "\<forall>l \<in> set (p_loops (d_proc d')). snd l = Exited"
    using assms(4) by (auto simp: daemonExit_def mainInv_def split: mainPhase.splits result.splits)
qed

end
