(* ===== verification/TestSupport.thy ===== *)
theory TestSupport
  imports CovTypes
begin

text \<open>
  What the tests are built from: random delegations and parameters (\<^verbatim>\<open>testutil/datagen.go\<close>) and the
  ports of the end-to-end tests (\<^verbatim>\<open>itest/utils.go\<close>). A failed assertion of a test is an error.

  Random sources are parameters, since their values are not specified; what is documented is the range
  of a number. Babylon's generators, its staking package and the sockets are parameters too.

  The lemmas show that generated parameters are consistent, that a generated staking transaction has
  the staking output at the index the tests use, and that no two tests get the same port.
\<close>

section \<open>Sources of randomness\<close>

record 'r datagenlib =
  r_Int63n :: "int \<Rightarrow> 'r \<Rightarrow> int \<times> 'r"
  r_Int63 :: "'r \<Rightarrow> int \<times> 'r"
  r_Uint32 :: "'r \<Rightarrow> uint32 \<times> 'r"
  global_Intn :: "int \<Rightarrow> 'r \<Rightarrow> int \<times> 'r"
  datagen_RandomInt :: "nat \<Rightarrow> 'r \<Rightarrow> uint64 \<times> 'r"
  GenRandomByteArray :: "uint64 \<Rightarrow> 'r \<Rightarrow> bytes \<times> 'r"
  GenRandomBTCKeyPair :: "('r, PrivateKey \<times> PublicKey) act"
  GenRandomBTCAddress :: "NetParams \<Rightarrow> ('r, string) act"
  GenRandomPubKeyHashScript :: "NetParams \<Rightarrow> ('r, bytes) act"
  PayToAddrScript :: "string \<Rightarrow> bytes result"
  isNonStandard :: "bytes \<Rightarrow> bool"
  NewHash :: "bytes \<Rightarrow> Hash result"
  LegacyNewDecWithPrec :: "int64 \<Rightarrow> int \<Rightarrow> LegacyDec"
  LegacyDec_zero :: LegacyDec
  StakingInfo_StakingOutput :: "StakingInfo \<Rightarrow> TxOutput"
  BuildSlashingTxFromStakingTxStrict ::
    "MsgTx \<Rightarrow> uint32 \<Rightarrow> bytes \<Rightarrow> PublicKey \<Rightarrow> uint16 \<Rightarrow> int64 \<Rightarrow> LegacyDec \<Rightarrow> NetParams \<Rightarrow> MsgTx result"
  NewBTCSlashingTxFromMsgTx :: "MsgTx \<Rightarrow> BTCSlashingTx result"
  dg_SimNetParams :: NetParams
  dg_PubKey :: "PrivateKey \<Rightarrow> PublicKey"

definition drawS :: "('r \<Rightarrow> 'a \<times> 'r) \<Rightarrow> ('r, 'a) act" where
  "drawS f = (\<lambda>r. case f r of (a, r') \<Rightarrow> (Ok a, r'))"

section \<open>Generators\<close>

definition GenRandomHexStr :: "'r datagenlib \<Rightarrow> uint64 \<Rightarrow> ('r, string) act" where
  "GenRandomHexStr dg len = bindS (drawS (GenRandomByteArray dg len)) (\<lambda>randBytes. returnS (EncodeToString randBytes))"

text \<open>The seeds that are added to a fuzz test.\<close>

fun AddRandomSeedsToFuzzer :: "'r datagenlib \<Rightarrow> nat \<Rightarrow> ('r, int list) act" where
  "AddRandomSeedsToFuzzer dg 0 = returnS []"
| "AddRandomSeedsToFuzzer dg (Suc num) =
     bindS (drawS (r_Int63 dg)) (\<lambda>seed.
     bindS (AddRandomSeedsToFuzzer dg num) (\<lambda>seeds. returnS (seed # seeds)))"

definition GenValidSlashingRate :: "'r datagenlib \<Rightarrow> ('r, LegacyDec) act" where
  "GenValidSlashingRate dg = bindS (drawS (datagen_RandomInt dg 41)) (\<lambda>n. returnS (LegacyNewDecWithPrec dg (n + 10) 2))"

text \<open>The generator that is passed is not used; an empty range is a panic.\<close>

definition RandRange :: "'r datagenlib \<Rightarrow> int \<Rightarrow> int \<Rightarrow> ('r, int) act" where
  "RandRange dg minVal maxVal =
     (if maxVal + 1 - minVal \<le> 0 then liftR (Panic ''invalid argument to Intn'')
      else bindS (drawS (global_Intn dg (maxVal + 1 - minVal))) (\<lambda>n. returnS (n + minVal)))"

fun GenBtcPublicKeys :: "'r datagenlib \<Rightarrow> nat \<Rightarrow> ('r, PublicKey list) act" where
  "GenBtcPublicKeys dg 0 = returnS []"
| "GenBtcPublicKeys dg (Suc num) =
     bindS (GenRandomBTCKeyPair dg) (\<lambda>(sk, pk).
     bindS (GenBtcPublicKeys dg num) (\<lambda>pks. returnS (pk # pks)))"

definition GenRandomParams :: "'r datagenlib \<Rightarrow> ('r, StakingParams) act" where
  "GenRandomParams dg =
     bindS (drawS (datagen_RandomInt dg 5)) (\<lambda>n.
     let covThreshold = n + 1; covNum = covThreshold * 2
     in bindS (GenBtcPublicKeys dg (unat covNum)) (\<lambda>covenantPks.
        bindS (GenRandomBTCAddress dg (dg_SimNetParams dg)) (\<lambda>slashingAddr.
        bindS (liftR (PayToAddrScript dg slashingAddr)) (\<lambda>slashingPkScript.
        bindS (GenValidSlashingRate dg) (\<lambda>rate.
        returnS \<lparr>ComfirmationTimeBlocks = 10, FinalizationTimeoutBlocks = 100, MinSlashingTxFeeSat = 1,
          CovenantPks = covenantPks, SlashingPkScript = slashingPkScript, CovenantQuorum = ucast covThreshold,
          SlashingRate = rate, MinComissionRate = LegacyDec_zero dg, UnbondingTimeBlocks = 101, UnbondingFee = 1000,
          MinStakingTime = 10, MaxStakingTime = 65535, MinStakingValue = 10000,
          MaxStakingValue = 10000000000\<rparr>)))))"

record spendableOut =
  prevOut :: OutPoint
  spend_amount :: int64

text \<open>The error of \<^verbatim>\<open>NewHash\<close> is dropped, so a wrong length would be a nil dereference.\<close>

definition randOutPoint :: "'r datagenlib \<Rightarrow> ('r, OutPoint) act" where
  "randOutPoint dg =
     bindS (drawS (GenRandomByteArray dg 32)) (\<lambda>bs.
     bindS (liftR (case NewHash dg bs of Ok h \<Rightarrow> Ok h | _ \<Rightarrow> Panic nil_deref)) (\<lambda>hash.
     bindS (drawS (r_Uint32 dg)) (\<lambda>idx.
     returnS \<lparr>OutPoint_Hash = hash, OutPoint_Index = idx\<rparr>)))"

definition makeSpendableOutWithRandOutPoint :: "'r datagenlib \<Rightarrow> int64 \<Rightarrow> ('r, spendableOut) act" where
  "makeSpendableOutWithRandOutPoint dg amount =
     bindS (randOutPoint dg) (\<lambda>out. returnS \<lparr>prevOut = out, spend_amount = amount\<rparr>)"

record TestStakingSlashingInfo =
  TSI_StakingTx :: MsgTx
  TSI_SlashingTx :: BTCSlashingTx
  TSI_StakingInfo :: StakingInfo

definition NewTxIn :: "OutPoint \<Rightarrow> TxInput" where
  "NewTxIn op = \<lparr>PreviousOutPoint = op, SignatureScript = [], Witness = [], Sequence = 0xffffffff\<rparr>"

definition GenBTCStakingSlashingInfoWithOutPoint ::
  "'r datagenlib \<Rightarrow> stakinglib \<Rightarrow> NetParams \<Rightarrow> OutPoint \<Rightarrow> PrivateKey \<Rightarrow> PublicKey list \<Rightarrow> PublicKey list
    \<Rightarrow> uint32 \<Rightarrow> uint16 \<Rightarrow> int64 \<Rightarrow> bytes \<Rightarrow> LegacyDec \<Rightarrow> uint16 \<Rightarrow> ('r, TestStakingSlashingInfo) act" where
  "GenBTCStakingSlashingInfoWithOutPoint dg slib btcNet outPoint stakerSK fpPKs covenantPKs covenantQuorum
       stakingTimeBlocks stakingValue slashingPkScript1 slashingRate1 slashingChangeLockTime =
     bindS (liftR (BuildStakingInfo slib (dg_PubKey dg stakerSK) fpPKs covenantPKs covenantQuorum stakingTimeBlocks
                     stakingValue btcNet)) (\<lambda>stakingInfo.
     bindS (GenRandomPubKeyHashScript dg btcNet) (\<lambda>changeAddrScript.
     if isNonStandard dg changeAddrScript then failS ''Should be false''
     else
       (let tx = \<lparr>Version = 2, TxIn = [NewTxIn outPoint],
                  TxOut = [\<lparr>Value = 10000, PkScript = changeAddrScript\<rparr>, StakingInfo_StakingOutput dg stakingInfo],
                  LockTime = 0\<rparr>
        in bindS (liftR (BuildSlashingTxFromStakingTxStrict dg tx 1 slashingPkScript1 (dg_PubKey dg stakerSK)
                           slashingChangeLockTime 2000 slashingRate1 btcNet)) (\<lambda>slashingMsgTx.
           bindS (liftR (NewBTCSlashingTxFromMsgTx dg slashingMsgTx)) (\<lambda>slashingTx.
           returnS \<lparr>TSI_StakingTx = tx, TSI_SlashingTx = slashingTx, TSI_StakingInfo = stakingInfo\<rparr>)))))"

text \<open>The amount of the spent output is computed, but only its outpoint is used.\<close>

definition GenBTCStakingSlashingInfo ::
  "'r datagenlib \<Rightarrow> stakinglib \<Rightarrow> NetParams \<Rightarrow> PrivateKey \<Rightarrow> PublicKey list \<Rightarrow> PublicKey list
    \<Rightarrow> uint32 \<Rightarrow> uint16 \<Rightarrow> int64 \<Rightarrow> bytes \<Rightarrow> LegacyDec \<Rightarrow> uint16 \<Rightarrow> ('r, TestStakingSlashingInfo) act" where
  "GenBTCStakingSlashingInfo dg slib btcNet stakerSK fpPKs covenantPKs covenantQuorum stakingTimeBlocks stakingValue
       slashingPkScript1 slashingRate1 slashingChangeLockTime =
     bindS (drawS (r_Int63n dg 1000)) (\<lambda>n.
     bindS (makeSpendableOutWithRandOutPoint dg (stakingValue + word_of_int (n + 1))) (\<lambda>spend.
     GenBTCStakingSlashingInfoWithOutPoint dg slib btcNet (prevOut spend) stakerSK fpPKs covenantPKs covenantQuorum
       stakingTimeBlocks stakingValue slashingPkScript1 slashingRate1 slashingChangeLockTime))"

section \<open>Ports\<close>

text \<open>The ports that are taken, and the host: its random numbers and its sockets.\<close>

record 'w portState =
  allocatedPorts :: "int set"
  portHost :: 'w

record 'w socketlib =
  mrand_IntN :: "int \<Rightarrow> 'w \<Rightarrow> int \<times> 'w"
  net_Listen :: "string \<Rightarrow> ('w, unit) act"
  listener_Close :: "('w, unit) act"
  os_TempDir :: "'w \<Rightarrow> string"
  os_MkdirTemp :: "string \<Rightarrow> string \<Rightarrow> ('w, string) act"
  os_Chmod :: "string \<Rightarrow> nat \<Rightarrow> ('w, unit) act"

definition onPortHost :: "('w, 'a) act \<Rightarrow> ('w portState, 'a) act" where
  "onPortHost m = (\<lambda>s. case m (portHost s) of (r, w) \<Rightarrow> (r, s\<lparr>portHost := w\<rparr>))"

text \<open>The attempts that are left; each failure goes on to the next.\<close>

fun allocAttempts :: "'w socketlib \<Rightarrow> nat \<Rightarrow> ('w portState, int \<times> string) act" where
  "allocAttempts sl 0 = failS ''failed to find an available port in range 40000-90000''"
| "allocAttempts sl (Suc n) =
     bindS (onPortHost (drawS (mrand_IntN sl 50000))) (\<lambda>k s.
       (let port = 40000 + k; url = ''127.0.0.1:'' @ show_int port
        in if port \<in> allocatedPorts s then allocAttempts sl n s
           else
             catchS (onPortHost (net_Listen sl url)) (\<lambda>e. allocAttempts sl n) (\<lambda>_.
             bindS (modifyS (\<lambda>s. s\<lparr>allocatedPorts := insert port (allocatedPorts s)\<rparr>)) (\<lambda>_.
             catchS (onPortHost (listener_Close sl)) (\<lambda>e. allocAttempts sl n) (\<lambda>_.
             returnS (port, url)))) s))"

definition AllocateUniquePort :: "'w socketlib \<Rightarrow> ('w portState, int \<times> string) act" where
  "AllocateUniquePort sl = allocAttempts sl 30"

definition baseDir :: "'w socketlib \<Rightarrow> string \<Rightarrow> ('w, string) act" where
  "baseDir sl pattern =
     bindS (\<lambda>w. os_MkdirTemp sl (os_TempDir sl w) pattern w) (\<lambda>tempName.
     bindS (os_Chmod sl tempName 493) (\<lambda>_.
     returnS tempName))"

section \<open>Lemmas: generators\<close>

definition randomInt_law :: "'r datagenlib \<Rightarrow> bool" where
  "randomInt_law dg \<longleftrightarrow> (\<forall>n r. 0 < n \<longrightarrow> unat (fst (datagen_RandomInt dg n r)) < n)"

lemma drawS_Ok [act_simps]: "drawS f r = (q, r') \<longleftrightarrow> q = Ok (fst (f r)) \<and> r' = snd (f r)"
  by (auto simp: drawS_def split: prod.splits)

lemma GenBtcPublicKeys_length: "GenBtcPublicKeys dg n r = (Ok pks, r') \<Longrightarrow> length pks = n"
  by (induction n arbitrary: r pks) (auto simp: act_simps split: prod.splits)

text \<open>Generated parameters: a committee of twice the quorum, and a slashing rate from 10 to 50 percent.\<close>

lemma GenRandomParams_consistent:
  assumes "randomInt_law dg" "GenRandomParams dg r = (Ok p, r')"
  shows "unat (CovenantQuorum p) \<in> {1..5}" "length (CovenantPks p) = 2 * unat (CovenantQuorum p)"
    and "\<exists>k \<in> {10..50}. SlashingRate p = LegacyNewDecWithPrec dg (of_nat k) 2"
    and "MinStakingTime p \<le> MaxStakingTime p"
proof -
  let ?n = "fst (datagen_RandomInt dg 5 r)"
  from assms(2) obtain m where q: "CovenantQuorum p = ucast (?n + 1)" and pks: "length (CovenantPks p) = unat ((?n + 1) * 2)"
    and rate: "SlashingRate p = LegacyNewDecWithPrec dg (fst (datagen_RandomInt dg 41 m) + 10) 2"
    and time: "MinStakingTime p = 10" "MaxStakingTime p = 65535"
    by (auto simp: GenRandomParams_def GenValidSlashingRate_def Let_def act_simps dest!: GenBtcPublicKeys_length)
  have n: "unat ?n < 5" and m: "unat (fst (datagen_RandomInt dg 41 m)) < 41"
    using assms(1) by (simp_all add: randomInt_law_def)
  from n have u: "unat (?n + 1) = unat ?n + 1" "unat ((?n + 1) * 2) = 2 * (unat ?n + 1)"
    by (simp_all add: unat_word_ariths)
  from n have "unat (ucast (?n + 1) :: uint32) = unat ?n + 1"
    using u by (simp add: unsigned_ucast_eq take_bit_eq_mod)
  with n u q pks show "unat (CovenantQuorum p) \<in> {1..5}" "length (CovenantPks p) = 2 * unat (CovenantQuorum p)" by auto
  show "MinStakingTime p \<le> MaxStakingTime p" by (simp add: time)
  show "\<exists>k \<in> {10..50}. SlashingRate p = LegacyNewDecWithPrec dg (of_nat k) 2"
    using m rate by (intro bexI [of _ "unat (fst (datagen_RandomInt dg 41 m)) + 10"]) simp_all
qed

text \<open>The staking output is the second one, and the slashing transaction was built for it.\<close>

lemma GenBTCStakingSlashingInfo_shape:
  assumes "GenBTCStakingSlashingInfoWithOutPoint dg slib btcNet op sk fps covs q t v script rate lt r = (Ok info, r')"
  shows "BuildStakingInfo slib (dg_PubKey dg sk) fps covs q t v btcNet = Ok (TSI_StakingInfo info)"
    and "map PreviousOutPoint (TxIn (TSI_StakingTx info)) = [op]" "length (TxOut (TSI_StakingTx info)) = 2"
    and "TxOut (TSI_StakingTx info) ! 1 = StakingInfo_StakingOutput dg (TSI_StakingInfo info)"
    and "\<exists>m. BuildSlashingTxFromStakingTxStrict dg (TSI_StakingTx info) 1 script (dg_PubKey dg sk) lt 2000 rate btcNet = Ok m
      \<and> NewBTCSlashingTxFromMsgTx dg m = Ok (TSI_SlashingTx info)"
  using assms
  by (auto simp: GenBTCStakingSlashingInfoWithOutPoint_def NewTxIn_def Let_def act_simps split: if_splits)

section \<open>Lemmas: ports\<close>

text \<open>Numbers are in their range, and a port above 65535 cannot be listened on.\<close>

definition socket_law :: "'w socketlib \<Rightarrow> bool" where
  "socket_law sl \<longleftrightarrow> (\<forall>n w. 0 < n \<longrightarrow> fst (mrand_IntN sl n w) \<in> {0..<n})
     \<and> (\<forall>port w w'. 65535 < port \<longrightarrow> net_Listen sl (''127.0.0.1:'' @ show_int port) w \<noteq> (Ok (), w'))"

lemma onPortHost_eq:
  "onPortHost m s = (r, s') \<longleftrightarrow> (\<exists>w. m (portHost s) = (r, w) \<and> s' = s\<lparr>portHost := w\<rparr>)"
  by (auto simp: onPortHost_def split: prod.splits)

lemma allocAttempts_grows:
  "allocAttempts sl n s = (r, s') \<Longrightarrow> allocatedPorts s \<subseteq> allocatedPorts s'"
proof (induction n arbitrary: s)
  case (Suc n)
  then show ?case
    by (fastforce simp: onPortHost_def drawS_def catchS_def bindS_def Let_def
        split: prod.splits result.splits if_splits)
qed simp

text \<open>An attempt goes on to the next, possibly with one more port taken, or it is the last.\<close>

lemma allocAttempts_Suc:
  assumes "allocAttempts sl (Suc n) s = (Ok (port, url), s')"
  shows "(\<exists>t. allocatedPorts s \<subseteq> allocatedPorts t \<and> allocAttempts sl n t = (Ok (port, url), s'))
    \<or> (\<exists>w. port = 40000 + fst (mrand_IntN sl 50000 (portHost s)) \<and> url = ''127.0.0.1:'' @ show_int port
        \<and> port \<notin> allocatedPorts s \<and> port \<in> allocatedPorts s'
        \<and> net_Listen sl url (snd (mrand_IntN sl 50000 (portHost s))) = (Ok (), w))"
proof -
  obtain k w where k: "mrand_IntN sl 50000 (portHost s) = (k, w)" by fastforce
  let ?url = "''127.0.0.1:'' @ show_int (40000 + k)"
  obtain q w1 where q: "net_Listen sl ?url w = (q, w1)" by fastforce
  obtain c w2 where c: "listener_Close sl w1 = (c, w2)" by fastforce
  let ?s = "s\<lparr>portHost := w1\<rparr>"
  let ?t = "?s\<lparr>allocatedPorts := insert (40000 + k) (allocatedPorts s), portHost := w2\<rparr>"
  have next1: ?thesis if "allocatedPorts s \<subseteq> allocatedPorts t" "allocAttempts sl n t = (Ok (port, url), s')" for t
    using that by blast
  show ?thesis
  proof (cases "40000 + k \<in> allocatedPorts s")
    case True
    then show ?thesis using assms k by (intro next1 [of "s\<lparr>portHost := w\<rparr>"]) (simp_all add: onPortHost_def drawS_def Let_def)
  next
    case False
    have eq: "allocAttempts sl (Suc n) s = (case q of
        Ok _ \<Rightarrow> (case c of Ok _ \<Rightarrow> (Ok (40000 + k, ?url), ?t) | Err e \<Rightarrow> allocAttempts sl n ?t | Panic p \<Rightarrow> (Panic p, ?t))
      | Err e \<Rightarrow> allocAttempts sl n ?s | Panic p \<Rightarrow> (Panic p, ?s))"
      using False k q c
      by (simp add: onPortHost_def drawS_def catchS_def bindS_def Let_def split: result.splits)
    show ?thesis
    proof (cases q)
      case (Err e)
      then show ?thesis using assms eq by (intro next1 [of ?s]) auto
    next
      case (Ok u)
      then show ?thesis using assms eq False k q next1 [of ?t] by (cases c) auto
    qed (use assms eq in simp)
  qed
qed

lemma allocAttempts_fresh:
  assumes "socket_law sl"
  shows "allocAttempts sl n s = (Ok (port, url), s') \<Longrightarrow>
    port \<notin> allocatedPorts s \<and> port \<in> allocatedPorts s' \<and> port \<in> {40000..65535} \<and> url = ''127.0.0.1:'' @ show_int port"
proof (induction n arbitrary: s)
  case (Suc n)
  have "fst (mrand_IntN sl 50000 (portHost s)) \<in> {0..<50000}" using assms by (simp add: socket_law_def)
  moreover have "\<not> 65535 < port" if "net_Listen sl (''127.0.0.1:'' @ show_int port) w = (Ok (), w')" for w w'
    using assms that unfolding socket_law_def by blast
  ultimately show ?case using allocAttempts_Suc [OF Suc.prems] Suc.IH by fastforce
qed simp

text \<open>However many ports are allocated, no two are the same.\<close>

lemma ports_distinct:
  assumes "socket_law sl" "mapS (\<lambda>_. AllocateUniquePort sl) xs s = (Ok ps, s')"
  shows "distinct (map fst ps) \<and> set (map fst ps) \<inter> allocatedPorts s = {} \<and> set (map fst ps) \<subseteq> {40000..65535}"
  using assms(2)
proof (induction xs arbitrary: s ps)
  case (Cons x xs)
  from Cons.prems obtain port url t rest where
    a: "allocAttempts sl 30 s = (Ok (port, url), t)" and ps: "ps = (port, url) # rest"
    and rest: "mapS (\<lambda>_. AllocateUniquePort sl) xs t = (Ok rest, s')"
    by (auto simp: AllocateUniquePort_def act_simps)
  from allocAttempts_fresh [OF assms(1) a] allocAttempts_grows [OF a] Cons.IH [OF rest] ps show ?case by auto
qed (simp add: act_simps)

end
